(* ===== verification/Prelude.thy ===== *)
theory Prelude
  imports Main "HOL-Library.Word"
begin

text \<open>
  Shared vocabulary of the development: the fact collections that the component theories fill,
  the case splits every proof about a fallible call uses, and the fragment of Go's language and
  standard library that the operator's code relies on: byte strings, the \<open>%d\<close>, \<open>%q\<close> verbs of
  \<open>fmt\<close>, \<open>strings.Join\<close>, \<open>time.Duration\<close> and \<open>rand.Int64N\<close>.
\<close>

named_theorems go_defs "unfolding equations of the modelled calls"
named_theorems emits_intro "which events a call appends to the trace"

lemmas go_splits = prod.splits sum.splits option.splits if_splits

section \<open>Machine integers and durations\<close>

text \<open>
  Go's \<open>int32\<close> and \<open>int64\<close> are two's complement words, read with \<open>sint\<close>; a \<open>time.Duration\<close>
  is an \<open>int64\<close> count of nanoseconds whose addition wraps around.
\<close>

type_synonym int32 = "32 word"
type_synonym int64 = "64 word"
type_synonym duration = int64

definition time_Second :: duration where
  "time_Second = 1000000000"

text \<open>
  \<open>rand.Int64N(n)\<close> returns an unspecified value of \<open>[0, n)\<close>. The value is drawn by the
  environment as an arbitrary natural number; reducing it modulo \<open>n\<close> yields every value of the
  range and no other. (The code calls it with a positive constant only; it panics otherwise.)
\<close>

definition Int64N :: "int64 \<Rightarrow> nat \<Rightarrow> int64" where
  "Int64N n draw = word_of_nat (draw mod unat n)"

lemma unat_Int64N: "n \<noteq> 0 \<Longrightarrow> unat (Int64N n draw) = draw mod unat n"
proof -
  assume "n \<noteq> 0"
  then have "draw mod unat n < unat n" by (simp add: unat_gt_0)
  also have "unat n < 2 ^ 64" using unsigned_less [of n] by simp
  finally show ?thesis by (simp add: Int64N_def unat_of_nat)
qed

lemma unat_Int64N_less: "n \<noteq> 0 \<Longrightarrow> unat (Int64N n draw) < unat n"
  by (simp add: unat_Int64N unat_gt_0)

lemma sint_eq_unat: "unat (w :: int64) < 2 ^ 63 \<Longrightarrow> sint w = int (unat w)"
proof -
  assume "unat w < 2 ^ 63"
  then have "int (unat w) < int (2 ^ 63)" by (simp only: of_nat_less_iff)
  then have "uint w < 2 ^ 63" by simp
  moreover have "- (2 ^ 63) \<le> uint w" by (rule order_trans [OF _ uint_ge_0]) simp
  ultimately show ?thesis by (simp add: sint_uint signed_take_bit_int_eq_self)
qed

text \<open>Signed addition of a small non-negative word, as long as it does not wrap around.\<close>

lemma sint_add_small:
  fixes a b :: int64
  assumes "unat b < 2 ^ 63" and "sint a + int (unat b) < 2 ^ 63"
  shows "sint (a + b) = sint a + int (unat b)"
proof -
  have "sint b = int (unat b)" using assms(1) by (rule sint_eq_unat)
  moreover have "- (2 ^ 63) \<le> sint a + int (unat b)"
    using sint_ge [of a] of_nat_0_le_iff [of "unat b", where 'a = int] by (simp del: of_nat_unat)
  ultimately show ?thesis using assms(2)
    by (simp add: sint_word_ariths signed_take_bit_int_eq_self)
qed
section \<open>Strings\<close>

text \<open>A Go string is a sequence of bytes, here a \<open>char list\<close>: \<open>len\<close> counts bytes.\<close>

definition dq :: char where
  "dq = CHR 0x22"

definition sq :: char where
  "sq = CHR 0x27"

definition backslash :: char where
  "backslash = CHR 0x5C"

lemma quote_chars_distinct [simp]:
  "dq \<noteq> sq" "sq \<noteq> dq" "dq \<noteq> backslash" "backslash \<noteq> dq" "sq \<noteq> backslash" "backslash \<noteq> sq"
  by (simp_all add: dq_def sq_def backslash_def)

fun strings_Join :: "string list \<Rightarrow> string \<Rightarrow> string" where
  "strings_Join [] sep = []"
| "strings_Join [x] sep = x"
| "strings_Join (x # y # xs) sep = x @ sep @ strings_Join (y # xs) sep"

definition digit :: "nat \<Rightarrow> char" where
  "digit n = ''0123456789abcdef'' ! n"

fun show_nat :: "nat \<Rightarrow> string" where
  "show_nat n = (if n < 10 then [digit n] else show_nat (n div 10) @ [digit (n mod 10)])"

declare show_nat.simps [simp del]

text \<open>The verb \<open>%d\<close> on a signed integer.\<close>

definition fmt_d :: "int \<Rightarrow> string" where
  "fmt_d i = (if i < 0 then ''-'' @ show_nat (nat (- i)) else show_nat (nat i))"

definition decimal_digits :: string where
  "decimal_digits = ''0123456789''"

lemma digit_in: "n < 10 \<Longrightarrow> digit n \<in> set decimal_digits"
proof -
  assume "n < 10"
  then have "n \<in> {0, 1, 2, 3, 4, 5, 6, 7, 8, 9}" by auto
  then show ?thesis by (elim insertE) (simp_all add: digit_def decimal_digits_def)
qed

lemma show_nat_digits: "set (show_nat n) \<subseteq> set decimal_digits"
proof (induction n rule: show_nat.induct)
  case (1 n)
  show ?case
  proof (cases "n < 10")
    case True
    then show ?thesis using digit_in [of n] by (simp add: show_nat.simps [of n])
  next
    case False
    with 1 have "set (show_nat (n div 10)) \<subseteq> set decimal_digits" by blast
    with False digit_in [of "n mod 10"] show ?thesis by (simp add: show_nat.simps [of n])
  qed
qed

lemma show_nat_nonempty [simp]: "show_nat n \<noteq> []"
  by (subst show_nat.simps) simp

lemma fmt_d_nonempty [simp]: "fmt_d i \<noteq> []"
  by (simp add: fmt_d_def)

lemma fmt_d_chars: "set (fmt_d i) \<subseteq> insert (CHR ''-'') (set decimal_digits)"
  using show_nat_digits [of "nat (- i)"] show_nat_digits [of "nat i"]
  by (auto simp: fmt_d_def)

subsection \<open>The verb \<open>%q\<close>\<close>

text \<open>
  \<open>%q\<close> is \<open>strconv.Quote\<close>: it walks the string rune by rune. A byte that starts no valid UTF-8
  sequence is written as a hexadecimal escape; a printable rune is copied; the rest is escaped.
  The Unicode table \<open>strconv.IsPrint\<close> above ASCII is the parameter \<open>ip\<close>.
\<close>

definition byte :: "char \<Rightarrow> nat" where
  "byte c = of_char c"

definition in_range :: "nat \<Rightarrow> nat \<Rightarrow> nat \<Rightarrow> bool" where
  "in_range lo hi n \<longleftrightarrow> lo \<le> n \<and> n \<le> hi"

definition rune_error :: nat where
  "rune_error = 0xFFFD"

text \<open>\<open>utf8.DecodeRuneInString\<close>: the first rune and its width in bytes.\<close>

definition decode_rune :: "string \<Rightarrow> nat \<times> nat" where
  "decode_rune s = (case map byte (take 4 s) of
     [] \<Rightarrow> (rune_error, 0)
   | b0 # bs \<Rightarrow>
       (let cont = in_range 0x80 0xBF in
        if b0 < 0x80 then (b0, 1)
        else if in_range 0xC2 0xDF b0 then
          (case bs of b1 # _ \<Rightarrow> if cont b1 then ((b0 - 0xC0) * 64 + (b1 - 0x80), 2) else (rune_error, 1)
            | [] \<Rightarrow> (rune_error, 1))
        else if in_range 0xE0 0xEF b0 then
          (case bs of b1 # b2 # _ \<Rightarrow>
             if in_range (if b0 = 0xE0 then 0xA0 else 0x80) (if b0 = 0xED then 0x9F else 0xBF) b1 \<and> cont b2
             then ((b0 - 0xE0) * 4096 + (b1 - 0x80) * 64 + (b2 - 0x80), 3) else (rune_error, 1)
            | _ \<Rightarrow> (rune_error, 1))
        else if in_range 0xF0 0xF4 b0 then
          (case bs of b1 # b2 # b3 # _ \<Rightarrow>
             if in_range (if b0 = 0xF0 then 0x90 else 0x80) (if b0 = 0xF4 then 0x8F else 0xBF) b1
                \<and> cont b2 \<and> cont b3
             then ((b0 - 0xF0) * 262144 + (b1 - 0x80) * 4096 + (b2 - 0x80) * 64 + (b3 - 0x80), 4)
             else (rune_error, 1)
            | _ \<Rightarrow> (rune_error, 1))
        else (rune_error, 1)))"

fun hex :: "nat \<Rightarrow> nat \<Rightarrow> string" where
  "hex 0 n = []"
| "hex (Suc k) n = hex k (n div 16) @ [digit (n mod 16)]"

definition is_print :: "(nat \<Rightarrow> bool) \<Rightarrow> nat \<Rightarrow> bool" where
  "is_print ip r = (if r < 0x80 then in_range 0x20 0x7E r else ip r)"

definition escaped_rune :: "(nat \<Rightarrow> bool) \<Rightarrow> nat \<Rightarrow> string \<Rightarrow> string" where
  "escaped_rune ip r raw =
     (if r = byte dq \<or> r = byte backslash then backslash # raw
      else if is_print ip r then raw
      else if r = 7 then backslash # ''a''
      else if r = 8 then backslash # ''b''
      else if r = 12 then backslash # ''f''
      else if r = 10 then backslash # ''n''
      else if r = 13 then backslash # ''r''
      else if r = 9 then backslash # ''t''
      else if r = 11 then backslash # ''v''
      else if r < 0x20 \<or> r = 0x7F then backslash # ''x'' @ hex 2 r
      else if r < 0x10000 then backslash # ''u'' @ hex 4 r
      else backslash # ''U'' @ hex 8 r)"

fun quote_runes :: "(nat \<Rightarrow> bool) \<Rightarrow> string \<Rightarrow> string" where
  "quote_runes ip [] = []"
| "quote_runes ip (c # cs) =
     (case decode_rune (c # cs) of (r, w) \<Rightarrow>
        (if w = 1 \<and> r = rune_error then backslash # ''x'' @ hex 2 (byte c)
         else escaped_rune ip r (take w (c # cs)))
        @ quote_runes ip (drop (w - 1) cs))"

definition strconv_Quote :: "(nat \<Rightarrow> bool) \<Rightarrow> string \<Rightarrow> string" where
  "strconv_Quote ip s = dq # quote_runes ip s @ [dq]"

text \<open>Printable ASCII with neither quote nor backslash is quoted verbatim.\<close>

definition plain_ascii :: "char \<Rightarrow> bool" where
  "plain_ascii c \<longleftrightarrow> in_range 0x20 0x7E (byte c) \<and> c \<noteq> dq \<and> c \<noteq> backslash"

lemma quote_runes_plain: "list_all plain_ascii s \<Longrightarrow> quote_runes ip s = s"
proof (induction s)
  case (Cons c cs)
  then have "decode_rune (c # cs) = (byte c, 1)" and "byte c \<noteq> rune_error"
    and "byte c \<noteq> byte dq" and "byte c \<noteq> byte backslash"
    by (auto simp: decode_rune_def plain_ascii_def in_range_def rune_error_def byte_def)
  with Cons show ?case
    by (simp add: escaped_rune_def is_print_def plain_ascii_def in_range_def)
qed simp

lemma strconv_Quote_plain: "list_all plain_ascii s \<Longrightarrow> strconv_Quote ip s = dq # s @ [dq]"
  by (simp add: strconv_Quote_def quote_runes_plain)

end
