(* ===== verification/ApiTypes.thy ===== *)
theory ApiTypes
  imports Prelude
begin

text \<open>
  The custom resources of \<open>api/v1alpha1\<close>: the shared types of \<open>common_types.go\<close> and the four
  kinds \<open>PostgreSQL\<close>, \<open>PostgreSQLDatabase\<close>, \<open>PostgreSQLUser\<close>, \<open>PostgreSQLGrant\<close> with the
  accessors \<open>DatabaseName\<close> and \<open>RoleName\<close>. A Go struct is a record whose field names carry a
  prefix for the struct; an optional pointer is an \<open>option\<close>; the constants of a Go string type
  are strings. Of the library types \<open>metav1.ObjectMeta\<close>, \<open>metav1.Condition\<close> and
  \<open>corev1.Secret\<close> the records hold the fields the operator reads or writes.
\<close>

section \<open>Shared types (\<open>common_types.go\<close>)\<close>

type_synonym CleanupPolicy = string

definition CleanupPolicySkip :: CleanupPolicy where
  "CleanupPolicySkip = ''Skip''"

definition CleanupPolicyDelete :: CleanupPolicy where
  "CleanupPolicyDelete = ''Delete''"

record SQLTemplate =
  RequeueInterval :: "duration option"
  RetryInterval :: "duration option"
  CleanupPolicy :: CleanupPolicy

record PostgresRef =
  ref_Name :: string
  ref_Namespace :: string

record SecretKeyRef =
  skr_Name :: string
  skr_Key :: string

definition ConditionTypeReady :: string where
  "ConditionTypeReady = ''Ready''"

definition ReasonSucceeded :: string where
  "ReasonSucceeded = ''Succeeded''"

definition ReasonFailed :: string where
  "ReasonFailed = ''Failed''"

definition ReasonConnecting :: string where
  "ReasonConnecting = ''Connecting''"

definition FinalizerName :: string where
  "FinalizerName = ''db.zernico.de/finalizer''"

section \<open>Library types the resources embed\<close>

text \<open>
  \<open>metav1.Time\<close> is an opaque instant; \<open>DeletionTimestamp\<close> is a pointer to one.
  \<open>metav1.ConditionStatus\<close> is a Go string type.
\<close>

type_synonym metav1_time = int

record NamespacedName =
  nn_Namespace :: string
  nn_Name :: string

record TypeMeta =
  tm_Kind :: string
  tm_APIVersion :: string

record ObjectMeta =
  om_Name :: string
  om_Namespace :: string
  om_Generation :: int64
  om_DeletionTimestamp :: "metav1_time option"
  om_Finalizers :: "string list"

record Condition =
  cond_Type :: string
  cond_Status :: string
  cond_ObservedGeneration :: int64
  cond_LastTransitionTime :: metav1_time
  cond_Reason :: string
  cond_Message :: string

text \<open>\<open>metav1.ListMeta\<close>, and the shape of the list types, which embed it.\<close>

record ListMeta =
  lm_ResourceVersion :: string
  lm_Continue :: string
  lm_RemainingItemCount :: "int64 option"

record 'o object_list =
  list_TypeMeta :: TypeMeta
  list_ListMeta :: ListMeta
  list_Items :: "'o list"

definition ConditionTrue :: string where
  "ConditionTrue = ''True''"

definition ConditionFalse :: string where
  "ConditionFalse = ''False''"

text \<open>The field \<open>Data\<close> of a \<open>Secret\<close> maps keys to byte strings; a missing key is \<open>None\<close>.\<close>

record Secret =
  secret_Data :: "string \<rightharpoonup> string"

section \<open>\<open>PostgreSQL\<close> (\<open>postgresql_types.go\<close>)\<close>

record PostgreSQLSpec =
  pgs_Host :: string
  pgs_Port :: int32
  pgs_Database :: string
  pgs_SuperuserUsername :: string
  pgs_SuperuserSecretKeyRef :: SecretKeyRef

record PostgreSQLStatus =
  pgst_Conditions :: "Condition list"

record PostgreSQL =
  pg_TypeMeta :: TypeMeta
  pg_ObjectMeta :: ObjectMeta
  pg_Spec :: PostgreSQLSpec
  pg_Status :: PostgreSQLStatus

type_synonym PostgreSQLList = "PostgreSQL object_list"

section \<open>\<open>PostgreSQLDatabase\<close> (\<open>postgresqldatabase_types.go\<close>)\<close>

record PostgreSQLDatabaseSpec =
  dbs_SQLTemplate :: SQLTemplate
  dbs_PostgresRef :: PostgresRef
  dbs_Name :: string

record PostgreSQLDatabaseStatus =
  dbst_Conditions :: "Condition list"

record PostgreSQLDatabase =
  db_TypeMeta :: TypeMeta
  db_ObjectMeta :: ObjectMeta
  db_Spec :: PostgreSQLDatabaseSpec
  db_Status :: PostgreSQLDatabaseStatus

type_synonym PostgreSQLDatabaseList = "PostgreSQLDatabase object_list"

definition DatabaseName :: "PostgreSQLDatabase \<Rightarrow> string" where
  "DatabaseName d = (if dbs_Name (db_Spec d) \<noteq> [] then dbs_Name (db_Spec d)
                     else om_Name (db_ObjectMeta d))"

section \<open>\<open>PostgreSQLUser\<close> (\<open>postgresqluser_types.go\<close>)\<close>

record PostgreSQLUserSpec =
  us_SQLTemplate :: SQLTemplate
  us_PostgresRef :: PostgresRef
  us_Name :: string
  us_PasswordSecretKeyRef :: SecretKeyRef

record PostgreSQLUserStatus =
  ust_Conditions :: "Condition list"

record PostgreSQLUser =
  user_TypeMeta :: TypeMeta
  user_ObjectMeta :: ObjectMeta
  user_Spec :: PostgreSQLUserSpec
  user_Status :: PostgreSQLUserStatus

type_synonym PostgreSQLUserList = "PostgreSQLUser object_list"

definition RoleName :: "PostgreSQLUser \<Rightarrow> string" where
  "RoleName u = (if us_Name (user_Spec u) \<noteq> [] then us_Name (user_Spec u)
                 else om_Name (user_ObjectMeta u))"

section \<open>\<open>PostgreSQLGrant\<close> (\<open>postgresqlgrant_types.go\<close>)\<close>

record PostgreSQLGrantSpec =
  gs_SQLTemplate :: SQLTemplate
  gs_PostgresRef :: PostgresRef
  gs_Privileges :: "string list"
  gs_Database :: string
  gs_Schema :: string
  gs_Role :: string

record PostgreSQLGrantStatus =
  gst_Conditions :: "Condition list"

record PostgreSQLGrant =
  grant_TypeMeta :: TypeMeta
  grant_ObjectMeta :: ObjectMeta
  grant_Spec :: PostgreSQLGrantSpec
  grant_Status :: PostgreSQLGrantStatus

type_synonym PostgreSQLGrantList = "PostgreSQLGrant object_list"

section \<open>The pointers \<open>&obj.Status.Conditions\<close>\<close>

text \<open>
  A controller passes \<open>&obj.Status.Conditions\<close> to \<open>patchCondition\<close>, which writes through it.
  Such a pointer is the function that updates the field in place.
\<close>

definition pg_conditions :: "(Condition list \<Rightarrow> Condition list) \<Rightarrow> PostgreSQL \<Rightarrow> PostgreSQL" where
  "pg_conditions f = pg_Status_update (pgst_Conditions_update f)"

definition db_conditions ::
  "(Condition list \<Rightarrow> Condition list) \<Rightarrow> PostgreSQLDatabase \<Rightarrow> PostgreSQLDatabase" where
  "db_conditions f = db_Status_update (dbst_Conditions_update f)"

definition user_conditions ::
  "(Condition list \<Rightarrow> Condition list) \<Rightarrow> PostgreSQLUser \<Rightarrow> PostgreSQLUser" where
  "user_conditions f = user_Status_update (ust_Conditions_update f)"

definition grant_conditions ::
  "(Condition list \<Rightarrow> Condition list) \<Rightarrow> PostgreSQLGrant \<Rightarrow> PostgreSQLGrant" where
  "grant_conditions f = grant_Status_update (gst_Conditions_update f)"

lemmas conditions_defs = pg_conditions_def db_conditions_def user_conditions_def grant_conditions_def

text \<open>The objects a Kubernetes client is handed: Go's interface \<open>client.Object\<close>.\<close>

datatype client_object =
    PostgreSQL_object PostgreSQL
  | Database_object PostgreSQLDatabase
  | User_object PostgreSQLUser
  | Grant_object PostgreSQLGrant

primrec object_meta :: "client_object \<Rightarrow> ObjectMeta" where
  "object_meta (PostgreSQL_object pg) = pg_ObjectMeta pg"
| "object_meta (Database_object db) = db_ObjectMeta db"
| "object_meta (User_object u) = user_ObjectMeta u"
| "object_meta (Grant_object g) = grant_ObjectMeta g"

definition object_key :: "ObjectMeta \<Rightarrow> NamespacedName" where
  "object_key m = \<lparr>nn_Namespace = om_Namespace m, nn_Name = om_Name m\<rparr>"

primrec object_conditions :: "client_object \<Rightarrow> Condition list" where
  "object_conditions (PostgreSQL_object pg) = pgst_Conditions (pg_Status pg)"
| "object_conditions (Database_object db) = dbst_Conditions (db_Status db)"
| "object_conditions (User_object u) = ust_Conditions (user_Status u)"
| "object_conditions (Grant_object g) = gst_Conditions (grant_Status g)"

primrec update_conditions :: "(Condition list \<Rightarrow> Condition list) \<Rightarrow> client_object \<Rightarrow> client_object" where
  "update_conditions f (PostgreSQL_object pg) = PostgreSQL_object (pg_conditions f pg)"
| "update_conditions f (Database_object db) = Database_object (db_conditions f db)"
| "update_conditions f (User_object u) = User_object (user_conditions f u)"
| "update_conditions f (Grant_object g) = Grant_object (grant_conditions f g)"

datatype object_kind = PostgreSQL_kind | Database_kind | User_kind | Grant_kind | Secret_kind

primrec kind_of :: "client_object \<Rightarrow> object_kind" where
  "kind_of (PostgreSQL_object pg) = PostgreSQL_kind"
| "kind_of (Database_object db) = Database_kind"
| "kind_of (User_object u) = User_kind"
| "kind_of (Grant_object g) = Grant_kind"

end
