(* ===== verification/World.thy ===== *)
theory World
  imports ApiTypes
begin

text \<open>
  The boundary of the program: Go errors, the services the operator calls (the PostgreSQL driver
  pgx, the Kubernetes client, the helper functions of apimachinery and controller-runtime, the
  clock and the random source) and the record of the calls it makes.

  None of these services is under \<open>src/\<close>. They are the fields of a record \<open>deps\<close>, arbitrary
  functions over an arbitrary state \<open>'w\<close> of the outside world, so a theorem about the operator
  holds for every behaviour of them: every failure, every answer, every change another client
  makes between two calls. Where a property needs their documented behaviour, it is a named
  hypothesis on the record.
\<close>

section \<open>Errors\<close>

text \<open>
  An \<open>error\<close> value is one the API server or the driver returned, or one made by
  \<open>fmt.Errorf\<close>, with (\<open>Wrapped\<close>) or without (\<open>Plain\<close>) a cause. In every format of this program
  the verb \<open>%w\<close> stands at the end, after a prefix ending in a colon and a space.
\<close>

datatype gerror =
    StatusError string string   \<comment> \<open>reason and text of an API server status\<close>
  | DriverError string
  | Plain string
  | Wrapped string gerror

fun Error :: "gerror \<Rightarrow> string" where
  "Error (StatusError reason text) = text"
| "Error (DriverError text) = text"
| "Error (Plain text) = text"
| "Error (Wrapped prefix cause) = prefix @ Error cause"

section \<open>The services\<close>

type_synonym pgx_conn = nat

record 'w deps =
  pgx_Sanitize :: "string list \<Rightarrow> string"
  pgx_Connect :: "string \<Rightarrow> 'w \<Rightarrow> (gerror + pgx_conn) \<times> 'w"
  pgx_Close :: "pgx_conn \<Rightarrow> 'w \<Rightarrow> gerror option \<times> 'w"
  pgx_Ping :: "pgx_conn \<Rightarrow> 'w \<Rightarrow> gerror option \<times> 'w"
  pgx_QueryRow :: "pgx_conn \<Rightarrow> string \<Rightarrow> string \<Rightarrow> 'w \<Rightarrow> (gerror + bool) \<times> 'w"
  pgx_Exec :: "pgx_conn \<Rightarrow> string \<Rightarrow> 'w \<Rightarrow> gerror option \<times> 'w"
  k8s_Get_PostgreSQL :: "NamespacedName \<Rightarrow> 'w \<Rightarrow> (gerror + PostgreSQL) \<times> 'w"
  k8s_Get_Database :: "NamespacedName \<Rightarrow> 'w \<Rightarrow> (gerror + PostgreSQLDatabase) \<times> 'w"
  k8s_Get_User :: "NamespacedName \<Rightarrow> 'w \<Rightarrow> (gerror + PostgreSQLUser) \<times> 'w"
  k8s_Get_Grant :: "NamespacedName \<Rightarrow> 'w \<Rightarrow> (gerror + PostgreSQLGrant) \<times> 'w"
  k8s_Get_Secret :: "NamespacedName \<Rightarrow> 'w \<Rightarrow> (gerror + Secret) \<times> 'w"
  k8s_Update_Database :: "PostgreSQLDatabase \<Rightarrow> 'w \<Rightarrow> (gerror + PostgreSQLDatabase) \<times> 'w"
  k8s_Update_User :: "PostgreSQLUser \<Rightarrow> 'w \<Rightarrow> (gerror + PostgreSQLUser) \<times> 'w"
  k8s_Update_Grant :: "PostgreSQLGrant \<Rightarrow> 'w \<Rightarrow> (gerror + PostgreSQLGrant) \<times> 'w"
  k8s_Status_Patch :: "client_object \<Rightarrow> client_object \<Rightarrow> 'w \<Rightarrow> gerror option \<times> 'w"
  metav1_Now :: "'w \<Rightarrow> metav1_time \<times> 'w"
  rand_draw :: "'w \<Rightarrow> nat \<times> 'w"
  Time_IsZero :: "metav1_time option \<Rightarrow> bool"
  IsNotFound :: "gerror \<Rightarrow> bool"
  ContainsFinalizer :: "ObjectMeta \<Rightarrow> string \<Rightarrow> bool"
  AddFinalizer :: "ObjectMeta \<Rightarrow> string \<Rightarrow> ObjectMeta"
  RemoveFinalizer :: "ObjectMeta \<Rightarrow> string \<Rightarrow> ObjectMeta"
  SetStatusCondition :: "Condition list \<Rightarrow> Condition \<Rightarrow> Condition list"
  unicode_IsPrint :: "nat \<Rightarrow> bool"

text \<open>The verb \<open>%q\<close> on a string.\<close>

definition fmt_q :: "'w deps \<Rightarrow> string \<Rightarrow> string" where
  "fmt_q d s = strconv_Quote (unicode_IsPrint d) s"

section \<open>The state and the record of calls\<close>

text \<open>
  The operator keeps no state of its own between two reconciliations: everything it changes is
  in the outside world. The second component of the state is a ghost: the calls made so far with
  their results, oldest first: what a read fetched, and the object an update returned, as the API server
  stores it. The theorems about order and completeness of the calls are about it.
\<close>

datatype fetched =
    Fetched_object client_object
  | Fetched_Secret Secret

datatype event =
    EvConnect string "gerror + pgx_conn"
  | EvClose pgx_conn "gerror option"
  | EvPing pgx_conn "gerror option"
  | EvQuery pgx_conn string string "gerror + bool"
  | EvExec pgx_conn string "gerror option"
  | EvGet object_kind NamespacedName "gerror + fetched"
  | EvUpdate client_object "gerror + client_object"
  | EvPatch client_object client_object "gerror option"

record 'w world =
  ext :: 'w
  trace :: "event list"

definition logged :: "('w \<Rightarrow> 'a \<times> 'w) \<Rightarrow> ('a \<Rightarrow> event) \<Rightarrow> 'w world \<Rightarrow> 'a \<times> 'w world" where
  "logged f ev s = (case f (ext s) of (r, w) \<Rightarrow> (r, s\<lparr>ext := w, trace := trace s @ [ev r]\<rparr>))"

definition silent :: "('w \<Rightarrow> 'a \<times> 'w) \<Rightarrow> 'w world \<Rightarrow> 'a \<times> 'w world" where
  "silent f s = (case f (ext s) of (r, w) \<Rightarrow> (r, s\<lparr>ext := w\<rparr>))"

text \<open>The two parts of a result: its error, and its value seen as a value of another type.\<close>

abbreviation map_Inr :: "('a \<Rightarrow> 'b) \<Rightarrow> gerror + 'a \<Rightarrow> gerror + 'b" where
  "map_Inr f \<equiv> map_sum (\<lambda>e. e) f"

definition left_of :: "gerror + 'a \<Rightarrow> gerror option" where
  "left_of r = (case r of Inl e \<Rightarrow> Some e | Inr _ \<Rightarrow> None)"

lemma left_of_simps [simp]: "left_of (Inl e) = Some e" "left_of (Inr x) = None"
  by (simp_all add: left_of_def)

lemma left_of_eq [simp]:
  "left_of r = None \<longleftrightarrow> (\<exists>x. r = Inr x)" "left_of r = Some e \<longleftrightarrow> r = Inl e"
  by (cases r; simp)+

subsection \<open>Driver calls\<close>

definition conn_Connect :: "'w deps \<Rightarrow> string \<Rightarrow> 'w world \<Rightarrow> (gerror + pgx_conn) \<times> 'w world" where
  "conn_Connect d dsn = logged (pgx_Connect d dsn) (EvConnect dsn)"

definition conn_Close :: "'w deps \<Rightarrow> pgx_conn \<Rightarrow> 'w world \<Rightarrow> gerror option \<times> 'w world" where
  "conn_Close d c = logged (pgx_Close d c) (EvClose c)"

definition conn_Ping :: "'w deps \<Rightarrow> pgx_conn \<Rightarrow> 'w world \<Rightarrow> gerror option \<times> 'w world" where
  "conn_Ping d c = logged (pgx_Ping d c) (EvPing c)"

definition conn_QueryRow ::
  "'w deps \<Rightarrow> pgx_conn \<Rightarrow> string \<Rightarrow> string \<Rightarrow> 'w world \<Rightarrow> (gerror + bool) \<times> 'w world" where
  "conn_QueryRow d c q arg = logged (pgx_QueryRow d c q arg) (EvQuery c q arg)"

definition conn_Exec :: "'w deps \<Rightarrow> pgx_conn \<Rightarrow> string \<Rightarrow> 'w world \<Rightarrow> gerror option \<times> 'w world" where
  "conn_Exec d c q = logged (pgx_Exec d c q) (EvExec c q)"

subsection \<open>Kubernetes client calls\<close>

definition Get_PostgreSQL where
  "Get_PostgreSQL d key = logged (k8s_Get_PostgreSQL d key)
    (\<lambda>r. EvGet PostgreSQL_kind key (map_Inr (\<lambda>x. Fetched_object (PostgreSQL_object x)) r))"

definition Get_Database where
  "Get_Database d key = logged (k8s_Get_Database d key)
    (\<lambda>r. EvGet Database_kind key (map_Inr (\<lambda>x. Fetched_object (Database_object x)) r))"

definition Get_User where
  "Get_User d key = logged (k8s_Get_User d key)
    (\<lambda>r. EvGet User_kind key (map_Inr (\<lambda>x. Fetched_object (User_object x)) r))"

definition Get_Grant where
  "Get_Grant d key = logged (k8s_Get_Grant d key)
    (\<lambda>r. EvGet Grant_kind key (map_Inr (\<lambda>x. Fetched_object (Grant_object x)) r))"

definition Get_Secret where
  "Get_Secret d key = logged (k8s_Get_Secret d key)
    (\<lambda>r. EvGet Secret_kind key (map_Inr Fetched_Secret r))"

definition Update_Database where
  "Update_Database d db = logged (k8s_Update_Database d db)
    (\<lambda>r. EvUpdate (Database_object db) (map_Inr Database_object r))"

definition Update_User where
  "Update_User d u = logged (k8s_Update_User d u)
    (\<lambda>r. EvUpdate (User_object u) (map_Inr User_object r))"

definition Update_Grant where
  "Update_Grant d g = logged (k8s_Update_Grant d g)
    (\<lambda>r. EvUpdate (Grant_object g) (map_Inr Grant_object r))"

definition Status_Patch ::
  "'w deps \<Rightarrow> client_object \<Rightarrow> client_object \<Rightarrow> 'w world \<Rightarrow> gerror option \<times> 'w world" where
  "Status_Patch d orig obj = logged (k8s_Status_Patch d orig obj) (EvPatch orig obj)"

lemmas call_defs = conn_Connect_def conn_Close_def conn_Ping_def conn_QueryRow_def conn_Exec_def
  Get_PostgreSQL_def Get_Database_def Get_User_def Get_Grant_def Get_Secret_def
  Update_Database_def Update_User_def Update_Grant_def Status_Patch_def logged_def silent_def

section \<open>Which events a call appends\<close>

text \<open>
  \<open>emits s s' evs\<close>: the calls made between the two states are \<open>evs\<close>. Each primitive call has
  one rule; \<open>emits_trans\<close> composes them.
\<close>

definition emits :: "'w world \<Rightarrow> 'w world \<Rightarrow> event list \<Rightarrow> bool" where
  "emits s s' evs \<longleftrightarrow> trace s' = trace s @ evs"

definition emitted :: "'w world \<Rightarrow> 'w world \<Rightarrow> event list" where
  "emitted s s' = drop (length (trace s)) (trace s')"

lemma emits_refl [emits_intro]: "emits s s []"
  by (simp add: emits_def)

lemma emits_trans: "emits s s' a \<Longrightarrow> emits s' s'' b \<Longrightarrow> emits s s'' (a @ b)"
  by (simp add: emits_def)

lemma emits_emitted: "emits s s' evs \<Longrightarrow> emitted s s' = evs"
  by (simp add: emits_def emitted_def)

lemma emits_unique: "emits s s' a \<Longrightarrow> emits s s' b \<Longrightarrow> a = b"
  by (simp add: emits_def)

lemma emits_logged: "logged f ev s = (r, s') \<Longrightarrow> emits s s' [ev r]"
  by (auto simp: logged_def emits_def split: prod.splits)

lemma emits_silent [emits_intro]: "silent f s = (r, s') \<Longrightarrow> emits s s' []"
  by (auto simp: silent_def emits_def split: prod.splits)

lemma emits_calls [emits_intro]:
  "conn_Connect d dsn s = (rc, s') \<Longrightarrow> emits s s' [EvConnect dsn rc]"
  "conn_Close d c s = (re, s') \<Longrightarrow> emits s s' [EvClose c re]"
  "conn_Ping d c s = (re, s') \<Longrightarrow> emits s s' [EvPing c re]"
  "conn_QueryRow d c q arg s = (rb, s') \<Longrightarrow> emits s s' [EvQuery c q arg rb]"
  "conn_Exec d c q s = (re, s') \<Longrightarrow> emits s s' [EvExec c q re]"
  "Get_PostgreSQL d key s = (rpg, s') \<Longrightarrow>
    emits s s' [EvGet PostgreSQL_kind key (map_Inr (\<lambda>x. Fetched_object (PostgreSQL_object x)) rpg)]"
  "Get_Database d key s = (rdb, s') \<Longrightarrow>
    emits s s' [EvGet Database_kind key (map_Inr (\<lambda>x. Fetched_object (Database_object x)) rdb)]"
  "Get_User d key s = (ru, s') \<Longrightarrow>
    emits s s' [EvGet User_kind key (map_Inr (\<lambda>x. Fetched_object (User_object x)) ru)]"
  "Get_Grant d key s = (rg, s') \<Longrightarrow>
    emits s s' [EvGet Grant_kind key (map_Inr (\<lambda>x. Fetched_object (Grant_object x)) rg)]"
  "Get_Secret d key s = (rs, s') \<Longrightarrow>
    emits s s' [EvGet Secret_kind key (map_Inr Fetched_Secret rs)]"
  "Update_Database d db s = (rdb, s') \<Longrightarrow>
    emits s s' [EvUpdate (Database_object db) (map_Inr Database_object rdb)]"
  "Update_User d u s = (ru, s') \<Longrightarrow>
    emits s s' [EvUpdate (User_object u) (map_Inr User_object ru)]"
  "Update_Grant d g s = (rg, s') \<Longrightarrow>
    emits s s' [EvUpdate (Grant_object g) (map_Inr Grant_object rg)]"
  "Status_Patch d orig obj s = (re, s') \<Longrightarrow> emits s s' [EvPatch orig obj re]"
  by (simp_all add: conn_Connect_def conn_Close_def conn_Ping_def conn_QueryRow_def conn_Exec_def
    Get_PostgreSQL_def Get_Database_def Get_User_def Get_Grant_def Get_Secret_def
    Update_Database_def Update_User_def Update_Grant_def Status_Patch_def)
    (drule emits_logged, simp)+

section \<open>Classes of events\<close>

fun reads_secret :: "event \<Rightarrow> bool" where
  "reads_secret (EvGet k key e) = (k = Secret_kind)"
| "reads_secret _ = False"

fun is_update :: "event \<Rightarrow> bool" where
  "is_update (EvUpdate ob e) = True"
| "is_update _ = False"

fun is_patch :: "event \<Rightarrow> bool" where
  "is_patch (EvPatch orig ob e) = True"
| "is_patch _ = False"

text \<open>Statements and queries on the connection \<open>c\<close>.\<close>

fun sql_on :: "pgx_conn \<Rightarrow> event \<Rightarrow> bool" where
  "sql_on c (EvQuery c' q arg r) = (c' = c)"
| "sql_on c (EvExec c' q r) = (c' = c)"
| "sql_on c _ = False"

text \<open>
  The calls a request makes after it has read its object of kind \<open>k\<close> and before it writes: no other
  object of the kind is read, nothing is written, and no connection is closed.
\<close>

fun since_read :: "object_kind \<Rightarrow> event \<Rightarrow> bool" where
  "since_read k (EvGet k' key f) = (k' \<noteq> k)"
| "since_read k (EvUpdate ob e) = False"
| "since_read k (EvPatch orig ob e) = False"
| "since_read k (EvClose c e) = False"
| "since_read k _ = True"

lemma since_read_sql: "list_all (\<lambda>e. sql_on c e \<or> reads_secret e) es \<Longrightarrow> k \<noteq> Secret_kind \<Longrightarrow> list_all (since_read k) es"
  by (induction es) (auto elim: sql_on.elims reads_secret.elims)

text \<open>Any traffic with the PostgreSQL server.\<close>

fun is_pg :: "event \<Rightarrow> bool" where
  "is_pg (EvConnect dsn r) = True"
| "is_pg (EvClose c r) = True"
| "is_pg (EvPing c r) = True"
| "is_pg (EvQuery c q arg r) = True"
| "is_pg (EvExec c q r) = True"
| "is_pg _ = False"

text \<open>
  Connection discipline: a checker that replays the events with the list of open connections.
  It fails when a connection that is not open is used or closed.
\<close>

fun conn_step :: "pgx_conn list \<Rightarrow> event \<Rightarrow> pgx_conn list option" where
  "conn_step os (EvConnect dsn r) = (case r of Inl e \<Rightarrow> Some os | Inr c \<Rightarrow> Some (c # os))"
| "conn_step os (EvClose c r) = (if c \<in> set os then Some (remove1 c os) else None)"
| "conn_step os (EvPing c r) = (if c \<in> set os then Some os else None)"
| "conn_step os (EvQuery c q arg r) = (if c \<in> set os then Some os else None)"
| "conn_step os (EvExec c q r) = (if c \<in> set os then Some os else None)"
| "conn_step os _ = Some os"

fun conn_run :: "pgx_conn list \<Rightarrow> event list \<Rightarrow> pgx_conn list option" where
  "conn_run os [] = Some os"
| "conn_run os (e # es) = (case conn_step os e of None \<Rightarrow> None | Some os' \<Rightarrow> conn_run os' es)"

lemma conn_run_append:
  "conn_run os (a @ b) = (case conn_run os a of None \<Rightarrow> None | Some os' \<Rightarrow> conn_run os' b)"
  by (induction os a rule: conn_run.induct) (auto split: option.splits)

lemma conn_step_offline: "\<not> is_pg e \<Longrightarrow> conn_step os e = Some os"
  by (cases e) auto

lemma conn_run_offline: "list_all (\<lambda>e. \<not> is_pg e) es \<Longrightarrow> conn_run os es = Some os"
  by (induction es) (auto simp: conn_step_offline)

lemma conn_run_sql: "list_all (\<lambda>e. sql_on c e \<or> reads_secret e) es \<Longrightarrow> c \<in> set os \<Longrightarrow> conn_run os es = Some os"
proof (induction es)
  case (Cons e es)
  then show ?case by (cases e) auto
qed simp

lemma reads_secret_not_pg: "reads_secret e \<Longrightarrow> \<not> is_pg e"
  by (cases e) auto

end
