(* ===== verification/SqlText.thy ===== *)
theory SqlText
  imports World
begin

text \<open>
  The SQL texts of \<open>internal/sql\<close>: the literal quoting of \<open>user.go\<close> (\<open>quoteLiteral\<close>,
  \<open>escapeString\<close>), and, as the reference it is judged against, the lexical rules PostgreSQL
  documents for the fragment of SQL these texts use (chapter "Lexical Structure"): words and numbers, quoted
  identifiers, string constants with \<open>standard_conforming_strings\<close> on or off, line comments, and other
  characters as symbols, one by one. The reference lexer answers \<open>None\<close> where a text uses a rule outside
  the fragment, and where it holds the character with code zero, which no constant and no identifier
  can contain and no text sent to a server holds.
\<close>

section \<open>Literal quoting\<close>

text \<open>The loop of \<open>escapeString\<close>, with its accumulator \<open>result\<close>.\<close>

fun escape_loop :: "string \<Rightarrow> string \<Rightarrow> string" where
  "escape_loop [] result = result"
| "escape_loop (c # s) result =
     escape_loop s (if c = sq then result @ [sq, sq]
                    else if c = backslash then result @ [backslash, backslash]
                    else result @ [c])"

definition escapeString :: "string \<Rightarrow> string" where
  "escapeString s = escape_loop s []"

definition quoteLiteral :: "string \<Rightarrow> string" where
  "quoteLiteral s = [sq] @ escapeString s @ [sq]"

definition escape_char :: "char \<Rightarrow> string" where
  "escape_char c = (if c = sq \<or> c = backslash then [c, c] else [c])"

lemma escape_loop_eq: "escape_loop s result = result @ concat (map escape_char s)"
  by (induction s result rule: escape_loop.induct) (auto simp: escape_char_def)

lemma escapeString_eq: "escapeString s = concat (map escape_char s)"
  by (simp add: escapeString_def escape_loop_eq)

lemma escapeString_simps [simp]:
  "escapeString [] = []"
  "escapeString (c # s) = escape_char c @ escapeString s"
  by (simp_all add: escapeString_eq)

section \<open>Reference lexer\<close>

definition cons_char :: "char \<Rightarrow> (string \<times> string) option \<Rightarrow> (string \<times> string) option" where
  "cons_char c = map_option (\<lambda>(v, rest). (c # v, rest))"

lemma cons_char_simps [simp]:
  "cons_char c None = None"
  "cons_char c (Some (v, rest)) = Some (c # v, rest)"
  "cons_char c r = Some x \<longleftrightarrow> (\<exists>v rest. r = Some (v, rest) \<and> x = (c # v, rest))"
  by (auto simp: cons_char_def)

text \<open>A text without the character with code zero.\<close>

definition nul_free :: "string \<Rightarrow> bool" where
  "nul_free n \<longleftrightarrow> CHR 0x00 \<notin> set n"

lemma nul_free_simps [simp]:
  "nul_free []" "nul_free (c # s) \<longleftrightarrow> c \<noteq> CHR 0x00 \<and> nul_free s" "nul_free (s @ t) \<longleftrightarrow> nul_free s \<and> nul_free t"
  by (auto simp: nul_free_def)

text \<open>
  A string constant after its opening quote: its value and the text behind it. Two quotes stand
  for one. With \<open>std\<close> (the server's default) a backslash stands for itself; without, it escapes
  the next character, here covered for a backslash and a quote.
\<close>

fun lex_string :: "bool \<Rightarrow> string \<Rightarrow> (string \<times> string) option" where
  "lex_string std [] = None"
| "lex_string std [c] = (if c = sq then Some ([], []) else None)"
| "lex_string std (c # c' # cs) =
     (if c = sq then (if c' = sq then cons_char sq (lex_string std cs) else Some ([], c' # cs))
      else if c = backslash \<and> \<not> std then
        (if c' = backslash \<or> c' = sq then cons_char c' (lex_string std cs) else None)
      else if c = CHR 0x00 then None
      else cons_char c (lex_string std (c' # cs)))"

text \<open>A quoted identifier after its opening double quote.\<close>

fun lex_ident :: "string \<Rightarrow> (string \<times> string) option" where
  "lex_ident [] = None"
| "lex_ident [c] = (if c = dq then Some ([], []) else None)"
| "lex_ident (c # c' # cs) =
     (if c = dq then (if c' = dq then cons_char dq (lex_ident cs) else Some ([], c' # cs))
      else if c = CHR 0x00 then None
      else cons_char c (lex_ident (c' # cs)))"

lemma lex_string_length: "lex_string std s = Some (v, rest) \<Longrightarrow> length rest < length s"
  by (induction std s arbitrary: v rule: lex_string.induct) (fastforce split: if_splits)+

lemma lex_ident_length: "lex_ident s = Some (v, rest) \<Longrightarrow> length rest < length s"
  by (induction s arbitrary: v rule: lex_ident.induct) (fastforce split: if_splits)+

datatype token = Word string | QuotedIdent string | StringConst string | Symbol char

definition is_space :: "char \<Rightarrow> bool" where
  "is_space c \<longleftrightarrow> byte c \<in> {9, 10, 11, 12, 13, 32}"

definition is_word_char :: "char \<Rightarrow> bool" where
  "is_word_char c \<longleftrightarrow> in_range 48 57 (byte c) \<or> in_range 65 90 (byte c) \<or> in_range 97 122 (byte c)
     \<or> byte c = 95 \<or> in_range 128 255 (byte c)"

definition starts_with :: "(char \<Rightarrow> bool) \<Rightarrow> string \<Rightarrow> bool" where
  "starts_with p s = (case s of [] \<Rightarrow> False | c # _ \<Rightarrow> p c)"

lemma starts_with_simps [simp]: "starts_with p [] = False" "starts_with p (c # s) = p c"
  by (simp_all add: starts_with_def)

text \<open>
  One step: skip a blank or a comment (no token), or read a token. A dollar sign (dollar quoting,
  parameters), a block comment and a word glued to a string constant (\<open>E'..'\<close>, \<open>U&'..'\<close>) are
  outside the fragment.
\<close>

fun next_token :: "bool \<Rightarrow> string \<Rightarrow> (token option \<times> string) option" where
  "next_token std [] = None"
| "next_token std (c # cs) =
     (if is_space c then Some (None, cs)
      else if c = sq then map_option (\<lambda>(v, r). (Some (StringConst v), r)) (lex_string std cs)
      else if c = dq then map_option (\<lambda>(v, r). (Some (QuotedIdent v), r)) (lex_ident cs)
      else if is_word_char c then
        (let r = dropWhile is_word_char cs in
         if starts_with (\<lambda>x. x = sq \<or> x = CHR ''&'' \<or> x = CHR ''$'') r then None
         else Some (Some (Word (c # takeWhile is_word_char cs)), r))
      else if c = CHR ''-'' \<and> starts_with (\<lambda>x. x = CHR ''-'') cs then
        (if nul_free (takeWhile (\<lambda>x. x \<noteq> CHR 0x0A) cs) then Some (None, dropWhile (\<lambda>x. x \<noteq> CHR 0x0A) cs) else None)
      else if c = CHR 0x00 \<or> c = CHR ''$'' \<or> c = CHR ''/'' \<and> starts_with (\<lambda>x. x = CHR ''*'') cs then None
      else Some (Some (Symbol c), cs))"

lemma next_token_length: "next_token std s = Some (t, rest) \<Longrightarrow> length rest < length s"
proof (cases s)
  case (Cons c cs)
  assume "next_token std s = Some (t, rest)"
  moreover have "length (dropWhile p cs) \<le> length cs" for p
    by (rule length_dropWhile_le)
  ultimately show ?thesis unfolding Cons
    by (auto simp: Let_def less_Suc_eq_le split: if_splits dest: lex_string_length lex_ident_length)
qed simp

definition cons_token :: "token option \<Rightarrow> token list \<Rightarrow> token list" where
  "cons_token t ts = (case t of None \<Rightarrow> ts | Some x \<Rightarrow> x # ts)"

function sql_tokens :: "bool \<Rightarrow> string \<Rightarrow> token list option" where
  "sql_tokens std s =
     (if s = [] then Some []
      else (case next_token std s of
              None \<Rightarrow> None
            | Some (t, rest) \<Rightarrow> map_option (cons_token t) (sql_tokens std rest)))"
  by pat_completeness auto
termination
  by (relation "measure (\<lambda>(std, s). length s)") (auto dest: next_token_length)

declare sql_tokens.simps [simp del] next_token.simps [simp del]

lemma sql_tokens_Nil [simp]: "sql_tokens std [] = Some []"
  by (simp add: sql_tokens.simps)

lemma sql_tokens_step:
  "next_token std s = Some (t, rest) \<Longrightarrow>
   sql_tokens std s = map_option (cons_token t) (sql_tokens std rest)"
  by (cases "s = []") (simp_all add: sql_tokens.simps [of std s] next_token.simps(1))

text \<open>A text that is read holds no character with code zero.\<close>

lemma lex_nul:
  "lex_string std s = Some (v, rest) \<Longrightarrow> \<exists>u. s = u @ rest \<and> nul_free u"
  "lex_ident s = Some (w, rest) \<Longrightarrow> \<exists>u. s = u @ rest \<and> nul_free u"
proof -
  show "lex_string std s = Some (v, rest) \<Longrightarrow> \<exists>u. s = u @ rest \<and> nul_free u"
  proof (induction std s arbitrary: v rule: lex_string.induct)
    case (2 std c)
    then show ?case by (intro exI [of _ "[c]"]) (auto simp: sq_def split: if_splits)
  next
    case (3 std c c' cs)
    note ne = sq_def backslash_def
    consider (two) w where "lex_string std cs = Some (w, rest)" "c \<noteq> CHR 0x00" "c' \<noteq> CHR 0x00"
        "\<exists>u. cs = u @ rest \<and> nul_free u"
      | (over) "rest = c' # cs" "c \<noteq> CHR 0x00"
      | (one) "c \<noteq> CHR 0x00" "\<exists>u. c' # cs = u @ rest \<and> nul_free u"
      using 3 by (auto simp: ne split: if_splits)
    then show ?case
    proof cases
      case two
      then obtain u where "cs = u @ rest" "nul_free u" by blast
      with two show ?thesis by (intro exI [of _ "c # c' # u"]) simp
    next
      case over
      then show ?thesis by (intro exI [of _ "[c]"]) simp
    next
      case one
      then obtain u where "c' # cs = u @ rest" "nul_free u" by blast
      with one show ?thesis by (intro exI [of _ "c # u"]) simp
    qed
  qed simp
  show "lex_ident s = Some (w, rest) \<Longrightarrow> \<exists>u. s = u @ rest \<and> nul_free u"
  proof (induction s arbitrary: w rule: lex_ident.induct)
    case (2 c)
    then show ?case by (intro exI [of _ "[c]"]) (auto simp: dq_def split: if_splits)
  next
    case (3 c c' cs)
    consider (two) "c \<noteq> CHR 0x00" "c' \<noteq> CHR 0x00" "\<exists>u. cs = u @ rest \<and> nul_free u"
      | (over) "rest = c' # cs" "c \<noteq> CHR 0x00"
      | (one) "c \<noteq> CHR 0x00" "\<exists>u. c' # cs = u @ rest \<and> nul_free u"
      using 3 by (auto simp: dq_def split: if_splits)
    then show ?case
    proof cases
      case two
      then obtain u where "cs = u @ rest" "nul_free u" by blast
      with two show ?thesis by (intro exI [of _ "c # c' # u"]) simp
    next
      case over
      then show ?thesis by (intro exI [of _ "[c]"]) simp
    next
      case one
      then obtain u where "c' # cs = u @ rest" "nul_free u" by blast
      with one show ?thesis by (intro exI [of _ "c # u"]) simp
    qed
  qed simp
qed

lemma next_token_nul:
  assumes "next_token std s = Some (t, rest)" "nul_free rest"
  shows "nul_free s"
proof (cases s)
  case (Cons c cs)
  have w: "nul_free (takeWhile is_word_char cs)"
    by (auto simp: nul_free_def is_word_char_def in_range_def byte_def dest!: set_takeWhileD)
  have split: "nul_free cs" if "nul_free (takeWhile p cs)" "nul_free (dropWhile p cs)" for p
    using that by (metis nul_free_simps(3) takeWhile_dropWhile_id)
  have nz: "c \<noteq> CHR 0x00" if "is_space c \<or> is_word_char c \<or> c = sq \<or> c = dq"
    using that by (auto simp: is_space_def is_word_char_def in_range_def byte_def sq_def dq_def)
  note step = assms(1) [unfolded Cons next_token.simps Let_def]
  consider (blank) "is_space c" | (const) "\<not> is_space c" "c = sq" | (name) "\<not> is_space c" "c \<noteq> sq" "c = dq"
    | (word) "\<not> is_space c" "c \<noteq> sq" "c \<noteq> dq" "is_word_char c"
    | (line) "\<not> is_space c" "c \<noteq> sq" "c \<noteq> dq" "\<not> is_word_char c" "c = CHR ''-'' \<and> starts_with (\<lambda>x. x = CHR ''-'') cs"
    | (symbol) "\<not> is_space c" "c \<noteq> sq" "c \<noteq> dq" "\<not> is_word_char c" "\<not> (c = CHR ''-'' \<and> starts_with (\<lambda>x. x = CHR ''-'') cs)"
    by blast
  then show ?thesis
  proof cases
    case blank
    with step nz assms(2) show ?thesis unfolding Cons by simp
  next
    case const
    with step obtain v where "lex_string std cs = Some (v, rest)" by auto
    with lex_nul(1) const nz assms(2) show ?thesis unfolding Cons by fastforce
  next
    case name
    with step obtain v where "lex_ident cs = Some (v, rest)" by auto
    with lex_nul(2) name nz assms(2) show ?thesis unfolding Cons by fastforce
  next
    case word
    with step have "rest = dropWhile is_word_char cs" by (simp split: if_splits)
    with split [OF w] word nz assms(2) show ?thesis unfolding Cons by simp
  next
    case line
    with step have "nul_free (takeWhile (\<lambda>x. x \<noteq> CHR 0x0A) cs)" "rest = dropWhile (\<lambda>x. x \<noteq> CHR 0x0A) cs"
      by (simp_all split: if_splits)
    with split assms(2) line show ?thesis unfolding Cons by simp
  next
    case symbol
    with step have "c \<noteq> CHR 0x00" "rest = cs" by (simp_all only: if_False if_True split: if_splits) auto
    with assms(2) show ?thesis unfolding Cons by simp
  qed
qed simp

lemma sql_tokens_nul: "sql_tokens std s = Some ts \<Longrightarrow> nul_free s"
proof (induction std s arbitrary: ts rule: sql_tokens.induct)
  case (1 std s)
  show ?case
  proof (cases "s = []")
    case False
    with 1(2) obtain t rest us where "next_token std s = Some (t, rest)" "sql_tokens std rest = Some us"
      by (auto simp: sql_tokens.simps [of std s] split: option.splits)
    with 1(1) [OF False, of "(t, rest)"] next_token_nul show ?thesis by blast
  qed simp
qed

text \<open>
  The rules by which a statement made of constant text, identifiers and literals is read. The
  constant text of a statement ends in a blank before each inserted part.
\<close>

definition lexes_to :: "bool \<Rightarrow> string \<Rightarrow> token list \<Rightarrow> bool" where
  "lexes_to std s ts \<longleftrightarrow> sql_tokens std s = Some ts"

lemma lexes_nul: "lexes_to std s ts \<Longrightarrow> nul_free s"
  by (simp add: lexes_to_def sql_tokens_nul)

lemma lexes_Nil: "lexes_to std [] []"
  by (simp add: lexes_to_def)

lemma lexes_space: "lexes_to std s ts \<Longrightarrow> lexes_to std (CHR '' '' # s) ts"
  by (simp add: lexes_to_def sql_tokens_step [where t = None and rest = s] next_token.simps
    is_space_def byte_def cons_token_def)

lemma word_char_props:
  "is_word_char c \<Longrightarrow> \<not> is_space c \<and> c \<noteq> sq \<and> c \<noteq> dq"
  by (auto simp: is_word_char_def is_space_def in_range_def byte_def sq_def dq_def)

definition word_end :: "string \<Rightarrow> bool" where
  "word_end s \<longleftrightarrow> s = [] \<or> is_space (hd s) \<or> hd s = CHR '';'' \<or> hd s = CHR '',''"

lemma word_end_props:
  assumes "word_end s"
  shows "takeWhile is_word_char s = []" "dropWhile is_word_char s = s"
    "\<not> starts_with (\<lambda>x. x = sq \<or> x = CHR ''&'' \<or> x = CHR ''$'') s"
  using assms
  by (cases s; auto simp: word_end_def is_word_char_def is_space_def in_range_def byte_def sq_def)+

lemma lexes_word:
  assumes "w \<noteq> []" "list_all is_word_char w" "word_end s" "lexes_to std s ts"
  shows "lexes_to std (w @ s) (Word w # ts)"
proof -
  obtain c cs where w: "w = c # cs" using assms(1) by (cases w) auto
  have c: "is_word_char c" and cs: "\<And>x. x \<in> set cs \<Longrightarrow> is_word_char x"
    using assms(2) w by (auto simp: list_all_iff)
  have "next_token std (w @ s) = Some (Some (Word w), s)"
    using c cs word_char_props [OF c] word_end_props [OF assms(3)]
    by (simp add: w next_token.simps takeWhile_append2 dropWhile_append2)
  from sql_tokens_step [OF this] assms(4) show ?thesis
    by (simp add: lexes_to_def cons_token_def)
qed

lemma lexes_quoted:
  assumes "lex_ident s = Some (v, r)" "lexes_to std r ts"
  shows "lexes_to std (dq # s) (QuotedIdent v # ts)"
proof -
  have "next_token std (dq # s) = Some (Some (QuotedIdent v), r)"
    using assms(1) by (simp add: next_token.simps is_space_def byte_def dq_def sq_def)
  from sql_tokens_step [OF this] assms(2) show ?thesis
    by (simp add: lexes_to_def cons_token_def)
qed

lemma lexes_literal:
  assumes "lex_string std s = Some (v, r)" "lexes_to std r ts"
  shows "lexes_to std (sq # s) (StringConst v # ts)"
proof -
  have "next_token std (sq # s) = Some (Some (StringConst v), r)"
    using assms(1) by (simp add: next_token.simps is_space_def byte_def sq_def)
  from sql_tokens_step [OF this] assms(2) show ?thesis
    by (simp add: lexes_to_def cons_token_def)
qed

section \<open>What a quoted literal denotes\<close>

text \<open>
  The value the server stores for \<open>quoteLiteral s\<close>: without standard-conforming strings it is
  \<open>s\<close>; with them (the default since PostgreSQL 9.1) every backslash of \<open>s\<close> arrives twice.
\<close>

definition stored_value :: "bool \<Rightarrow> string \<Rightarrow> string" where
  "stored_value std s =
     (if std then concat (map (\<lambda>c. if c = backslash then [c, c] else [c]) s) else s)"

lemma stored_value_simps [simp]:
  "stored_value std [] = []"
  "stored_value std (c # s) =
     (if std \<and> c = backslash then [c, c] else [c]) @ stored_value std s"
  by (simp_all add: stored_value_def)

lemma lex_string_plain:
  "c \<noteq> sq \<Longrightarrow> c \<noteq> CHR 0x00 \<Longrightarrow> std \<or> c \<noteq> backslash \<Longrightarrow> t \<noteq> [] \<Longrightarrow> lex_string std (c # t) = cons_char c (lex_string std t)"
  by (cases t) auto

lemma lex_string_end: "\<not> starts_with (\<lambda>c. c = sq) rest \<Longrightarrow> lex_string std (sq # rest) = Some ([], rest)"
  by (cases rest) auto

lemma lex_escapeString:
  assumes "\<not> starts_with (\<lambda>c. c = sq) rest" "nul_free s"
  shows "lex_string std (escapeString s @ sq # rest) = Some (stored_value std s, rest)"
  using assms(2)
proof (induction s)
  case Nil
  show ?case using assms(1) by (simp add: lex_string_end)
next
  case (Cons c s)
  have "backslash \<noteq> CHR 0x00" by (simp add: backslash_def)
  consider (q) "c = sq" | (b) "c = backslash" "\<not> std" | (b2) "c = backslash" "std"
    | (p) "c \<noteq> sq" "c \<noteq> backslash" by blast
  then show ?case
    using Cons \<open>backslash \<noteq> CHR 0x00\<close> by cases (simp_all add: escape_char_def lex_string_plain)
qed

lemma lexes_quoteLiteral:
  assumes "\<not> starts_with (\<lambda>c. c = sq) rest" "lexes_to std rest ts" "nul_free s"
  shows "lexes_to std (quoteLiteral s @ rest) (StringConst (stored_value std s) # ts)"
  using lexes_literal [OF lex_escapeString [OF assms(1,3)] assms(2)] by (simp add: quoteLiteral_def)

lemma quoteLiteral_nul: "nul_free (quoteLiteral s) \<longleftrightarrow> nul_free s"
proof -
  have "nul_free (escapeString s) \<longleftrightarrow> nul_free s" by (induction s) (auto simp: escape_char_def)
  then show ?thesis by (simp add: quoteLiteral_def sq_def)
qed

lemma stored_value_id: "stored_value True s = s \<longleftrightarrow> backslash \<notin> set s"
proof
  assume "backslash \<notin> set s"
  then show "stored_value True s = s" by (induction s) auto
next
  have len: "length s \<le> length (stored_value True s)" for s by (induction s) auto
  assume "stored_value True s = s"
  then show "backslash \<notin> set s"
  proof (induction s)
    case (Cons c s)
    show ?case
    proof (cases "c = backslash")
      case True
      with Cons.prems have "length (stored_value True (c # s)) = length (c # s)" by simp
      with True len [of s] show ?thesis by simp
    qed (use Cons in auto)
  qed simp
qed

lemma escapeString_length: "length (escapeString s) = length s + count_list s sq + count_list s backslash"
  by (induction s) (auto simp: escape_char_def)

section \<open>Quoted identifiers\<close>

text \<open>
  What the operator relies on of \<open>pgx.Identifier{name}.Sanitize()\<close> ("a sanitized string safe for
  SQL interpolation"): it is one quoted identifier wherever it stands before a character other
  than a double quote, and it names \<open>name\<close> itself unless that holds a NUL byte, which no
  PostgreSQL identifier can.
\<close>

definition sanitize_ok :: "(string list \<Rightarrow> string) \<Rightarrow> bool" where
  "sanitize_ok san \<longleftrightarrow>
     (\<forall>n. \<exists>m body. san [n] = dq # body \<and> (nul_free n \<longrightarrow> m = n) \<and>
        (\<forall>rest. \<not> starts_with (\<lambda>c. c = dq) rest \<longrightarrow> lex_ident (body @ rest) = Some (m, rest)))"

lemma lexes_sanitized:
  assumes "sanitize_ok san" "nul_free n" "\<not> starts_with (\<lambda>c. c = dq) rest" "lexes_to std rest ts"
  shows "lexes_to std (san [n] @ rest) (QuotedIdent n # ts)"
proof -
  obtain body where "san [n] = dq # body" "lex_ident (body @ rest) = Some (n, rest)"
    using assms(1-3) unfolding sanitize_ok_def by blast
  with lexes_quoted [OF this(2) assms(4)] show ?thesis by simp
qed

text \<open>An instance: drop NUL bytes, double the double quotes, wrap. (Used by witnesses only.)\<close>

fun double_dq :: "string \<Rightarrow> string" where
  "double_dq [] = []"
| "double_dq (c # s) = (if c = CHR 0x00 then [] else if c = dq then [dq, dq] else [c]) @ double_dq s"

definition ref_Sanitize :: "string list \<Rightarrow> string" where
  "ref_Sanitize ps = strings_Join (map (\<lambda>p. dq # double_dq p @ [dq]) ps) ''.''"

lemma lex_ident_plain: "c \<noteq> dq \<Longrightarrow> c \<noteq> CHR 0x00 \<Longrightarrow> t \<noteq> [] \<Longrightarrow> lex_ident (c # t) = cons_char c (lex_ident t)"
  by (cases t) auto

lemma lex_double_dq:
  "\<not> starts_with (\<lambda>c. c = dq) rest \<Longrightarrow>
   lex_ident (double_dq s @ dq # rest) = Some (filter (\<lambda>c. c \<noteq> CHR 0x00) s, rest)"
proof (induction s)
  case Nil
  then show ?case by (cases rest) auto
next
  case (Cons c s)
  then show ?case by (simp add: lex_ident_plain)
qed

lemma ref_Sanitize_ok: "sanitize_ok ref_Sanitize"
  unfolding sanitize_ok_def
proof
  fix n :: string
  have "\<not> starts_with (\<lambda>c. c = dq) rest \<Longrightarrow>
    lex_ident ((double_dq n @ [dq]) @ rest) = Some (filter (\<lambda>c. c \<noteq> CHR 0x00) n, rest)" for rest
    using lex_double_dq [of rest n] by simp
  moreover have "nul_free n \<Longrightarrow> filter (\<lambda>c. c \<noteq> CHR 0x00) n = n"
    unfolding nul_free_def by (rule filter_True) blast
  ultimately show "\<exists>m body. ref_Sanitize [n] = dq # body \<and> (nul_free n \<longrightarrow> m = n) \<and>
      (\<forall>rest. \<not> starts_with (\<lambda>c. c = dq) rest \<longrightarrow> lex_ident (body @ rest) = Some (m, rest))"
    by (intro exI [of _ "filter (\<lambda>c. c \<noteq> CHR 0x00) n"] exI [of _ "double_dq n @ [dq]"])
      (simp add: ref_Sanitize_def)
qed

end
