(* ===== verification/SqlClient.thy ===== *)
theory SqlClient
  imports SqlText
begin

text \<open>
  \<open>internal/sql/client.go\<close>: the client over one direct connection, its connection string, and
  \<open>Connect\<close>, \<open>Close\<close>, \<open>Ping\<close>; then the connection string against the documented syntax of
  keyword/value connection strings.
\<close>

record Client =
  conn :: pgx_conn

record ConnectConfig =
  cc_Host :: string
  cc_Port :: int32
  cc_Database :: string
  cc_Username :: string
  cc_Password :: string

definition connStr :: "ConnectConfig \<Rightarrow> string" where
  "connStr cfg =
     ''host='' @ cc_Host cfg @ '' port='' @ fmt_d (sint (cc_Port cfg)) @ '' dbname='' @ cc_Database cfg
     @ '' user='' @ cc_Username cfg @ '' password='' @ cc_Password cfg @ '' sslmode=disable''"

definition Connect :: "'w deps \<Rightarrow> ConnectConfig \<Rightarrow> 'w world \<Rightarrow> (gerror + Client) \<times> 'w world" where
  "Connect d cfg s =
     (case conn_Connect d (connStr cfg) s of
        (Inl err, s) \<Rightarrow> (Inl (Wrapped ''connecting to PostgreSQL: '' err), s)
      | (Inr c, s) \<Rightarrow> (Inr \<lparr>conn = c\<rparr>, s))"

definition Close :: "'w deps \<Rightarrow> Client \<Rightarrow> 'w world \<Rightarrow> gerror option \<times> 'w world" where
  "Close d c s = conn_Close d (conn c) s"

definition Ping :: "'w deps \<Rightarrow> Client \<Rightarrow> 'w world \<Rightarrow> gerror option \<times> 'w world" where
  "Ping d c s = conn_Ping d (conn c) s"

lemma emits_Connect_Inl [emits_intro]:
  "Connect d cfg s = (Inl e, s') \<Longrightarrow>
   \<exists>e'. e = Wrapped ''connecting to PostgreSQL: '' e' \<and> emits s s' [EvConnect (connStr cfg) (Inl e')]"
  by (auto simp: Connect_def split: go_splits dest: emits_calls)

lemma emits_Connect_Inr [emits_intro]:
  "Connect d cfg s = (Inr c, s') \<Longrightarrow> emits s s' [EvConnect (connStr cfg) (Inr (conn c))]"
  by (auto simp: Connect_def split: go_splits dest: emits_calls)

lemma emits_Close [emits_intro]: "Close d c s = (r, s') \<Longrightarrow> emits s s' [EvClose (conn c) r]"
  by (simp add: Close_def emits_calls)

lemma emits_Ping [emits_intro]: "Ping d c s = (r, s') \<Longrightarrow> emits s s' [EvPing (conn c) r]"
  by (simp add: Ping_def emits_calls)

text \<open>
  \<open>defer func() { _ = pgClient.Close(ctx) }()\<close>: the rest of the function runs, its results are
  evaluated, then the connection is closed and the error of that is dropped.
\<close>

definition defer_Close :: "'w deps \<Rightarrow> Client \<Rightarrow> ('w world \<Rightarrow> 'r \<times> 'w world) \<Rightarrow> 'w world \<Rightarrow> 'r \<times> 'w world" where
  "defer_Close d c body s =
     (case body s of (r, s) \<Rightarrow> (case Close d c s of (_, s) \<Rightarrow> (r, s)))"

lemma emits_defer_Close:
  assumes "defer_Close d c body s = (r, s'')"
  obtains s' e where "body s = (r, s')" "Close d c s' = (e, s'')" "emits s' s'' [EvClose (conn c) e]"
  using assms by (auto simp: defer_Close_def split: prod.splits dest: emits_Close)

section \<open>The connection string against its documented syntax\<close>

text \<open>
  \<open>pgx.Connect\<close> reads the string. \<open>parse\<close> stands for that reader; what is assumed of it is the
  documented syntax of keyword/value strings: settings \<open>key=value\<close> separated by blanks, an
  unquoted value reaching to the next blank, blanks around the equal sign optional, and of two
  settings of one key the later one wins.
\<close>

definition plain_char :: "char \<Rightarrow> bool" where
  "plain_char c \<longleftrightarrow> \<not> is_space c \<and> c \<noteq> sq \<and> c \<noteq> backslash"

definition plain_value :: "string \<Rightarrow> bool" where
  "plain_value v \<longleftrightarrow> v \<noteq> [] \<and> list_all plain_char v"

definition setting_key :: "string \<Rightarrow> bool" where
  "setting_key k \<longleftrightarrow> k \<noteq> [] \<and> list_all (\<lambda>c. in_range 97 122 (byte c)) k"

definition dsn_reader :: "(string \<Rightarrow> (string \<rightharpoonup> string) option) \<Rightarrow> bool" where
  "dsn_reader parse \<longleftrightarrow>
     (\<forall>k v. setting_key k \<longrightarrow> plain_value v \<longrightarrow> parse (k @ ''='' @ v) = Some [k \<mapsto> v]) \<and>
     (\<forall>k v rest m. setting_key k \<longrightarrow> plain_value v \<longrightarrow> parse rest = Some m \<longrightarrow>
        parse (k @ ''='' @ v @ '' '' @ rest) = Some ([k \<mapsto> v] ++ m)) \<and>
     (\<forall>k rest. setting_key k \<longrightarrow> parse (k @ ''= '' @ rest) = parse (k @ ''='' @ rest))"

lemma dsn_last:
  "dsn_reader parse \<Longrightarrow> setting_key k \<Longrightarrow> plain_value v \<Longrightarrow> parse (k @ ''='' @ v) = Some [k \<mapsto> v]"
  by (simp add: dsn_reader_def)

lemma dsn_more:
  "dsn_reader parse \<Longrightarrow> setting_key k \<Longrightarrow> plain_value v \<Longrightarrow> parse rest = Some m \<Longrightarrow>
   parse (k @ ''='' @ v @ '' '' @ rest) = Some ([k \<mapsto> v] ++ m)"
  by (simp add: dsn_reader_def)

lemma dsn_blank:
  "dsn_reader parse \<Longrightarrow> setting_key k \<Longrightarrow> parse (k @ ''= '' @ rest) = parse (k @ ''='' @ rest)"
  by (simp add: dsn_reader_def)

lemma setting_keys [simp]:
  "setting_key ''host''" "setting_key ''port''" "setting_key ''dbname''" "setting_key ''user''"
  "setting_key ''password''" "setting_key ''sslmode''"
  by (simp_all add: setting_key_def in_range_def byte_def)

lemma plain_fmt_d: "plain_value (fmt_d i)"
proof -
  have "plain_char c" if "c \<in> insert (CHR ''-'') (set decimal_digits)" for c
    using that by (auto simp: plain_char_def is_space_def byte_def decimal_digits_def sq_def backslash_def)
  with fmt_d_chars [of i] show ?thesis by (auto simp: plain_value_def list_all_iff)
qed

lemma plain_disable: "plain_value ''disable''" "plain_value ''sslmode=disable''"
  by (simp_all add: plain_value_def plain_char_def is_space_def byte_def sq_def backslash_def)

lemma dsn_more_new:
  assumes "dsn_reader parse" "setting_key k" "plain_value v" "parse rest = Some m" "m k = None"
  shows "parse (k @ ''='' @ v @ '' '' @ rest) = Some (m(k \<mapsto> v))"
proof -
  have "[k \<mapsto> v] ++ m = m(k \<mapsto> v)"
    using assms(5) by (auto simp: map_add_def fun_eq_iff split: option.splits)
  with dsn_more [OF assms(1-4)] show ?thesis by (simp only:)
qed

lemma dsn_more_old:
  assumes "dsn_reader parse" "setting_key k" "plain_value v" "parse rest = Some m" "m k \<noteq> None"
  shows "parse (k @ ''='' @ v @ '' '' @ rest) = Some m"
proof -
  have "[k \<mapsto> v] ++ m = m"
    using assms(5) by (auto simp: map_add_def fun_eq_iff split: option.splits)
  with dsn_more [OF assms(1-4)] show ?thesis by (simp only:)
qed

text \<open>The settings from the user on, and those before the database.\<close>

lemma dsn_tail:
  assumes "dsn_reader parse" "plain_value u" "plain_value p"
  shows "parse (''user='' @ u @ '' password='' @ p @ '' sslmode=disable'')
    = Some [''sslmode'' \<mapsto> ''disable'', ''password'' \<mapsto> p, ''user'' \<mapsto> u]"
proof -
  have a: "parse (''sslmode'' @ ''='' @ ''disable'') = Some [''sslmode'' \<mapsto> ''disable'']"
    by (rule dsn_last [OF assms(1) _ plain_disable(1)]) simp
  have b: "parse (''password'' @ ''='' @ p @ '' '' @ ''sslmode'' @ ''='' @ ''disable'')
      = Some [''sslmode'' \<mapsto> ''disable'', ''password'' \<mapsto> p]"
    by (rule dsn_more_new [OF assms(1) _ assms(3) a]) simp_all
  have "parse (''user'' @ ''='' @ u @ '' '' @ ''password'' @ ''='' @ p @ '' '' @ ''sslmode'' @ ''='' @ ''disable'')
      = Some [''sslmode'' \<mapsto> ''disable'', ''password'' \<mapsto> p, ''user'' \<mapsto> u]"
    by (rule dsn_more_new [OF assms(1) _ assms(2) b]) simp_all
  then show ?thesis by simp
qed

lemma dsn_head:
  assumes "dsn_reader parse" "plain_value h" "parse rest = Some m"
    and "m ''host'' = None" "m ''port'' = None"
  shows "parse (''host='' @ h @ '' port='' @ fmt_d i @ '' '' @ rest)
    = Some (m(''port'' \<mapsto> fmt_d i, ''host'' \<mapsto> h))"
proof -
  have a: "parse (''port'' @ ''='' @ fmt_d i @ '' '' @ rest) = Some (m(''port'' \<mapsto> fmt_d i))"
    by (rule dsn_more_new [OF assms(1) _ plain_fmt_d assms(3,5)]) simp
  have "parse (''host'' @ ''='' @ h @ '' '' @ ''port'' @ ''='' @ fmt_d i @ '' '' @ rest)
      = Some (m(''port'' \<mapsto> fmt_d i, ''host'' \<mapsto> h))"
    by (rule dsn_more_new [OF assms(1) _ assms(2) a]) (simp_all add: assms(4))
  then show ?thesis by simp
qed

end
