(* ===== verification/SqlDatabase.thy ===== *)
theory SqlDatabase
  imports SqlClient
begin

text \<open>
  \<open>internal/sql/database.go\<close>: \<open>DatabaseExists\<close>, \<open>CreateDatabase\<close>, \<open>DropDatabase\<close>. Each lemma
  gives the calls an operation makes together with its result, one disjunct per path.
\<close>

definition databaseExistsQuery :: string where
  "databaseExistsQuery = ''SELECT EXISTS(SELECT 1 FROM pg_database WHERE datname = $1)''"

definition DatabaseExists :: "'w deps \<Rightarrow> Client \<Rightarrow> string \<Rightarrow> 'w world \<Rightarrow> (gerror + bool) \<times> 'w world" where
  "DatabaseExists d c name s =
     (case conn_QueryRow d (conn c) databaseExistsQuery name s of
        (Inl err, s) \<Rightarrow> (Inl (Wrapped (''checking if database '' @ fmt_q d name @ '' exists: '') err), s)
      | (Inr exists, s) \<Rightarrow> (Inr exists, s))"

definition CreateDatabase :: "'w deps \<Rightarrow> Client \<Rightarrow> string \<Rightarrow> 'w world \<Rightarrow> gerror option \<times> 'w world" where
  "CreateDatabase d c name s =
     (case DatabaseExists d c name s of
        (Inl err, s) \<Rightarrow> (Some err, s)
      | (Inr exists, s) \<Rightarrow>
          if exists then (None, s)
          else
            (let quotedName = pgx_Sanitize d [name] in
             case conn_Exec d (conn c) (''CREATE DATABASE '' @ quotedName) s of
               (Some err, s) \<Rightarrow> (Some (Wrapped (''creating database '' @ fmt_q d name @ '': '') err), s)
             | (None, s) \<Rightarrow> (None, s)))"

definition DropDatabase :: "'w deps \<Rightarrow> Client \<Rightarrow> string \<Rightarrow> 'w world \<Rightarrow> gerror option \<times> 'w world" where
  "DropDatabase d c name s =
     (case DatabaseExists d c name s of
        (Inl err, s) \<Rightarrow> (Some err, s)
      | (Inr exists, s) \<Rightarrow>
          if \<not> exists then (None, s)
          else
            (let quotedName = pgx_Sanitize d [name] in
             case conn_Exec d (conn c) (''DROP DATABASE '' @ quotedName) s of
               (Some err, s) \<Rightarrow> (Some (Wrapped (''dropping database '' @ fmt_q d name @ '': '') err), s)
             | (None, s) \<Rightarrow> (None, s)))"

lemmas database_defs [go_defs] = DatabaseExists_def CreateDatabase_def DropDatabase_def

text \<open>What makes a run of \<open>CreateDatabase\<close>, and one of \<open>DropDatabase\<close>, a success.\<close>

definition database_ensured :: "'w deps \<Rightarrow> pgx_conn \<Rightarrow> string \<Rightarrow> event list \<Rightarrow> bool" where
  "database_ensured d c name evs \<longleftrightarrow>
     evs = [EvQuery c databaseExistsQuery name (Inr True)] \<or>
     evs = [EvQuery c databaseExistsQuery name (Inr False),
            EvExec c (''CREATE DATABASE '' @ pgx_Sanitize d [name]) None]"

definition database_removed :: "'w deps \<Rightarrow> pgx_conn \<Rightarrow> string \<Rightarrow> event list \<Rightarrow> bool" where
  "database_removed d c name evs \<longleftrightarrow>
     evs = [EvQuery c databaseExistsQuery name (Inr False)] \<or>
     evs = [EvQuery c databaseExistsQuery name (Inr True),
            EvExec c (''DROP DATABASE '' @ pgx_Sanitize d [name]) None]"

lemma CreateDatabase_emits:
  assumes "CreateDatabase d c name s = (r, s')"
  obtains evs where "emits s s' evs" "list_all (sql_on (conn c)) evs"
    "r = None \<longleftrightarrow> database_ensured d (conn c) name evs"
  using assms unfolding CreateDatabase_def DatabaseExists_def call_defs Let_def
  by (auto simp: emits_def database_ensured_def split: go_splits)

lemma DropDatabase_emits:
  assumes "DropDatabase d c name s = (r, s')"
  obtains evs where "emits s s' evs" "list_all (sql_on (conn c)) evs"
    "r = None \<longleftrightarrow> database_removed d (conn c) name evs"
  using assms unfolding DropDatabase_def DatabaseExists_def call_defs Let_def
  by (auto simp: emits_def database_removed_def split: go_splits)

end
