(* ===== verification/SqlUser.thy ===== *)
theory SqlUser
  imports SqlClient
begin

text \<open>
  \<open>internal/sql/user.go\<close>: \<open>RoleExists\<close>, \<open>CreateOrUpdateRole\<close>, \<open>DropRole\<close>, with the calls each
  makes. (The literal quoting of the same file is in \<open>SqlText\<close>.)
\<close>

definition roleExistsQuery :: string where
  "roleExistsQuery = ''SELECT EXISTS(SELECT 1 FROM pg_roles WHERE rolname = $1)''"

definition RoleExists :: "'w deps \<Rightarrow> Client \<Rightarrow> string \<Rightarrow> 'w world \<Rightarrow> (gerror + bool) \<times> 'w world" where
  "RoleExists d c name s =
     (case conn_QueryRow d (conn c) roleExistsQuery name s of
        (Inl err, s) \<Rightarrow> (Inl (Wrapped (''checking if role '' @ fmt_q d name @ '' exists: '') err), s)
      | (Inr exists, s) \<Rightarrow> (Inr exists, s))"

definition alterRoleStmt :: "'w deps \<Rightarrow> string \<Rightarrow> string \<Rightarrow> string" where
  "alterRoleStmt d name password =
     ''ALTER ROLE '' @ pgx_Sanitize d [name] @ '' WITH LOGIN PASSWORD '' @ quoteLiteral password"

definition createRoleStmt :: "'w deps \<Rightarrow> string \<Rightarrow> string \<Rightarrow> string" where
  "createRoleStmt d name password =
     ''CREATE ROLE '' @ pgx_Sanitize d [name] @ '' WITH LOGIN PASSWORD '' @ quoteLiteral password"

definition CreateOrUpdateRole ::
  "'w deps \<Rightarrow> Client \<Rightarrow> string \<Rightarrow> string \<Rightarrow> 'w world \<Rightarrow> gerror option \<times> 'w world" where
  "CreateOrUpdateRole d c name password s =
     (case RoleExists d c name s of
        (Inl err, s) \<Rightarrow> (Some err, s)
      | (Inr exists, s) \<Rightarrow>
          if exists then
            (case conn_Exec d (conn c) (alterRoleStmt d name password) s of
               (Some err, s) \<Rightarrow> (Some (Wrapped (''updating role '' @ fmt_q d name @ '': '') err), s)
             | (None, s) \<Rightarrow> (None, s))
          else
            (case conn_Exec d (conn c) (createRoleStmt d name password) s of
               (Some err, s) \<Rightarrow> (Some (Wrapped (''creating role '' @ fmt_q d name @ '': '') err), s)
             | (None, s) \<Rightarrow> (None, s)))"

definition DropRole :: "'w deps \<Rightarrow> Client \<Rightarrow> string \<Rightarrow> 'w world \<Rightarrow> gerror option \<times> 'w world" where
  "DropRole d c name s =
     (case RoleExists d c name s of
        (Inl err, s) \<Rightarrow> (Some err, s)
      | (Inr exists, s) \<Rightarrow>
          if \<not> exists then (None, s)
          else
            (case conn_Exec d (conn c) (''DROP ROLE '' @ pgx_Sanitize d [name]) s of
               (Some err, s) \<Rightarrow> (Some (Wrapped (''dropping role '' @ fmt_q d name @ '': '') err), s)
             | (None, s) \<Rightarrow> (None, s)))"

lemmas role_defs [go_defs] = RoleExists_def CreateOrUpdateRole_def DropRole_def

definition role_ensured :: "'w deps \<Rightarrow> pgx_conn \<Rightarrow> string \<Rightarrow> string \<Rightarrow> event list \<Rightarrow> bool" where
  "role_ensured d c name password evs \<longleftrightarrow>
     evs = [EvQuery c roleExistsQuery name (Inr True), EvExec c (alterRoleStmt d name password) None] \<or>
     evs = [EvQuery c roleExistsQuery name (Inr False), EvExec c (createRoleStmt d name password) None]"

definition role_removed :: "'w deps \<Rightarrow> pgx_conn \<Rightarrow> string \<Rightarrow> event list \<Rightarrow> bool" where
  "role_removed d c name evs \<longleftrightarrow>
     evs = [EvQuery c roleExistsQuery name (Inr False)] \<or>
     evs = [EvQuery c roleExistsQuery name (Inr True),
            EvExec c (''DROP ROLE '' @ pgx_Sanitize d [name]) None]"

lemma CreateOrUpdateRole_emits:
  assumes "CreateOrUpdateRole d c name password s = (r, s')"
  obtains evs where "emits s s' evs" "list_all (sql_on (conn c)) evs"
    "r = None \<longleftrightarrow> role_ensured d (conn c) name password evs"
  using assms unfolding CreateOrUpdateRole_def RoleExists_def call_defs
  by (auto simp: emits_def role_ensured_def split: go_splits)

lemma DropRole_emits:
  assumes "DropRole d c name s = (r, s')"
  obtains evs where "emits s s' evs" "list_all (sql_on (conn c)) evs"
    "r = None \<longleftrightarrow> role_removed d (conn c) name evs"
  using assms unfolding DropRole_def RoleExists_def call_defs
  by (auto simp: emits_def role_removed_def split: go_splits)

end
