(* ===== verification/SqlGrant.thy ===== *)
theory SqlGrant
  imports SqlClient
begin

text \<open>
  \<open>internal/sql/grant.go\<close>: \<open>GrantPrivileges\<close> and \<open>RevokePrivileges\<close>, their statement texts in the
  order they are executed, and the calls made. Both stop at the first statement that fails.
\<close>

record GrantOpts =
  go_Privileges :: "string list"
  go_Database :: string
  go_Schema :: string
  go_Role :: string

definition privs :: "GrantOpts \<Rightarrow> string" where
  "privs opts = strings_Join (go_Privileges opts) '', ''"

section \<open>Granting\<close>

definition grantDatabaseStmt :: "'w deps \<Rightarrow> GrantOpts \<Rightarrow> string" where
  "grantDatabaseStmt d opts = ''GRANT '' @ privs opts @ '' ON DATABASE ''
     @ pgx_Sanitize d [go_Database opts] @ '' TO '' @ pgx_Sanitize d [go_Role opts]"

definition grantTablesStmt :: "'w deps \<Rightarrow> GrantOpts \<Rightarrow> string" where
  "grantTablesStmt d opts = ''GRANT '' @ privs opts @ '' ON ALL TABLES IN SCHEMA ''
     @ pgx_Sanitize d [go_Schema opts] @ '' TO '' @ pgx_Sanitize d [go_Role opts]"

definition grantDefaultStmt :: "'w deps \<Rightarrow> GrantOpts \<Rightarrow> string" where
  "grantDefaultStmt d opts = ''ALTER DEFAULT PRIVILEGES IN SCHEMA '' @ pgx_Sanitize d [go_Schema opts]
     @ '' GRANT '' @ privs opts @ '' ON TABLES TO '' @ pgx_Sanitize d [go_Role opts]"

definition grantUsageStmt :: "'w deps \<Rightarrow> GrantOpts \<Rightarrow> string" where
  "grantUsageStmt d opts = ''GRANT USAGE ON SCHEMA '' @ pgx_Sanitize d [go_Schema opts]
     @ '' TO '' @ pgx_Sanitize d [go_Role opts]"

definition grantCreateStmt :: "'w deps \<Rightarrow> GrantOpts \<Rightarrow> string" where
  "grantCreateStmt d opts = ''GRANT CREATE ON SCHEMA '' @ pgx_Sanitize d [go_Schema opts]
     @ '' TO '' @ pgx_Sanitize d [go_Role opts]"

definition GrantPrivileges :: "'w deps \<Rightarrow> Client \<Rightarrow> GrantOpts \<Rightarrow> 'w world \<Rightarrow> gerror option \<times> 'w world" where
  "GrantPrivileges d c opts s =
     (case conn_Exec d (conn c) (grantDatabaseStmt d opts) s of
        (Some err, s) \<Rightarrow> (Some (Wrapped ''granting database privileges: '' err), s)
      | (None, s) \<Rightarrow>
     (case conn_Exec d (conn c) (grantTablesStmt d opts) s of
        (Some err, s) \<Rightarrow> (Some (Wrapped ''granting schema privileges: '' err), s)
      | (None, s) \<Rightarrow>
     (case conn_Exec d (conn c) (grantDefaultStmt d opts) s of
        (Some err, s) \<Rightarrow> (Some (Wrapped ''setting default privileges: '' err), s)
      | (None, s) \<Rightarrow>
     (case conn_Exec d (conn c) (grantUsageStmt d opts) s of
        (Some err, s) \<Rightarrow> (Some (Wrapped ''granting schema usage: '' err), s)
      | (None, s) \<Rightarrow>
     (case conn_Exec d (conn c) (grantCreateStmt d opts) s of
        (Some err, s) \<Rightarrow> (Some (Wrapped ''granting schema create: '' err), s)
      | (None, s) \<Rightarrow> (None, s))))))"

definition grant_statements :: "'w deps \<Rightarrow> GrantOpts \<Rightarrow> string list" where
  "grant_statements d opts = [grantDatabaseStmt d opts, grantTablesStmt d opts,
     grantDefaultStmt d opts, grantUsageStmt d opts, grantCreateStmt d opts]"

section \<open>Revoking\<close>

definition revokeDefaultStmt :: "'w deps \<Rightarrow> GrantOpts \<Rightarrow> string" where
  "revokeDefaultStmt d opts = ''ALTER DEFAULT PRIVILEGES IN SCHEMA '' @ pgx_Sanitize d [go_Schema opts]
     @ '' REVOKE '' @ privs opts @ '' ON TABLES FROM '' @ pgx_Sanitize d [go_Role opts]"

definition revokeTablesStmt :: "'w deps \<Rightarrow> GrantOpts \<Rightarrow> string" where
  "revokeTablesStmt d opts = ''REVOKE '' @ privs opts @ '' ON ALL TABLES IN SCHEMA ''
     @ pgx_Sanitize d [go_Schema opts] @ '' FROM '' @ pgx_Sanitize d [go_Role opts]"

definition revokeCreateStmt :: "'w deps \<Rightarrow> GrantOpts \<Rightarrow> string" where
  "revokeCreateStmt d opts = ''REVOKE CREATE ON SCHEMA '' @ pgx_Sanitize d [go_Schema opts]
     @ '' FROM '' @ pgx_Sanitize d [go_Role opts]"

definition revokeDatabaseStmt :: "'w deps \<Rightarrow> GrantOpts \<Rightarrow> string" where
  "revokeDatabaseStmt d opts = ''REVOKE '' @ privs opts @ '' ON DATABASE ''
     @ pgx_Sanitize d [go_Database opts] @ '' FROM '' @ pgx_Sanitize d [go_Role opts]"

definition RevokePrivileges :: "'w deps \<Rightarrow> Client \<Rightarrow> GrantOpts \<Rightarrow> 'w world \<Rightarrow> gerror option \<times> 'w world" where
  "RevokePrivileges d c opts s =
     (case conn_Exec d (conn c) (revokeDefaultStmt d opts) s of
        (Some err, s) \<Rightarrow> (Some (Wrapped ''revoking default privileges: '' err), s)
      | (None, s) \<Rightarrow>
     (case conn_Exec d (conn c) (revokeTablesStmt d opts) s of
        (Some err, s) \<Rightarrow> (Some (Wrapped ''revoking schema privileges: '' err), s)
      | (None, s) \<Rightarrow>
     (case conn_Exec d (conn c) (revokeCreateStmt d opts) s of
        (Some err, s) \<Rightarrow> (Some (Wrapped ''revoking schema create: '' err), s)
      | (None, s) \<Rightarrow>
     (case conn_Exec d (conn c) (revokeDatabaseStmt d opts) s of
        (Some err, s) \<Rightarrow> (Some (Wrapped ''revoking database privileges: '' err), s)
      | (None, s) \<Rightarrow> (None, s)))))"

definition revoke_statements :: "'w deps \<Rightarrow> GrantOpts \<Rightarrow> string list" where
  "revoke_statements d opts = [revokeDefaultStmt d opts, revokeTablesStmt d opts,
     revokeCreateStmt d opts, revokeDatabaseStmt d opts]"

lemmas grant_defs [go_defs] = GrantPrivileges_def RevokePrivileges_def

section \<open>The calls made\<close>

text \<open>
  Running a list of statements to the first failure: \<open>batch_ok\<close> is a complete run,
  \<open>batch_fails\<close> one that stops at a failing statement.
\<close>

definition batch_ok :: "pgx_conn \<Rightarrow> string list \<Rightarrow> event list \<Rightarrow> bool" where
  "batch_ok c stmts evs \<longleftrightarrow> evs = map (\<lambda>q. EvExec c q None) stmts"

definition batch_fails :: "pgx_conn \<Rightarrow> string list \<Rightarrow> event list \<Rightarrow> bool" where
  "batch_fails c stmts evs \<longleftrightarrow>
     (\<exists>k e. k < length stmts \<and>
        evs = map (\<lambda>q. EvExec c q None) (take k stmts) @ [EvExec c (stmts ! k) (Some e)])"

lemma batch_fails_Cons:
  "batch_fails c (q # stmts) evs \<longleftrightarrow>
     (\<exists>e. evs = [EvExec c q (Some e)]) \<or>
     (\<exists>evs'. evs = EvExec c q None # evs' \<and> batch_fails c stmts evs')"
proof
  assume "batch_fails c (q # stmts) evs"
  then obtain k e where k: "k < length (q # stmts)"
    and evs: "evs = map (\<lambda>q. EvExec c q None) (take k (q # stmts)) @ [EvExec c ((q # stmts) ! k) (Some e)]"
    by (auto simp: batch_fails_def)
  then show "(\<exists>e. evs = [EvExec c q (Some e)]) \<or>
      (\<exists>evs'. evs = EvExec c q None # evs' \<and> batch_fails c stmts evs')"
    by (cases k) (auto simp: batch_fails_def)
next
  assume "(\<exists>e. evs = [EvExec c q (Some e)]) \<or>
      (\<exists>evs'. evs = EvExec c q None # evs' \<and> batch_fails c stmts evs')"
  then show "batch_fails c (q # stmts) evs"
  proof
    assume "\<exists>e. evs = [EvExec c q (Some e)]"
    then show ?thesis unfolding batch_fails_def by (intro exI [of _ 0]) auto
  next
    assume "\<exists>evs'. evs = EvExec c q None # evs' \<and> batch_fails c stmts evs'"
    then obtain k e where "k < length stmts"
      "evs = EvExec c q None # map (\<lambda>q. EvExec c q None) (take k stmts) @ [EvExec c (stmts ! k) (Some e)]"
      by (auto simp: batch_fails_def)
    then show ?thesis unfolding batch_fails_def by (intro exI [of _ "Suc k"] exI [of _ e]) auto
  qed
qed

lemma batch_fails_Nil: "\<not> batch_fails c [] evs"
  by (simp add: batch_fails_def)

lemma batch_not_both: "batch_fails c stmts evs \<Longrightarrow> \<not> batch_ok c stmts evs"
  by (induction stmts arbitrary: evs) (auto simp: batch_fails_Nil batch_fails_Cons batch_ok_def)

lemma batch_sql_on: "batch_ok c stmts evs \<or> batch_fails c stmts evs \<Longrightarrow> list_all (sql_on c) evs"
  by (auto simp: batch_ok_def batch_fails_def list_all_iff)

lemma GrantPrivileges_emits:
  assumes "GrantPrivileges d c opts s = (r, s')"
  obtains evs where "emits s s' evs" "list_all (sql_on (conn c)) evs"
    "if r = None then batch_ok (conn c) (grant_statements d opts) evs
     else batch_fails (conn c) (grant_statements d opts) evs"
  using assms unfolding GrantPrivileges_def call_defs
  by (auto simp: emits_def grant_statements_def batch_ok_def batch_fails_Cons batch_fails_Nil split: go_splits)

lemma RevokePrivileges_emits:
  assumes "RevokePrivileges d c opts s = (r, s')"
  obtains evs where "emits s s' evs" "list_all (sql_on (conn c)) evs"
    "if r = None then batch_ok (conn c) (revoke_statements d opts) evs
     else batch_fails (conn c) (revoke_statements d opts) evs"
  using assms unfolding RevokePrivileges_def call_defs
  by (auto simp: emits_def revoke_statements_def batch_ok_def batch_fails_Cons batch_fails_Nil split: go_splits)

end
