(* ===== verification/SqlStatements.thy ===== *)
theory SqlStatements
  imports SqlDatabase SqlUser SqlGrant
begin

text \<open>
  The statements the operator sends, read by the reference lexer of \<open>SqlText\<close>: each is exactly the
  keywords of the code with the given names as quoted identifiers and the password as one
  constant, whatever the names and the password contain, except the character with code zero. The list
  of privileges is pasted as text.
\<close>

section \<open>Reading keywords and names\<close>

definition keyword :: "string \<Rightarrow> bool" where
  "keyword w \<longleftrightarrow> w \<noteq> [] \<and> list_all is_word_char w"

lemma lexes_keyword:
  assumes "keyword w" "lexes_to std s ts"
  shows "lexes_to std (w @ '' '' @ s) (Word w # ts)"
  using lexes_word [of w "CHR '' '' # s" std ts] lexes_space [OF assms(2)] assms(1)
  by (simp add: keyword_def word_end_def is_space_def byte_def)

lemma lexes_keyword_last:
  assumes "keyword w"
  shows "lexes_to std w [Word w]"
  using lexes_word [of w "[]" std "[]"] lexes_Nil assms by (simp add: keyword_def word_end_def)

lemma keyword_words [simp]:
  "keyword ''CREATE''" "keyword ''DROP''" "keyword ''ALTER''" "keyword ''DATABASE''" "keyword ''ROLE''"
  "keyword ''WITH''" "keyword ''LOGIN''" "keyword ''PASSWORD''" "keyword ''GRANT''" "keyword ''REVOKE''"
  "keyword ''ON''" "keyword ''ALL''" "keyword ''TABLES''" "keyword ''IN''" "keyword ''SCHEMA''"
  "keyword ''TO''" "keyword ''FROM''" "keyword ''DEFAULT''" "keyword ''PRIVILEGES''" "keyword ''USAGE''"
  by (simp_all add: keyword_def is_word_char_def in_range_def byte_def)

lemma lexes_name:
  assumes "sanitize_ok san" "nul_free n" "lexes_to std rest ts"
  shows "lexes_to std (san [n] @ '' '' @ rest) (QuotedIdent n # ts)"
  using lexes_sanitized [OF assms(1), of n "'' '' @ rest" std ts] lexes_space [OF assms(3)] assms(2)
  by (simp add: dq_def)

lemma lexes_name_last:
  assumes "sanitize_ok san" "nul_free n"
  shows "lexes_to std (san [n]) [QuotedIdent n]"
  using lexes_sanitized [OF assms(1), of n "[]" std "[]"] lexes_Nil assms(2) by simp

lemma lexes_literal_last: "nul_free p \<Longrightarrow> lexes_to std (quoteLiteral p) [StringConst (stored_value std p)]"
  using lexes_quoteLiteral [of "[]" std "[]" p] lexes_Nil by simp

section \<open>Databases and roles\<close>

lemma database_statements_lex:
  assumes "sanitize_ok (pgx_Sanitize d)" "nul_free n"
  shows "lexes_to std (''CREATE DATABASE '' @ pgx_Sanitize d [n]) [Word ''CREATE'', Word ''DATABASE'', QuotedIdent n]"
    "lexes_to std (''DROP DATABASE '' @ pgx_Sanitize d [n]) [Word ''DROP'', Word ''DATABASE'', QuotedIdent n]"
    "lexes_to std (''DROP ROLE '' @ pgx_Sanitize d [n]) [Word ''DROP'', Word ''ROLE'', QuotedIdent n]"
proof -
  note last = lexes_name_last [OF assms]
  show "lexes_to std (''CREATE DATABASE '' @ pgx_Sanitize d [n]) [Word ''CREATE'', Word ''DATABASE'', QuotedIdent n]"
    using lexes_keyword [OF _ lexes_keyword [OF _ last], of "''CREATE''" "''DATABASE''"] by simp
  show "lexes_to std (''DROP DATABASE '' @ pgx_Sanitize d [n]) [Word ''DROP'', Word ''DATABASE'', QuotedIdent n]"
    using lexes_keyword [OF _ lexes_keyword [OF _ last], of "''DROP''" "''DATABASE''"] by simp
  show "lexes_to std (''DROP ROLE '' @ pgx_Sanitize d [n]) [Word ''DROP'', Word ''ROLE'', QuotedIdent n]"
    using lexes_keyword [OF _ lexes_keyword [OF _ last], of "''DROP''" "''ROLE''"] by simp
qed

lemma role_statement_lex:
  assumes "sanitize_ok (pgx_Sanitize d)" "nul_free n" "nul_free p" "keyword k"
  shows "lexes_to std (k @ '' ROLE '' @ pgx_Sanitize d [n] @ '' WITH LOGIN PASSWORD '' @ quoteLiteral p)
    [Word k, Word ''ROLE'', QuotedIdent n, Word ''WITH'', Word ''LOGIN'', Word ''PASSWORD'',
     StringConst (stored_value std p)]"
proof -
  have "lexes_to std (''WITH'' @ '' '' @ ''LOGIN'' @ '' '' @ ''PASSWORD'' @ '' '' @ quoteLiteral p)
      [Word ''WITH'', Word ''LOGIN'', Word ''PASSWORD'', StringConst (stored_value std p)]"
    by (intro lexes_keyword lexes_literal_last keyword_words assms(3))
  from lexes_keyword [OF assms(4) lexes_keyword [OF _ lexes_name [OF assms(1,2) this], of "''ROLE''"]]
  show ?thesis by simp
qed

lemma alterRole_lex:
  assumes "sanitize_ok (pgx_Sanitize d)" "nul_free n" "nul_free p"
  shows "lexes_to std (alterRoleStmt d n p) [Word ''ALTER'', Word ''ROLE'', QuotedIdent n,
     Word ''WITH'', Word ''LOGIN'', Word ''PASSWORD'', StringConst (stored_value std p)]"
  using role_statement_lex [OF assms, of "''ALTER''" std] by (simp add: alterRoleStmt_def)

text \<open>A password with the character with code zero makes a text that holds it.\<close>

lemma role_text_nul: "nul_free (alterRoleStmt d n p) \<Longrightarrow> nul_free p" "nul_free (createRoleStmt d n p) \<Longrightarrow> nul_free p"
  by (simp_all add: alterRoleStmt_def createRoleStmt_def quoteLiteral_nul)

lemma createRole_lex:
  assumes "sanitize_ok (pgx_Sanitize d)" "nul_free n" "nul_free p"
  shows "lexes_to std (createRoleStmt d n p) [Word ''CREATE'', Word ''ROLE'', QuotedIdent n,
     Word ''WITH'', Word ''LOGIN'', Word ''PASSWORD'', StringConst (stored_value std p)]"
  using role_statement_lex [OF assms, of "''CREATE''" std] by (simp add: createRoleStmt_def)

section \<open>Privileges\<close>

text \<open>
  A privilege as the documentation has it: keywords separated by single blanks, \<open>SELECT\<close> or
  \<open>ALL PRIVILEGES\<close>. The list is read as those keywords, separated by commas.
\<close>

definition privilege_text :: "string list \<Rightarrow> string" where
  "privilege_text ws = strings_Join ws '' ''"

fun separated :: "token list list \<Rightarrow> token list" where
  "separated [] = []"
| "separated [p] = p"
| "separated (p # q # ps) = p @ Symbol (CHR '','') # separated (q # ps)"

lemma lexes_comma: "lexes_to std s ts \<Longrightarrow> lexes_to std (CHR '','' # s) (Symbol (CHR '','') # ts)"
  by (simp add: lexes_to_def sql_tokens_step [where t = "Some (Symbol (CHR '',''))" and rest = s]
    next_token.simps is_space_def byte_def sq_def dq_def is_word_char_def in_range_def cons_token_def)

lemma lexes_privilege:
  assumes "ws \<noteq> []" "list_all keyword ws" "word_end rest" "lexes_to std rest ts"
  shows "lexes_to std (privilege_text ws @ rest) (map Word ws @ ts)"
  using assms(1,2)
proof (induction ws rule: list_nonempty_induct)
  case (single w)
  then show ?case using lexes_word [OF _ _ assms(3,4)] by (simp add: keyword_def privilege_text_def)
next
  case (cons w ws)
  then obtain w' ws' where ws: "ws = w' # ws'" by (cases ws) auto
  from cons lexes_keyword [of w std "privilege_text ws @ rest" "map Word ws @ ts"]
  show ?case by (simp add: ws privilege_text_def)
qed

lemma lexes_privileges:
  assumes "wss \<noteq> []" "list_all (\<lambda>ws. ws \<noteq> [] \<and> list_all keyword ws) wss" "lexes_to std rest ts"
  shows "lexes_to std (strings_Join (map privilege_text wss) '', '' @ '' '' @ rest)
    (separated (map (map Word) wss) @ ts)"
  using assms(1,2)
proof (induction wss rule: list_nonempty_induct)
  case (single ws)
  then show ?case using lexes_privilege [of ws "'' '' @ rest" std ts] lexes_space [OF assms(3)]
    by (simp add: word_end_def is_space_def byte_def)
next
  case (cons ws wss)
  then obtain ws' wss' where w: "wss = ws' # wss'" by (cases wss) auto
  let ?more = "strings_Join (map privilege_text wss) '', '' @ '' '' @ rest"
  from cons have "lexes_to std ('', '' @ ?more) (Symbol (CHR '','') # separated (map (map Word) wss) @ ts)"
    using lexes_comma [OF lexes_space, of std ?more] by simp
  with cons.prems lexes_privilege [of ws "'', '' @ ?more"] show ?case
    by (simp add: w word_end_def)
qed

section \<open>Grants\<close>

text \<open>The statements as tokens, for privileges \<open>ps\<close> as tokens.\<close>

definition grant_tokens :: "token list \<Rightarrow> GrantOpts \<Rightarrow> token list list" where
  "grant_tokens ps opts =
     (let db = QuotedIdent (go_Database opts); sch = QuotedIdent (go_Schema opts);
          role = QuotedIdent (go_Role opts) in
      [Word ''GRANT'' # ps @ [Word ''ON'', Word ''DATABASE'', db, Word ''TO'', role],
       Word ''GRANT'' # ps @ [Word ''ON'', Word ''ALL'', Word ''TABLES'', Word ''IN'', Word ''SCHEMA'', sch,
         Word ''TO'', role],
       [Word ''ALTER'', Word ''DEFAULT'', Word ''PRIVILEGES'', Word ''IN'', Word ''SCHEMA'', sch, Word ''GRANT'']
         @ ps @ [Word ''ON'', Word ''TABLES'', Word ''TO'', role],
       [Word ''GRANT'', Word ''USAGE'', Word ''ON'', Word ''SCHEMA'', sch, Word ''TO'', role],
       [Word ''GRANT'', Word ''CREATE'', Word ''ON'', Word ''SCHEMA'', sch, Word ''TO'', role]])"

definition revoke_tokens :: "token list \<Rightarrow> GrantOpts \<Rightarrow> token list list" where
  "revoke_tokens ps opts =
     (let db = QuotedIdent (go_Database opts); sch = QuotedIdent (go_Schema opts);
          role = QuotedIdent (go_Role opts) in
      [[Word ''ALTER'', Word ''DEFAULT'', Word ''PRIVILEGES'', Word ''IN'', Word ''SCHEMA'', sch, Word ''REVOKE'']
         @ ps @ [Word ''ON'', Word ''TABLES'', Word ''FROM'', role],
       Word ''REVOKE'' # ps @ [Word ''ON'', Word ''ALL'', Word ''TABLES'', Word ''IN'', Word ''SCHEMA'', sch,
         Word ''FROM'', role],
       [Word ''REVOKE'', Word ''CREATE'', Word ''ON'', Word ''SCHEMA'', sch, Word ''FROM'', role],
       Word ''REVOKE'' # ps @ [Word ''ON'', Word ''DATABASE'', db, Word ''FROM'', role]])"

text \<open>Options whose privileges are the keyword lists \<open>wss\<close> and whose names PostgreSQL can carry.\<close>

definition plain_opts :: "string list list \<Rightarrow> GrantOpts \<Rightarrow> bool" where
  "plain_opts wss opts \<longleftrightarrow>
     go_Privileges opts = map privilege_text wss \<and> wss \<noteq> [] \<and>
     list_all (\<lambda>ws. ws \<noteq> [] \<and> list_all keyword ws) wss \<and>
     nul_free (go_Database opts) \<and> nul_free (go_Schema opts) \<and> nul_free (go_Role opts)"

definition privilege_tokens :: "string list list \<Rightarrow> token list" where
  "privilege_tokens wss = separated (map (map Word) wss)"

lemma lexes_privs:
  "plain_opts wss opts \<Longrightarrow> lexes_to std rest ts \<Longrightarrow>
   lexes_to std (privs opts @ '' '' @ rest) (privilege_tokens wss @ ts)"
  using lexes_privileges [of wss std rest ts] by (simp add: plain_opts_def privs_def privilege_tokens_def)

lemma opt_names:
  "plain_opts wss opts \<Longrightarrow> nul_free (go_Database opts)"
  "plain_opts wss opts \<Longrightarrow> nul_free (go_Schema opts)"
  "plain_opts wss opts \<Longrightarrow> nul_free (go_Role opts)"
  by (simp_all add: plain_opts_def)

lemma on_database_lex:
  assumes "sanitize_ok (pgx_Sanitize d)" "plain_opts wss opts" "keyword v" "keyword k"
  shows "lexes_to std (v @ '' '' @ privs opts @ '' ON DATABASE '' @ pgx_Sanitize d [go_Database opts]
      @ '' '' @ k @ '' '' @ pgx_Sanitize d [go_Role opts])
    (Word v # privilege_tokens wss @ [Word ''ON'', Word ''DATABASE'', QuotedIdent (go_Database opts), Word k,
       QuotedIdent (go_Role opts)])"
proof -
  note names = opt_names [OF assms(2)]
  have "lexes_to std (''ON'' @ '' '' @ ''DATABASE'' @ '' '' @ pgx_Sanitize d [go_Database opts]
      @ '' '' @ k @ '' '' @ pgx_Sanitize d [go_Role opts])
    [Word ''ON'', Word ''DATABASE'', QuotedIdent (go_Database opts), Word k, QuotedIdent (go_Role opts)]"
    by (intro lexes_keyword lexes_name lexes_name_last assms keyword_words names)
  from lexes_keyword [OF assms(3) lexes_privs [OF assms(2) this]] show ?thesis by simp
qed

lemma on_tables_lex:
  assumes "sanitize_ok (pgx_Sanitize d)" "plain_opts wss opts" "keyword v" "keyword k"
  shows "lexes_to std (v @ '' '' @ privs opts @ '' ON ALL TABLES IN SCHEMA '' @ pgx_Sanitize d [go_Schema opts]
      @ '' '' @ k @ '' '' @ pgx_Sanitize d [go_Role opts])
    (Word v # privilege_tokens wss @ [Word ''ON'', Word ''ALL'', Word ''TABLES'', Word ''IN'', Word ''SCHEMA'',
       QuotedIdent (go_Schema opts), Word k, QuotedIdent (go_Role opts)])"
proof -
  note names = opt_names [OF assms(2)]
  have "lexes_to std (''ON'' @ '' '' @ ''ALL'' @ '' '' @ ''TABLES'' @ '' '' @ ''IN'' @ '' '' @ ''SCHEMA'' @ '' ''
      @ pgx_Sanitize d [go_Schema opts] @ '' '' @ k @ '' '' @ pgx_Sanitize d [go_Role opts])
    [Word ''ON'', Word ''ALL'', Word ''TABLES'', Word ''IN'', Word ''SCHEMA'', QuotedIdent (go_Schema opts),
     Word k, QuotedIdent (go_Role opts)]"
    by (intro lexes_keyword lexes_name lexes_name_last assms keyword_words names)
  from lexes_keyword [OF assms(3) lexes_privs [OF assms(2) this]] show ?thesis by simp
qed

lemma default_lex:
  assumes "sanitize_ok (pgx_Sanitize d)" "plain_opts wss opts" "keyword v" "keyword k"
  shows "lexes_to std (''ALTER DEFAULT PRIVILEGES IN SCHEMA '' @ pgx_Sanitize d [go_Schema opts] @ '' '' @ v @ '' ''
      @ privs opts @ '' ON TABLES '' @ k @ '' '' @ pgx_Sanitize d [go_Role opts])
    ([Word ''ALTER'', Word ''DEFAULT'', Word ''PRIVILEGES'', Word ''IN'', Word ''SCHEMA'',
       QuotedIdent (go_Schema opts), Word v] @ privilege_tokens wss
     @ [Word ''ON'', Word ''TABLES'', Word k, QuotedIdent (go_Role opts)])"
proof -
  note names = opt_names [OF assms(2)]
  have "lexes_to std (''ON'' @ '' '' @ ''TABLES'' @ '' '' @ k @ '' '' @ pgx_Sanitize d [go_Role opts])
    [Word ''ON'', Word ''TABLES'', Word k, QuotedIdent (go_Role opts)]"
    by (intro lexes_keyword lexes_name_last names assms keyword_words)
  note tail = lexes_privs [OF assms(2) this]
  have "lexes_to std (''ALTER'' @ '' '' @ ''DEFAULT'' @ '' '' @ ''PRIVILEGES'' @ '' '' @ ''IN'' @ '' '' @ ''SCHEMA''
      @ '' '' @ pgx_Sanitize d [go_Schema opts] @ '' '' @ v @ '' '' @ privs opts @ '' ''
      @ ''ON'' @ '' '' @ ''TABLES'' @ '' '' @ k @ '' '' @ pgx_Sanitize d [go_Role opts])
    (Word ''ALTER'' # Word ''DEFAULT'' # Word ''PRIVILEGES'' # Word ''IN'' # Word ''SCHEMA''
      # QuotedIdent (go_Schema opts) # Word v # privilege_tokens wss
      @ [Word ''ON'', Word ''TABLES'', Word k, QuotedIdent (go_Role opts)])"
    by (intro lexes_keyword lexes_name assms keyword_words names tail)
  then show ?thesis by simp
qed

lemma on_schema_lex:
  assumes "sanitize_ok (pgx_Sanitize d)" "plain_opts wss opts" "keyword v" "keyword p" "keyword k"
  shows "lexes_to std (v @ '' '' @ p @ '' ON SCHEMA '' @ pgx_Sanitize d [go_Schema opts]
      @ '' '' @ k @ '' '' @ pgx_Sanitize d [go_Role opts])
    [Word v, Word p, Word ''ON'', Word ''SCHEMA'', QuotedIdent (go_Schema opts), Word k,
     QuotedIdent (go_Role opts)]"
proof -
  note names = opt_names [OF assms(2)]
  have "lexes_to std (v @ '' '' @ p @ '' '' @ ''ON'' @ '' '' @ ''SCHEMA'' @ '' '' @ pgx_Sanitize d [go_Schema opts]
      @ '' '' @ k @ '' '' @ pgx_Sanitize d [go_Role opts])
    [Word v, Word p, Word ''ON'', Word ''SCHEMA'', QuotedIdent (go_Schema opts), Word k,
     QuotedIdent (go_Role opts)]"
    by (intro lexes_keyword lexes_name lexes_name_last assms keyword_words names)
  then show ?thesis by simp
qed

lemma grant_statements_lex:
  assumes "sanitize_ok (pgx_Sanitize d)" "plain_opts wss opts"
  shows "list_all2 (lexes_to std) (grant_statements d opts) (grant_tokens (privilege_tokens wss) opts)"
  using on_database_lex [OF assms, of "''GRANT''" "''TO''" std] on_tables_lex [OF assms, of "''GRANT''" "''TO''" std]
    default_lex [OF assms, of "''GRANT''" "''TO''" std] on_schema_lex [OF assms, of "''GRANT''" "''USAGE''" "''TO''" std]
    on_schema_lex [OF assms, of "''GRANT''" "''CREATE''" "''TO''" std]
  by (simp add: grant_statements_def grant_tokens_def Let_def grantDatabaseStmt_def grantTablesStmt_def
    grantDefaultStmt_def grantUsageStmt_def grantCreateStmt_def)

lemma revoke_statements_lex:
  assumes "sanitize_ok (pgx_Sanitize d)" "plain_opts wss opts"
  shows "list_all2 (lexes_to std) (revoke_statements d opts) (revoke_tokens (privilege_tokens wss) opts)"
  using on_database_lex [OF assms, of "''REVOKE''" "''FROM''" std] on_tables_lex [OF assms, of "''REVOKE''" "''FROM''" std]
    default_lex [OF assms, of "''REVOKE''" "''FROM''" std] on_schema_lex [OF assms, of "''REVOKE''" "''CREATE''" "''FROM''" std]
  by (simp add: revoke_statements_def revoke_tokens_def Let_def revokeDefaultStmt_def revokeTablesStmt_def
    revokeCreateStmt_def revokeDatabaseStmt_def)

section \<open>Privileges that are not keywords\<close>

text \<open>
  Text for a list of tokens, and what becomes of a statement whose list of privileges holds such
  text, a semicolon and the start of a comment. The tokens are all those the reference lexer can read
  but identifiers that are empty, which a server refuses. A constant is printed as the setting \<open>std\<close>
  reads it.
\<close>

definition symbol_char :: "char \<Rightarrow> bool" where
  "symbol_char c \<longleftrightarrow> \<not> is_space c \<and> \<not> is_word_char c \<and> c \<notin> {sq, dq, CHR ''$'', CHR 0x00}"

fun printable :: "token \<Rightarrow> bool" where
  "printable (Word w) = keyword w"
| "printable (QuotedIdent n) = (nul_free n \<and> n \<noteq> [])"
| "printable (StringConst v) = nul_free v"
| "printable (Symbol c) = symbol_char c"

definition print_literal :: "bool \<Rightarrow> string \<Rightarrow> string" where
  "print_literal std v = [sq] @ concat (map (\<lambda>c. if c = sq \<or> c = backslash \<and> \<not> std then [c, c] else [c]) v) @ [sq]"

fun print_token :: "bool \<Rightarrow> token \<Rightarrow> string" where
  "print_token std (Word w) = w"
| "print_token std (QuotedIdent n) = ref_Sanitize [n]"
| "print_token std (StringConst v) = print_literal std v"
| "print_token std (Symbol c) = [c]"

definition print_tokens :: "bool \<Rightarrow> token list \<Rightarrow> string" where
  "print_tokens std ts = concat (map (\<lambda>t. print_token std t @ '' '') ts)"

lemma lexes_symbol:
  assumes "symbol_char c" "lexes_to std s ts"
  shows "lexes_to std (c # CHR '' '' # s) (Symbol c # ts)"
proof -
  have "next_token std (c # CHR '' '' # s) = Some (Some (Symbol c), CHR '' '' # s)"
    using assms(1) by (simp add: symbol_char_def next_token.simps)
  from sql_tokens_step [OF this] lexes_space [OF assms(2)] show ?thesis by (simp add: lexes_to_def cons_token_def)
qed

lemma lex_print_literal:
  assumes "nul_free v" "\<not> starts_with (\<lambda>c. c = sq) rest"
  shows "lex_string std (concat (map (\<lambda>c. if c = sq \<or> c = backslash \<and> \<not> std then [c, c] else [c]) v) @ sq # rest) = Some (v, rest)"
  using assms(1)
proof (induction v)
  case Nil
  show ?case using assms(2) by (simp add: lex_string_end)
next
  case (Cons c v)
  have "backslash \<noteq> sq" by (simp add: backslash_def sq_def)
  with Cons show ?case by (auto simp: lex_string_plain)
qed

lemma lexes_print_literal:
  assumes "nul_free v" "lexes_to std rest ts"
  shows "lexes_to std (print_literal std v @ '' '' @ rest) (StringConst v # ts)"
  using lexes_literal [OF lex_print_literal [OF assms(1), of "'' '' @ rest"]] lexes_space [OF assms(2)]
  by (simp add: print_literal_def sq_def)

lemma lexes_printed:
  assumes "printable t" "lexes_to std rest ts"
  shows "lexes_to std (print_token std t @ '' '' @ rest) (t # ts)"
proof (cases t)
  case (Word w)
  then show ?thesis using assms lexes_keyword by simp
next
  case (QuotedIdent n)
  then show ?thesis using assms lexes_name [OF ref_Sanitize_ok] by simp
next
  case (StringConst v)
  then show ?thesis using assms lexes_print_literal by simp
next
  case (Symbol c)
  then show ?thesis using assms lexes_symbol by simp
qed

lemma lexes_printed_list:
  "list_all printable ts \<Longrightarrow> lexes_to std rest us \<Longrightarrow> lexes_to std (print_tokens std ts @ rest) (ts @ us)"
  by (induction ts) (auto simp: print_tokens_def dest: lexes_printed)

lemma lexes_comment:
  assumes "CHR 0x0A \<notin> set s" "nul_free s"
  shows "lexes_to std (''--'' @ s) []"
proof -
  have "dropWhile (\<lambda>x. x \<noteq> CHR 0x0A) (CHR ''-'' # s) = []" using assms(1) by auto
  moreover have "nul_free (takeWhile (\<lambda>x. x \<noteq> CHR 0x0A) (CHR ''-'' # s))"
    using assms(2) by (auto simp: nul_free_def dest: set_takeWhileD)
  ultimately have "next_token std (''--'' @ s) = Some (None, [])"
    by (simp add: next_token.simps is_space_def byte_def sq_def dq_def is_word_char_def in_range_def)
  from sql_tokens_step [OF this] show ?thesis by (simp add: lexes_to_def cons_token_def)
qed

lemma sanitized_nul:
  assumes "sanitize_ok san"
  shows "nul_free (san [n])"
proof -
  obtain m body where "san [n] = dq # body" "lex_ident (body @ []) = Some (m, [])"
    using assms unfolding sanitize_ok_def by (metis starts_with_simps(1))
  with lex_nul(2) [of body m "[]"] show ?thesis by (auto simp: dq_def)
qed

lemma injected_lex:
  assumes "go_Privileges opts = [print_tokens std ts @ ''; --'']" "list_all printable ts" "sanitize_ok (pgx_Sanitize d)"
    and "CHR 0x0A \<notin> set (pgx_Sanitize d [go_Database opts])" "CHR 0x0A \<notin> set (pgx_Sanitize d [go_Role opts])"
  shows "lexes_to std (grantDatabaseStmt d opts) (Word ''GRANT'' # ts @ [Symbol (CHR '';'')])"
proof -
  let ?tail = "'' ON DATABASE '' @ pgx_Sanitize d [go_Database opts] @ '' TO '' @ pgx_Sanitize d [go_Role opts]"
  have "symbol_char (CHR '';'')"
    by (simp add: symbol_char_def is_space_def is_word_char_def in_range_def byte_def sq_def dq_def)
  then have "lexes_to std (CHR '';'' # CHR '' '' # ''--'' @ ?tail) [Symbol (CHR '';'')]"
    using assms(4,5) sanitized_nul [OF assms(3)] by (intro lexes_symbol lexes_comment) auto
  from lexes_printed_list [OF assms(2) this]
  have "lexes_to std (print_tokens std ts @ CHR '';'' # CHR '' '' # ''--'' @ ?tail) (ts @ [Symbol (CHR '';'')])" .
  from lexes_keyword [OF _ this, of "''GRANT''"] assms(1) show ?thesis
    by (simp add: grantDatabaseStmt_def privs_def)
qed

end
