(* ===== verification/PgServer.thy ===== *)
theory PgServer
  imports SqlStatements
begin

text \<open>
  The abstract side of the SQL layer: the part of a PostgreSQL 16 cluster the operator manages
  (databases, roles, schemas, tables, access privileges), the effect PostgreSQL documents for each
  of the statements sent, and the contract \<open>pg_server\<close> between this state and the driver. Then
  each operation of \<open>internal/sql\<close> is shown to refine one operation on the abstract state.
\<close>

section \<open>The state of a cluster\<close>

text \<open>
  The cluster as a connection sees it: the databases and roles of the cluster (with the login
  attribute and the text of the last \<open>PASSWORD\<close> clause), the schemas and tables of the database
  it is connected to, and the access privileges granted explicitly, as triples of privilege,
  object and role.
\<close>

datatype acl_object = ADatabase string | ASchema string | ATable string string | AFutureTables string

record pg_state =
  pg_databases :: "string set"
  pg_roles :: "string \<rightharpoonup> bool \<times> string"
  pg_schemas :: "string set"
  pg_tables :: "(string \<times> string) set"
  pg_acl :: "(string \<times> acl_object \<times> string) set"

section \<open>Statements\<close>

datatype grant_target = OnDatabase string | OnAllTables string | OnSchema string

datatype stmt =
    CreateDatabaseS string
  | DropDatabaseS string
  | CreateRoleS string string
  | AlterRoleS string string
  | DropRoleS string
  | GrantS "string list list" grant_target string
  | RevokeS "string list list" grant_target string
  | DefaultGrantS "string list list" string string
  | DefaultRevokeS "string list list" string string

fun target_tokens :: "grant_target \<Rightarrow> token list" where
  "target_tokens (OnDatabase n) = [Word ''ON'', Word ''DATABASE'', QuotedIdent n]"
| "target_tokens (OnAllTables n) = [Word ''ON'', Word ''ALL'', Word ''TABLES'', Word ''IN'', Word ''SCHEMA'', QuotedIdent n]"
| "target_tokens (OnSchema n) = [Word ''ON'', Word ''SCHEMA'', QuotedIdent n]"

fun stmt_tokens :: "stmt \<Rightarrow> token list" where
  "stmt_tokens (CreateDatabaseS n) = [Word ''CREATE'', Word ''DATABASE'', QuotedIdent n]"
| "stmt_tokens (DropDatabaseS n) = [Word ''DROP'', Word ''DATABASE'', QuotedIdent n]"
| "stmt_tokens (CreateRoleS n p) = [Word ''CREATE'', Word ''ROLE'', QuotedIdent n,
     Word ''WITH'', Word ''LOGIN'', Word ''PASSWORD'', StringConst p]"
| "stmt_tokens (AlterRoleS n p) = [Word ''ALTER'', Word ''ROLE'', QuotedIdent n,
     Word ''WITH'', Word ''LOGIN'', Word ''PASSWORD'', StringConst p]"
| "stmt_tokens (DropRoleS n) = [Word ''DROP'', Word ''ROLE'', QuotedIdent n]"
| "stmt_tokens (GrantS ps t r) =
     Word ''GRANT'' # privilege_tokens ps @ target_tokens t @ [Word ''TO'', QuotedIdent r]"
| "stmt_tokens (RevokeS ps t r) =
     Word ''REVOKE'' # privilege_tokens ps @ target_tokens t @ [Word ''FROM'', QuotedIdent r]"
| "stmt_tokens (DefaultGrantS ps s r) =
     [Word ''ALTER'', Word ''DEFAULT'', Word ''PRIVILEGES'', Word ''IN'', Word ''SCHEMA'', QuotedIdent s, Word ''GRANT'']
     @ privilege_tokens ps @ [Word ''ON'', Word ''TABLES'', Word ''TO'', QuotedIdent r]"
| "stmt_tokens (DefaultRevokeS ps s r) =
     [Word ''ALTER'', Word ''DEFAULT'', Word ''PRIVILEGES'', Word ''IN'', Word ''SCHEMA'', QuotedIdent s, Word ''REVOKE'']
     @ privilege_tokens ps @ [Word ''ON'', Word ''TABLES'', Word ''FROM'', QuotedIdent r]"

text \<open>
  Names PostgreSQL takes as they are: no NUL byte, not empty, at most 63 bytes (a longer one is
  truncated). Privileges are lists of keywords other than the reserved word \<open>ON\<close>; a keyword may be
  written in any case. Behind \<open>TO\<close> and \<open>FROM\<close> the name \<open>public\<close> stands for all roles, quoted or not, so it
  is the name of no grantee.
\<close>

definition upper_char :: "char \<Rightarrow> char" where
  "upper_char c = (if in_range 97 122 (byte c) then char_of (byte c - 32) else c)"

definition upper :: "string \<Rightarrow> string" where
  "upper = map upper_char"

definition pg_name :: "string \<Rightarrow> bool" where
  "pg_name n \<longleftrightarrow> nul_free n \<and> n \<noteq> [] \<and> length n \<le> 63"

lemma upper_words:
  "upper ''USAGE'' = ''USAGE''" "upper ''CREATE'' = ''CREATE''" "upper ''ALL'' = ''ALL''"
  "upper ''PRIVILEGES'' = ''PRIVILEGES''" "upper ''ON'' = ''ON''"
  by (simp_all add: upper_def upper_char_def in_range_def byte_def)

definition grantee :: "string \<Rightarrow> bool" where
  "grantee r \<longleftrightarrow> pg_name r \<and> r \<noteq> ''public''"

definition privileges_ok :: "string list list \<Rightarrow> bool" where
  "privileges_ok ps \<longleftrightarrow> ps \<noteq> [] \<and> list_all (\<lambda>ws. ws \<noteq> [] \<and> list_all keyword ws \<and> ''ON'' \<notin> set (map upper ws)) ps"

fun target_name :: "grant_target \<Rightarrow> string" where
  "target_name (OnDatabase n) = n"
| "target_name (OnAllTables n) = n"
| "target_name (OnSchema n) = n"

fun wf_stmt :: "stmt \<Rightarrow> bool" where
  "wf_stmt (CreateDatabaseS n) = pg_name n"
| "wf_stmt (DropDatabaseS n) = pg_name n"
| "wf_stmt (CreateRoleS n p) = pg_name n"
| "wf_stmt (AlterRoleS n p) = pg_name n"
| "wf_stmt (DropRoleS n) = pg_name n"
| "wf_stmt (GrantS ps t r) = (privileges_ok ps \<and> pg_name (target_name t) \<and> grantee r)"
| "wf_stmt (RevokeS ps t r) = (privileges_ok ps \<and> pg_name (target_name t) \<and> grantee r)"
| "wf_stmt (DefaultGrantS ps s r) = (privileges_ok ps \<and> pg_name s \<and> grantee r)"
| "wf_stmt (DefaultRevokeS ps s r) = (privileges_ok ps \<and> pg_name s \<and> grantee r)"

section \<open>Effects\<close>

text \<open>The privileges each kind of object has, and those a list in a statement stands for.\<close>

definition database_privileges :: "string list" where
  "database_privileges = [''CREATE'', ''CONNECT'', ''TEMPORARY'']"

definition table_privileges :: "string list" where
  "table_privileges = [''SELECT'', ''INSERT'', ''UPDATE'', ''DELETE'', ''TRUNCATE'', ''REFERENCES'', ''TRIGGER'']"

definition schema_privileges :: "string list" where
  "schema_privileges = [''CREATE'', ''USAGE'']"

definition all_privileges :: "string list list \<Rightarrow> bool" where
  "all_privileges ps \<longleftrightarrow> map (map upper) ps \<in> {[[''ALL'']], [[''ALL'', ''PRIVILEGES'']]}"

definition expand :: "string list \<Rightarrow> string list list \<Rightarrow> string set option" where
  "expand kind ps =
     (if all_privileges ps then Some (set kind)
      else
        (let qs = map (\<lambda>ws. if ws = [''TEMP''] then [''TEMPORARY''] else ws) (map (map upper) ps) in
         if list_all (\<lambda>ws. ws \<in> set (map (\<lambda>p. [p]) kind)) qs then Some (set (map hd qs)) else None))"

fun target_kind :: "grant_target \<Rightarrow> string list" where
  "target_kind (OnDatabase n) = database_privileges"
| "target_kind (OnAllTables n) = table_privileges"
| "target_kind (OnSchema n) = schema_privileges"

fun target_exists :: "grant_target \<Rightarrow> pg_state \<Rightarrow> bool" where
  "target_exists (OnDatabase n) st = (n \<in> pg_databases st)"
| "target_exists (OnAllTables n) st = (n \<in> pg_schemas st)"
| "target_exists (OnSchema n) st = (n \<in> pg_schemas st)"

fun target_objects :: "grant_target \<Rightarrow> pg_state \<Rightarrow> acl_object set" where
  "target_objects (OnDatabase n) st = {ADatabase n}"
| "target_objects (OnAllTables n) st = (\<lambda>(s, t). ATable s t) ` {x \<in> pg_tables st. fst x = n}"
| "target_objects (OnSchema n) st = {ASchema n}"

definition role_exists :: "string \<Rightarrow> pg_state \<Rightarrow> bool" where
  "role_exists r st \<longleftrightarrow> pg_roles st r \<noteq> None"

definition acl_entries :: "string set \<Rightarrow> acl_object set \<Rightarrow> string \<Rightarrow> (string \<times> acl_object \<times> string) set" where
  "acl_entries ps os r = ps \<times> os \<times> {r}"

text \<open>
  The effect of a statement that succeeds; \<open>None\<close> where PostgreSQL reports an error. (It may report
  one in other cases too: the contract below says nothing about a statement that fails.) A role
  some privilege was granted to cannot be dropped.
\<close>

fun exec_stmt :: "stmt \<Rightarrow> pg_state \<Rightarrow> pg_state option" where
  "exec_stmt (CreateDatabaseS n) st =
     (if n \<in> pg_databases st then None else Some (st\<lparr>pg_databases := insert n (pg_databases st)\<rparr>))"
| "exec_stmt (DropDatabaseS n) st =
     (if n \<in> pg_databases st
      then Some (st\<lparr>pg_databases := pg_databases st - {n},
                    pg_acl := {x \<in> pg_acl st. fst (snd x) \<noteq> ADatabase n}\<rparr>)
      else None)"
| "exec_stmt (CreateRoleS n p) st =
     (if role_exists n st then None else Some (st\<lparr>pg_roles := (pg_roles st)(n \<mapsto> (True, p))\<rparr>))"
| "exec_stmt (AlterRoleS n p) st =
     (if role_exists n st then Some (st\<lparr>pg_roles := (pg_roles st)(n \<mapsto> (True, p))\<rparr>) else None)"
| "exec_stmt (DropRoleS n) st =
     (if role_exists n st \<and> n \<notin> (\<lambda>x. snd (snd x)) ` pg_acl st
      then Some (st\<lparr>pg_roles := (pg_roles st)(n := None)\<rparr>) else None)"
| "exec_stmt (GrantS ps t r) st =
     (case expand (target_kind t) ps of
        None \<Rightarrow> None
      | Some P \<Rightarrow> if target_exists t st \<and> role_exists r st
                  then Some (st\<lparr>pg_acl := pg_acl st \<union> acl_entries P (target_objects t st) r\<rparr>) else None)"
| "exec_stmt (RevokeS ps t r) st =
     (case expand (target_kind t) ps of
        None \<Rightarrow> None
      | Some P \<Rightarrow> if target_exists t st \<and> role_exists r st
                  then Some (st\<lparr>pg_acl := pg_acl st - acl_entries P (target_objects t st) r\<rparr>) else None)"
| "exec_stmt (DefaultGrantS ps s r) st =
     (case expand table_privileges ps of
        None \<Rightarrow> None
      | Some P \<Rightarrow> if s \<in> pg_schemas st \<and> role_exists r st
                  then Some (st\<lparr>pg_acl := pg_acl st \<union> acl_entries P {AFutureTables s} r\<rparr>) else None)"
| "exec_stmt (DefaultRevokeS ps s r) st =
     (case expand table_privileges ps of
        None \<Rightarrow> None
      | Some P \<Rightarrow> if s \<in> pg_schemas st \<and> role_exists r st
                  then Some (st\<lparr>pg_acl := pg_acl st - acl_entries P {AFutureTables s} r\<rparr>) else None)"

section \<open>The contract of the driver\<close>

text \<open>
  \<open>view c w\<close> is the cluster connection \<open>c\<close> leads to. The two catalog queries answer for that state
  and leave it alone, and a statement that succeeds has its documented effect; between the calls of
  one operation no other session changes the cluster. A text is sent as a string that a zero byte ends,
  so one that holds such a byte never succeeds. \<open>std\<close> is \<open>standard_conforming_strings\<close>.
\<close>

definition pg_server :: "bool \<Rightarrow> 'w deps \<Rightarrow> (pgx_conn \<Rightarrow> 'w \<Rightarrow> pg_state) \<Rightarrow> bool" where
  "pg_server std d view \<longleftrightarrow>
     (\<forall>c n w r w'. pgx_QueryRow d c databaseExistsQuery n w = (r, w') \<longrightarrow>
        view c w' = view c w \<and>
        (\<forall>b. r = Inr b \<longrightarrow> pg_name n \<longrightarrow> b = (n \<in> pg_databases (view c w)))) \<and>
     (\<forall>c n w r w'. pgx_QueryRow d c roleExistsQuery n w = (r, w') \<longrightarrow>
        view c w' = view c w \<and>
        (\<forall>b. r = Inr b \<longrightarrow> pg_name n \<longrightarrow> b = role_exists n (view c w))) \<and>
     (\<forall>c q st w w'. pgx_Exec d c q w = (None, w') \<longrightarrow> wf_stmt st \<longrightarrow> lexes_to std q (stmt_tokens st) \<longrightarrow>
        exec_stmt st (view c w) = Some (view c w')) \<and>
     (\<forall>c q w w'. pgx_Exec d c q w = (None, w') \<longrightarrow> nul_free q)"

lemma server_database_query:
  assumes "pg_server std d view" "conn_QueryRow d c databaseExistsQuery n s = (r, s')"
  shows "view c (ext s') = view c (ext s)"
    "r = Inr b \<Longrightarrow> pg_name n \<Longrightarrow> b = (n \<in> pg_databases (view c (ext s)))"
  using assms by (auto simp: pg_server_def conn_QueryRow_def logged_def split: prod.splits)

lemma server_role_query:
  assumes "pg_server std d view" "conn_QueryRow d c roleExistsQuery n s = (r, s')"
  shows "view c (ext s') = view c (ext s)"
    "r = Inr b \<Longrightarrow> pg_name n \<Longrightarrow> b = role_exists n (view c (ext s))"
  using assms by (auto simp: pg_server_def conn_QueryRow_def logged_def split: prod.splits)

lemma server_exec:
  assumes "pg_server std d view" "conn_Exec d c q s = (None, s')" "wf_stmt st" "lexes_to std q (stmt_tokens st)"
  shows "exec_stmt st (view c (ext s)) = Some (view c (ext s'))"
  using assms by (auto simp: pg_server_def conn_Exec_def logged_def split: prod.splits)

lemma server_text:
  assumes "pg_server std d view" "conn_Exec d c q s = (None, s')"
  shows "nul_free q"
proof -
  obtain w' where "pgx_Exec d c q (ext s) = (None, w')"
    using assms(2) by (auto simp: conn_Exec_def logged_def split: prod.splits)
  with assms(1) show ?thesis unfolding pg_server_def by blast
qed

end
