(* ===== verification/SqlRefinement.thy ===== *)
theory SqlRefinement
  imports PgServer
begin

text \<open>
  The operations of \<open>internal/sql\<close> against the abstract cluster: each one that reports success
  implements one operation on \<open>pg_state\<close>.
\<close>

section \<open>Abstract operations\<close>

definition ensure_database :: "string \<Rightarrow> pg_state \<Rightarrow> pg_state" where
  "ensure_database n st = st\<lparr>pg_databases := insert n (pg_databases st)\<rparr>"

definition remove_database :: "string \<Rightarrow> pg_state \<Rightarrow> pg_state" where
  "remove_database n st =
     (if n \<in> pg_databases st
      then st\<lparr>pg_databases := pg_databases st - {n}, pg_acl := {x \<in> pg_acl st. fst (snd x) \<noteq> ADatabase n}\<rparr>
      else st)"

definition ensure_role :: "string \<Rightarrow> string \<Rightarrow> pg_state \<Rightarrow> pg_state" where
  "ensure_role n p st = st\<lparr>pg_roles := (pg_roles st)(n \<mapsto> (True, p))\<rparr>"

definition remove_role :: "string \<Rightarrow> pg_state \<Rightarrow> pg_state" where
  "remove_role n st = st\<lparr>pg_roles := (pg_roles st)(n := None)\<rparr>"

lemma remove_role_absent: "\<not> role_exists n st \<Longrightarrow> remove_role n st = st"
proof -
  assume "\<not> role_exists n st"
  then have "pg_roles st n = None" unfolding role_exists_def by blast
  then have "(pg_roles st)(n := None) = pg_roles st" by (rule fun_upd_idem)
  then show ?thesis by (simp add: remove_role_def)
qed

section \<open>Databases and roles\<close>

lemma database_steps:
  assumes "pg_server std d view" "DatabaseExists d c n s = (r, s')"
  shows "view (conn c) (ext s') = view (conn c) (ext s)"
    "r = Inr b \<Longrightarrow> pg_name n \<Longrightarrow> b = (n \<in> pg_databases (view (conn c) (ext s)))"
  using assms(2) server_database_query [OF assms(1)]
  by (auto simp: DatabaseExists_def split: prod.splits sum.splits)

lemma role_steps:
  assumes "pg_server std d view" "RoleExists d c n s = (r, s')"
  shows "view (conn c) (ext s') = view (conn c) (ext s)"
    "r = Inr b \<Longrightarrow> pg_name n \<Longrightarrow> b = role_exists n (view (conn c) (ext s))"
  using assms(2) server_role_query [OF assms(1)]
  by (auto simp: RoleExists_def split: prod.splits sum.splits)

lemma pg_name_nul: "pg_name n \<Longrightarrow> nul_free n"
  by (simp add: pg_name_def)

lemma CreateDatabase_abs:
  assumes "pg_server std d view" "sanitize_ok (pgx_Sanitize d)" "pg_name n"
    and "CreateDatabase d c n s = (None, s')"
  shows "view (conn c) (ext s') = ensure_database n (view (conn c) (ext s))"
proof -
  obtain re s1 where q: "DatabaseExists d c n s = (re, s1)" by (cases "DatabaseExists d c n s")
  note steps = database_steps [OF assms(1) q]
  obtain b where b: "re = Inr b" using assms(4) q by (cases re) (auto simp: CreateDatabase_def)
  show ?thesis
  proof (cases b)
    case True
    with assms(3,4) q b steps show ?thesis
      by (auto simp: CreateDatabase_def ensure_database_def insert_absorb)
  next
    case False
    with assms(4) q b have "conn_Exec d (conn c) (''CREATE DATABASE '' @ pgx_Sanitize d [n]) s1 = (None, s')"
      by (auto simp: CreateDatabase_def Let_def split: prod.splits option.splits)
    from server_exec [OF assms(1) this, of "CreateDatabaseS n"]
      database_statements_lex(1) [OF assms(2) pg_name_nul [OF assms(3)]] assms(3)
    have "exec_stmt (CreateDatabaseS n) (view (conn c) (ext s1)) = Some (view (conn c) (ext s'))" by simp
    with False b steps(1) steps(2) [OF b assms(3)] show ?thesis
      by (simp add: ensure_database_def)
  qed
qed

lemma DropDatabase_abs:
  assumes "pg_server std d view" "sanitize_ok (pgx_Sanitize d)" "pg_name n"
    and "DropDatabase d c n s = (None, s')"
  shows "view (conn c) (ext s') = remove_database n (view (conn c) (ext s))"
proof -
  obtain re s1 where q: "DatabaseExists d c n s = (re, s1)" by (cases "DatabaseExists d c n s")
  note steps = database_steps [OF assms(1) q]
  obtain b where b: "re = Inr b" using assms(4) q by (cases re) (auto simp: DropDatabase_def)
  show ?thesis
  proof (cases b)
    case False
    with assms(3,4) q b steps show ?thesis by (auto simp: DropDatabase_def remove_database_def)
  next
    case True
    with assms(4) q b have "conn_Exec d (conn c) (''DROP DATABASE '' @ pgx_Sanitize d [n]) s1 = (None, s')"
      by (auto simp: DropDatabase_def Let_def split: prod.splits option.splits)
    from server_exec [OF assms(1) this, of "DropDatabaseS n"]
      database_statements_lex(2) [OF assms(2) pg_name_nul [OF assms(3)]] assms(3)
    have "exec_stmt (DropDatabaseS n) (view (conn c) (ext s1)) = Some (view (conn c) (ext s'))" by simp
    with True b steps(1) steps(2) [OF b assms(3)] show ?thesis by (simp add: remove_database_def)
  qed
qed

lemma CreateOrUpdateRole_abs:
  assumes "pg_server std d view" "sanitize_ok (pgx_Sanitize d)" "pg_name n"
    and "CreateOrUpdateRole d c n p s = (None, s')"
  shows "view (conn c) (ext s') = ensure_role n (stored_value std p) (view (conn c) (ext s))"
proof -
  obtain re s1 where q: "RoleExists d c n s = (re, s1)" by (cases "RoleExists d c n s")
  note steps = role_steps [OF assms(1) q]
  obtain b where b: "re = Inr b" using assms(4) q by (cases re) (auto simp: CreateOrUpdateRole_def)
  note lex = createRole_lex [OF assms(2) pg_name_nul [OF assms(3)]] alterRole_lex [OF assms(2) pg_name_nul [OF assms(3)]]
  show ?thesis
  proof (cases b)
    case False
    with assms(4) q b have x: "conn_Exec d (conn c) (createRoleStmt d n p) s1 = (None, s')"
      by (auto simp: CreateOrUpdateRole_def split: prod.splits option.splits)
    note nul = role_text_nul(2) [OF server_text [OF assms(1) x]]
    from server_exec [OF assms(1) x, of "CreateRoleS n (stored_value std p)"] lex(1) [OF nul] assms(3)
    have "exec_stmt (CreateRoleS n (stored_value std p)) (view (conn c) (ext s1)) = Some (view (conn c) (ext s'))"
      by simp
    with steps(1) show ?thesis by (simp add: ensure_role_def split: if_splits)
  next
    case True
    with assms(4) q b have x: "conn_Exec d (conn c) (alterRoleStmt d n p) s1 = (None, s')"
      by (auto simp: CreateOrUpdateRole_def split: prod.splits option.splits)
    note nul = role_text_nul(1) [OF server_text [OF assms(1) x]]
    from server_exec [OF assms(1) x, of "AlterRoleS n (stored_value std p)"] lex(2) [OF nul] assms(3)
    have "exec_stmt (AlterRoleS n (stored_value std p)) (view (conn c) (ext s1)) = Some (view (conn c) (ext s'))"
      by simp
    with steps(1) show ?thesis by (simp add: ensure_role_def split: if_splits)
  qed
qed

lemma DropRole_abs:
  assumes "pg_server std d view" "sanitize_ok (pgx_Sanitize d)" "pg_name n"
    and "DropRole d c n s = (None, s')"
  shows "view (conn c) (ext s') = remove_role n (view (conn c) (ext s))"
    "role_exists n (view (conn c) (ext s)) \<Longrightarrow> n \<notin> (\<lambda>x. snd (snd x)) ` pg_acl (view (conn c) (ext s))"
proof -
  obtain re s1 where q: "RoleExists d c n s = (re, s1)" by (cases "RoleExists d c n s")
  note steps = role_steps [OF assms(1) q]
  obtain b where b: "re = Inr b" using assms(4) q by (cases re) (auto simp: DropRole_def)
  have "view (conn c) (ext s') = remove_role n (view (conn c) (ext s)) \<and>
    (role_exists n (view (conn c) (ext s)) \<longrightarrow> n \<notin> (\<lambda>x. snd (snd x)) ` pg_acl (view (conn c) (ext s)))"
  proof (cases b)
    case False
    with assms(4) q b have "s' = s1" by (simp add: DropRole_def)
    with False b steps(1) steps(2) [OF b assms(3)] show ?thesis by (simp add: remove_role_absent)
  next
    case True
    with assms(4) q b have "conn_Exec d (conn c) (''DROP ROLE '' @ pgx_Sanitize d [n]) s1 = (None, s')"
      by (auto simp: DropRole_def split: prod.splits option.splits)
    from server_exec [OF assms(1) this, of "DropRoleS n"]
      database_statements_lex(3) [OF assms(2) pg_name_nul [OF assms(3)]] assms(3)
    have "exec_stmt (DropRoleS n) (view (conn c) (ext s1)) = Some (view (conn c) (ext s'))" by simp
    with steps(1) show ?thesis by (simp add: remove_role_def split: if_splits)
  qed
  then show "view (conn c) (ext s') = remove_role n (view (conn c) (ext s))"
    "role_exists n (view (conn c) (ext s)) \<Longrightarrow> n \<notin> (\<lambda>x. snd (snd x)) ` pg_acl (view (conn c) (ext s))"
    by blast+
qed

section \<open>Grants\<close>

text \<open>The statements of a grant and of a revocation as abstract statements, run in sequence.\<close>

fun exec_stmts :: "stmt list \<Rightarrow> pg_state \<Rightarrow> pg_state option" where
  "exec_stmts [] st = Some st"
| "exec_stmts (q # qs) st = (case exec_stmt q st of None \<Rightarrow> None | Some st' \<Rightarrow> exec_stmts qs st')"

definition grant_stmts :: "string list list \<Rightarrow> GrantOpts \<Rightarrow> stmt list" where
  "grant_stmts ps opts =
     [GrantS ps (OnDatabase (go_Database opts)) (go_Role opts),
      GrantS ps (OnAllTables (go_Schema opts)) (go_Role opts),
      DefaultGrantS ps (go_Schema opts) (go_Role opts),
      GrantS [[''USAGE'']] (OnSchema (go_Schema opts)) (go_Role opts),
      GrantS [[''CREATE'']] (OnSchema (go_Schema opts)) (go_Role opts)]"

definition revoke_stmts :: "string list list \<Rightarrow> GrantOpts \<Rightarrow> stmt list" where
  "revoke_stmts ps opts =
     [DefaultRevokeS ps (go_Schema opts) (go_Role opts),
      RevokeS ps (OnAllTables (go_Schema opts)) (go_Role opts),
      RevokeS [[''CREATE'']] (OnSchema (go_Schema opts)) (go_Role opts),
      RevokeS ps (OnDatabase (go_Database opts)) (go_Role opts)]"

lemma stmts_tokens:
  "map stmt_tokens (grant_stmts ps opts) = grant_tokens (privilege_tokens ps) opts"
  "map stmt_tokens (revoke_stmts ps opts) = revoke_tokens (privilege_tokens ps) opts"
  by (simp_all add: grant_stmts_def revoke_stmts_def grant_tokens_def revoke_tokens_def Let_def
    privilege_tokens_def)

text \<open>Options with privileges \<open>ps\<close> and names PostgreSQL takes as they are.\<close>

definition good_opts :: "string list list \<Rightarrow> GrantOpts \<Rightarrow> bool" where
  "good_opts ps opts \<longleftrightarrow>
     go_Privileges opts = map privilege_text ps \<and> privileges_ok ps \<and>
     pg_name (go_Database opts) \<and> pg_name (go_Schema opts) \<and> grantee (go_Role opts)"

lemma good_plain: "good_opts ps opts \<Longrightarrow> plain_opts ps opts"
  by (auto simp: good_opts_def plain_opts_def privileges_ok_def grantee_def pg_name_def list_all_iff)

lemma good_wf:
  assumes "good_opts ps opts"
  shows "list_all wf_stmt (grant_stmts ps opts)" "list_all wf_stmt (revoke_stmts ps opts)"
proof -
  have "privileges_ok [[''USAGE'']]" "privileges_ok [[''CREATE'']]" by (simp_all add: privileges_ok_def upper_words)
  with assms show "list_all wf_stmt (grant_stmts ps opts)" "list_all wf_stmt (revoke_stmts ps opts)"
    by (simp_all add: good_opts_def grant_stmts_def revoke_stmts_def)
qed

lemma good_lex:
  assumes "sanitize_ok (pgx_Sanitize d)" "good_opts ps opts"
  shows "list_all2 (\<lambda>q st. lexes_to std q (stmt_tokens st)) (grant_statements d opts) (grant_stmts ps opts)"
    "list_all2 (\<lambda>q st. lexes_to std q (stmt_tokens st)) (revoke_statements d opts) (revoke_stmts ps opts)"
  using grant_statements_lex [OF assms(1) good_plain [OF assms(2)], of std]
    revoke_statements_lex [OF assms(1) good_plain [OF assms(2)], of std]
  by (simp_all add: list_all2_map2 flip: stmts_tokens)

text \<open>Running statement texts one after the other, as the two operations do.\<close>

fun exec_all :: "'w deps \<Rightarrow> pgx_conn \<Rightarrow> string list \<Rightarrow> 'w world \<Rightarrow> bool \<times> 'w world" where
  "exec_all d c [] s = (True, s)"
| "exec_all d c (q # qs) s =
     (case conn_Exec d c q s of (Some err, s) \<Rightarrow> (False, s) | (None, s) \<Rightarrow> exec_all d c qs s)"

lemma exec_all_server:
  assumes "pg_server std d view"
  shows "list_all2 (\<lambda>q st. lexes_to std q (stmt_tokens st)) qs sts \<Longrightarrow> list_all wf_stmt sts \<Longrightarrow>
    exec_all d c qs s = (True, s') \<Longrightarrow> exec_stmts sts (view c (ext s)) = Some (view c (ext s'))"
proof (induction qs sts arbitrary: s rule: list_all2_induct)
  case (Cons q qs st sts)
  then obtain s1 where x: "conn_Exec d c q s = (None, s1)" "exec_all d c qs s1 = (True, s')"
    by (auto split: prod.splits option.splits)
  with Cons server_exec [OF assms x(1), of st] show ?case by simp
qed simp

lemma GrantPrivileges_exec_all:
  "GrantPrivileges d c opts s = (None, s') \<Longrightarrow> exec_all d (conn c) (grant_statements d opts) s = (True, s')"
  by (auto simp: GrantPrivileges_def grant_statements_def split: prod.splits option.splits)

lemma RevokePrivileges_exec_all:
  "RevokePrivileges d c opts s = (None, s') \<Longrightarrow> exec_all d (conn c) (revoke_statements d opts) s = (True, s')"
  by (auto simp: RevokePrivileges_def revoke_statements_def split: prod.splits option.splits)

lemma GrantPrivileges_abs:
  assumes "pg_server std d view" "sanitize_ok (pgx_Sanitize d)" "good_opts ps opts"
    and "GrantPrivileges d c opts s = (None, s')"
  shows "exec_stmts (grant_stmts ps opts) (view (conn c) (ext s)) = Some (view (conn c) (ext s'))"
  using exec_all_server [OF assms(1) good_lex(1) [OF assms(2,3)] good_wf(1) [OF assms(3)]
    GrantPrivileges_exec_all [OF assms(4)]] .

lemma RevokePrivileges_abs:
  assumes "pg_server std d view" "sanitize_ok (pgx_Sanitize d)" "good_opts ps opts"
    and "RevokePrivileges d c opts s = (None, s')"
  shows "exec_stmts (revoke_stmts ps opts) (view (conn c) (ext s)) = Some (view (conn c) (ext s'))"
  using exec_all_server [OF assms(1) good_lex(2) [OF assms(2,3)] good_wf(2) [OF assms(3)]
    RevokePrivileges_exec_all [OF assms(4)]] .

section \<open>What a grant and its revocation come to\<close>

text \<open>No privilege but the keyword \<open>ALL\<close> applies to databases and to tables.\<close>

lemma expand_both:
  assumes "expand database_privileges ps \<noteq> None" "expand table_privileges ps \<noteq> None" "ps \<noteq> []"
  shows "all_privileges ps"
proof (rule ccontr)
  assume no: "\<not> all_privileges ps"
  let ?f = "\<lambda>ws. if map upper ws = [''TEMP''] then [''TEMPORARY''] else map upper ws"
  obtain w where w: "w \<in> set ps" using assms(3) by (cases ps) auto
  from assms(1) no w have "?f w \<in> (\<lambda>p. [p]) ` set database_privileges"
    by (auto simp: expand_def Let_def list_all_iff split: if_splits)
  moreover from assms(2) no w have "?f w \<in> (\<lambda>p. [p]) ` set table_privileges"
    by (auto simp: expand_def Let_def list_all_iff split: if_splits)
  ultimately show False by (auto simp: database_privileges_def table_privileges_def split: if_splits)
qed

lemma expand_all: "all_privileges ps \<Longrightarrow> expand kind ps = Some (set kind)"
  by (simp add: expand_def)

lemma expand_schema:
  "expand schema_privileges [[''USAGE'']] = Some {''USAGE''}"
  "expand schema_privileges [[''CREATE'']] = Some {''CREATE''}"
  by (simp_all add: expand_def all_privileges_def upper_words schema_privileges_def)

definition granted_entries :: "GrantOpts \<Rightarrow> pg_state \<Rightarrow> (string \<times> acl_object \<times> string) set" where
  "granted_entries opts st =
     acl_entries (set database_privileges) {ADatabase (go_Database opts)} (go_Role opts)
     \<union> acl_entries (set table_privileges) (target_objects (OnAllTables (go_Schema opts)) st) (go_Role opts)
     \<union> acl_entries (set table_privileges) {AFutureTables (go_Schema opts)} (go_Role opts)
     \<union> acl_entries {''CREATE''} {ASchema (go_Schema opts)} (go_Role opts)"

definition usage_entry :: "GrantOpts \<Rightarrow> string \<times> acl_object \<times> string" where
  "usage_entry opts = (''USAGE'', ASchema (go_Schema opts), go_Role opts)"

lemma grant_effect:
  assumes "exec_stmts (grant_stmts ps opts) st = Some st'" "ps \<noteq> []"
  shows "all_privileges ps"
    "st' = st\<lparr>pg_acl := pg_acl st \<union> granted_entries opts st \<union> {usage_entry opts}\<rparr>"
proof -
  from assms show all: "all_privileges ps"
    by (intro expand_both) (auto simp: grant_stmts_def split: option.splits if_splits)
  have u: "acl_entries {''USAGE''} {ASchema (go_Schema opts)} (go_Role opts) = {usage_entry opts}"
    by (simp add: acl_entries_def usage_entry_def)
  from assms(1) show "st' = st\<lparr>pg_acl := pg_acl st \<union> granted_entries opts st \<union> {usage_entry opts}\<rparr>"
    by (simp add: grant_stmts_def expand_all [OF all] expand_schema granted_entries_def u Un_assoc split: if_splits)
qed

lemma revoke_effect:
  assumes "exec_stmts (revoke_stmts ps opts) st = Some st'" "ps \<noteq> []"
  shows "all_privileges ps"
    "st' = st\<lparr>pg_acl := pg_acl st - granted_entries opts st\<rparr>"
proof -
  from assms show all: "all_privileges ps"
    by (intro expand_both) (auto simp: revoke_stmts_def split: option.splits if_splits)
  have "A - B - C - D - E = A - (E \<union> C \<union> B \<union> D)" for A B C D E :: "(string \<times> acl_object \<times> string) set"
    by blast
  with assms(1) show "st' = st\<lparr>pg_acl := pg_acl st - granted_entries opts st\<rparr>"
    by (auto simp: revoke_stmts_def expand_all [OF all] expand_schema granted_entries_def
      split: if_splits)
qed

end
