(* ===== verification/LiveServer.thy ===== *)
theory LiveServer
  imports SqlRefinement
begin

text \<open>
  A server that is up: beside the contract \<open>pg_server\<close>, which speaks of calls that succeed, catalog
  queries answer, a statement with names and a password no server refuses succeeds when its documented
  effect is defined, and one that fails changes nothing. Refused are the role names the documentation
  reserves; and a server may refuse bytes its encodings do not know, so the promise is for ASCII. \<open>DROP\<close> is
  refused for more reasons (a database with sessions, a role that owns objects), so it is in no such
  promise; on an idle server there are none of these. What else can stop a statement (no space, the
  template of new databases in use, a lost connection) is what \<open>up\<close> excludes. The operations of \<open>internal/sql\<close> then
  succeed, as a locale over any such server.
\<close>

section \<open>Statements of grants touch privileges only\<close>

definition acl_only :: "stmt \<Rightarrow> bool" where
  "acl_only st \<longleftrightarrow> (\<forall>p p'. exec_stmt st p = Some p' \<longrightarrow>
     pg_databases p' = pg_databases p \<and> pg_roles p' = pg_roles p \<and> pg_schemas p' = pg_schemas p)"

lemma grant_acl_only: "list_all acl_only (grant_stmts ps opts)" "list_all acl_only (revoke_stmts ps opts)"
  by (auto simp: grant_stmts_def revoke_stmts_def acl_only_def split: option.splits if_splits)

text \<open>A grant of all privileges, and its revocation, on a database, schema and role that exist.\<close>

definition grantable :: "GrantOpts \<Rightarrow> pg_state \<Rightarrow> bool" where
  "grantable opts st \<longleftrightarrow> go_Database opts \<in> pg_databases st \<and> go_Schema opts \<in> pg_schemas st \<and>
     role_exists (go_Role opts) st"

lemma exec_grant_stmts:
  assumes "all_privileges ps" "grantable opts st"
  shows "\<exists>st'. exec_stmts (grant_stmts ps opts) st = Some st'"
    "\<exists>st'. exec_stmts (revoke_stmts ps opts) st = Some st'"
  using assms(2)
  by (simp_all add: grant_stmts_def revoke_stmts_def expand_all [OF assms(1)] expand_schema grantable_def
    role_exists_def)

text \<open>The two operations are their statements one after the other, up to the text of the error.\<close>

lemma GrantPrivileges_eq:
  "GrantPrivileges d c opts s = (r, s') \<Longrightarrow> exec_all d (conn c) (grant_statements d opts) s = (r = None, s')"
  by (auto simp: GrantPrivileges_def grant_statements_def split: prod.splits option.splits)

lemma RevokePrivileges_eq:
  "RevokePrivileges d c opts s = (r, s') \<Longrightarrow> exec_all d (conn c) (revoke_statements d opts) s = (r = None, s')"
  by (auto simp: RevokePrivileges_def revoke_statements_def split: prod.splits option.splits)

section \<open>The contract\<close>

text \<open>
  Texts every encoding has, and names a role can be given: those that start with \<open>pg_\<close>, \<open>public\<close> and
  \<open>none\<close> are reserved.
\<close>

definition plain_text :: "string \<Rightarrow> bool" where
  "plain_text n \<longleftrightarrow> list_all (\<lambda>c. in_range 1 127 (byte c)) n"

definition free_role :: "string \<Rightarrow> bool" where
  "free_role n \<longleftrightarrow> plain_text n \<and> take 3 n \<noteq> ''pg_'' \<and> n \<notin> {''public'', ''none''}"

fun accepted :: "stmt \<Rightarrow> bool" where
  "accepted (CreateDatabaseS n) = plain_text n"
| "accepted (CreateRoleS n p) = (free_role n \<and> plain_text p)"
| "accepted (AlterRoleS n p) = (free_role n \<and> plain_text p)"
| "accepted (GrantS ps t r) = (plain_text (target_name t) \<and> plain_text r)"
| "accepted (RevokeS ps t r) = (plain_text (target_name t) \<and> plain_text r)"
| "accepted (DefaultGrantS ps s r) = (plain_text s \<and> plain_text r)"
| "accepted (DefaultRevokeS ps s r) = (plain_text s \<and> plain_text r)"
| "accepted (DropDatabaseS n) = False"
| "accepted (DropRoleS n) = False"

lemma plain_nul: "plain_text p \<Longrightarrow> nul_free p"
  by (auto simp: plain_text_def nul_free_def list_all_iff in_range_def byte_def)

lemma plain_stored: "plain_text p \<Longrightarrow> plain_text (stored_value std p)"
  by (induction p) (auto simp: plain_text_def)

text \<open>Options whose names are such texts.\<close>

definition plain_names :: "GrantOpts \<Rightarrow> bool" where
  "plain_names opts \<longleftrightarrow> plain_text (go_Database opts) \<and> plain_text (go_Schema opts) \<and> plain_text (go_Role opts)"

lemma grants_accepted:
  assumes "plain_names opts"
  shows "list_all accepted (grant_stmts ps opts)" "list_all accepted (revoke_stmts ps opts)"
  using assms by (simp_all add: grant_stmts_def revoke_stmts_def plain_names_def)

fun drops :: "stmt \<Rightarrow> bool" where
  "drops (DropDatabaseS n) = True"
| "drops (DropRoleS n) = True"
| "drops st = False"

locale live_server =
  fixes std :: bool
    and d :: "'w deps"
    and view :: "pgx_conn \<Rightarrow> 'w \<Rightarrow> pg_state"
    and up :: "'w \<Rightarrow> bool"
  assumes server: "pg_server std d view"
    and sanitize: "sanitize_ok (pgx_Sanitize d)"
    and answers: "up w \<Longrightarrow> q \<in> {databaseExistsQuery, roleExistsQuery} \<Longrightarrow> pgx_QueryRow d c q n w = (rb, w') \<Longrightarrow>
      (\<exists>b. rb = Inr b) \<and> up w'"
    and executes: "up w \<Longrightarrow> wf_stmt st \<Longrightarrow> lexes_to std q (stmt_tokens st) \<Longrightarrow> pgx_Exec d c q w = (re, w') \<Longrightarrow>
      up w' \<and> (exec_stmt st (view c w) \<noteq> None \<and> accepted st \<longrightarrow> re = None) \<and> (re \<noteq> None \<longrightarrow> view c w' = view c w)"
begin

lemma exec_up:
  assumes "conn_Exec d c q s = (re, s')" "up (ext s)" "wf_stmt st" "lexes_to std q (stmt_tokens st)"
  shows "up (ext s')" "exec_stmt st (view c (ext s)) \<noteq> None \<Longrightarrow> accepted st \<Longrightarrow> re = None"
    "re \<noteq> None \<Longrightarrow> view c (ext s') = view c (ext s)"
    "re = None \<Longrightarrow> exec_stmt st (view c (ext s)) = Some (view c (ext s'))"
  using assms executes [OF assms(2-4), of c] server_exec [OF server, of c q s s' st]
  by (auto simp: conn_Exec_def logged_def split: prod.splits)

lemma queries_up:
  assumes "up (ext s)"
  shows "DatabaseExists d c n s = (rb, s') \<Longrightarrow> (\<exists>b. rb = Inr b) \<and> up (ext s')"
    "RoleExists d c n s = (rb, s') \<Longrightarrow> (\<exists>b. rb = Inr b) \<and> up (ext s')"
  using answers [OF assms, of databaseExistsQuery "conn c" n] answers [OF assms, of roleExistsQuery "conn c" n]
  by (auto simp: DatabaseExists_def RoleExists_def call_defs split: prod.splits sum.splits)

lemma CreateDatabase_succeeds:
  assumes "up (ext s)" "pg_name n" "CreateDatabase d c n s = (r, s')" "plain_text n"
  shows "r = None" "up (ext s')"
proof -
  obtain rb s1 where q: "DatabaseExists d c n s = (rb, s1)" by (cases "DatabaseExists d c n s")
  obtain b where b: "rb = Inr b" "up (ext s1)" using queries_up(1) [OF assms(1) q] by blast
  note steps = database_steps [OF server q] database_statements_lex(1) [OF sanitize pg_name_nul [OF assms(2)]]
  obtain re s2 where e: "conn_Exec d (conn c) (''CREATE DATABASE '' @ pgx_Sanitize d [n]) s1 = (re, s2)"
    by (cases "conn_Exec d (conn c) (''CREATE DATABASE '' @ pgx_Sanitize d [n]) s1")
  note x = exec_up [OF e b(2), of "CreateDatabaseS n"]
  have "r = None \<and> up (ext s')"
    using assms(2-4) q b x(1,2) steps e by (cases b) (auto simp: CreateDatabase_def Let_def split: option.splits)
  then show "r = None" "up (ext s')" by auto
qed

lemma CreateOrUpdateRole_succeeds:
  assumes "up (ext s)" "pg_name n" "CreateOrUpdateRole d c n p s = (r, s')" "free_role n" "plain_text p"
  shows "r = None" "up (ext s')"
proof -
  obtain rb s1 where q: "RoleExists d c n s = (rb, s1)" by (cases "RoleExists d c n s")
  obtain b where b: "rb = Inr b" "up (ext s1)" using queries_up(2) [OF assms(1) q] by blast
  note steps = role_steps [OF server q]
  note lex = createRole_lex [OF sanitize pg_name_nul [OF assms(2)] plain_nul [OF assms(5)]]
    alterRole_lex [OF sanitize pg_name_nul [OF assms(2)] plain_nul [OF assms(5)]]
  obtain re s2 where e: "conn_Exec d (conn c) (if b then alterRoleStmt d n p else createRoleStmt d n p) s1 = (re, s2)"
    by (cases "conn_Exec d (conn c) (if b then alterRoleStmt d n p else createRoleStmt d n p) s1")
  have "up (ext s2) \<and> re = None"
    using exec_up(1,2) [OF e b(2), of "if b then AlterRoleS n (stored_value std p) else CreateRoleS n (stored_value std p)"]
      assms(2,4) plain_stored [OF assms(5)] lex steps(1) steps(2) [OF b(1) assms(2)] by (simp split: if_splits)
  with assms(3) q b e have "r = None \<and> up (ext s')" by (simp add: CreateOrUpdateRole_def split: if_splits)
  then show "r = None" "up (ext s')" by auto
qed

text \<open>
  A sequence of statements runs to its end when its effect is defined; if it stops before, it changed
  privileges at most.
\<close>

lemma exec_all_up:
  "list_all2 (\<lambda>q st. lexes_to std q (stmt_tokens st)) qs sts \<Longrightarrow> list_all wf_stmt sts \<Longrightarrow> list_all acl_only sts \<Longrightarrow>
   up (ext s) \<Longrightarrow> exec_all d c qs s = (ok, s') \<Longrightarrow>
   up (ext s') \<and> (exec_stmts sts (view c (ext s)) \<noteq> None \<longrightarrow> list_all accepted sts \<longrightarrow> ok) \<and>
   pg_databases (view c (ext s')) = pg_databases (view c (ext s)) \<and> pg_roles (view c (ext s')) = pg_roles (view c (ext s))"
proof (induction qs sts arbitrary: s rule: list_all2_induct)
  case (Cons q qs st sts)
  obtain re s1 where e: "conn_Exec d c q s = (re, s1)" by (cases "conn_Exec d c q s")
  note x = exec_up [OF e Cons.prems(3), of st]
  have wf: "wf_stmt st" "acl_only st" using Cons.prems by simp_all
  show ?case
  proof (cases re)
    case None
    with x Cons.hyps(1) wf have x1: "up (ext s1)" "exec_stmt st (view c (ext s)) = Some (view c (ext s1))" by auto
    with Cons.IH [of s1] Cons.prems None e have
      "up (ext s') \<and> (exec_stmts sts (view c (ext s1)) \<noteq> None \<longrightarrow> list_all accepted sts \<longrightarrow> ok) \<and>
       pg_databases (view c (ext s')) = pg_databases (view c (ext s1)) \<and> pg_roles (view c (ext s')) = pg_roles (view c (ext s1))"
      by simp
    with x1 wf(2) show ?thesis by (auto simp: acl_only_def)
  next
    case (Some err)
    with x Cons.hyps(1) wf e Cons.prems(4) show ?thesis by (auto split: option.splits)
  qed
qed simp

lemma GrantPrivileges_up:
  assumes "up (ext s)" "good_opts ps opts" "GrantPrivileges d c opts s = (r, s')"
  shows "up (ext s')" "pg_databases (view (conn c) (ext s')) = pg_databases (view (conn c) (ext s))"
    "pg_roles (view (conn c) (ext s')) = pg_roles (view (conn c) (ext s))"
    "all_privileges ps \<Longrightarrow> grantable opts (view (conn c) (ext s)) \<Longrightarrow> plain_names opts \<Longrightarrow> r = None"
  using exec_all_up [OF good_lex(1) [OF sanitize assms(2)] good_wf(1) [OF assms(2)] grant_acl_only(1) assms(1)
      GrantPrivileges_eq [OF assms(3)]]
    exec_grant_stmts(1) [of ps opts "view (conn c) (ext s)"] grants_accepted(1) [of opts ps] by auto

lemma RevokePrivileges_up:
  assumes "up (ext s)" "good_opts ps opts" "RevokePrivileges d c opts s = (r, s')"
  shows "up (ext s')" "pg_databases (view (conn c) (ext s')) = pg_databases (view (conn c) (ext s))"
    "pg_roles (view (conn c) (ext s')) = pg_roles (view (conn c) (ext s))"
    "all_privileges ps \<Longrightarrow> grantable opts (view (conn c) (ext s)) \<Longrightarrow> plain_names opts \<Longrightarrow> r = None"
  using exec_all_up [OF good_lex(2) [OF sanitize assms(2)] good_wf(2) [OF assms(2)] grant_acl_only(2) assms(1)
      RevokePrivileges_eq [OF assms(3)]]
    exec_grant_stmts(2) [of ps opts "view (conn c) (ext s)"] grants_accepted(2) [of opts ps] by auto

end

text \<open>A server where nothing stands in the way of a \<open>DROP\<close>.\<close>

locale idle_server = live_server +
  assumes drops_run: "up w \<Longrightarrow> wf_stmt st \<Longrightarrow> lexes_to std q (stmt_tokens st) \<Longrightarrow> drops st \<Longrightarrow>
      exec_stmt st (view c w) \<noteq> None \<Longrightarrow> pgx_Exec d c q w = (re, w') \<Longrightarrow> re = None"
begin

lemma drop_up:
  assumes "conn_Exec d c q s = (re, s')" "up (ext s)" "wf_stmt st" "lexes_to std q (stmt_tokens st)" "drops st"
  shows "up (ext s')" "exec_stmt st (view c (ext s)) \<noteq> None \<Longrightarrow> re = None"
  using exec_up(1) [OF assms(1-4)] drops_run [OF assms(2-5), of c] assms(1)
  by (auto simp: conn_Exec_def logged_def split: prod.splits)

lemma DropDatabase_succeeds:
  assumes "up (ext s)" "pg_name n" "DropDatabase d c n s = (r, s')"
  shows "r = None" "up (ext s')"
proof -
  obtain rb s1 where q: "DatabaseExists d c n s = (rb, s1)" by (cases "DatabaseExists d c n s")
  obtain b where b: "rb = Inr b" "up (ext s1)" using queries_up(1) [OF assms(1) q] by blast
  note steps = database_steps [OF server q] database_statements_lex(2) [OF sanitize pg_name_nul [OF assms(2)]]
  obtain re s2 where e: "conn_Exec d (conn c) (''DROP DATABASE '' @ pgx_Sanitize d [n]) s1 = (re, s2)"
    by (cases "conn_Exec d (conn c) (''DROP DATABASE '' @ pgx_Sanitize d [n]) s1")
  note x = drop_up [OF e b(2), of "DropDatabaseS n"]
  have "r = None \<and> up (ext s')"
    using assms(2,3) q b x(1,2) steps e by (cases b) (auto simp: DropDatabase_def Let_def split: option.splits)
  then show "r = None" "up (ext s')" by auto
qed

lemma DropRole_succeeds:
  assumes "up (ext s)" "pg_name n" "DropRole d c n s = (r, s')"
    and "n \<notin> (\<lambda>x. snd (snd x)) ` pg_acl (view (conn c) (ext s))"
  shows "r = None" "up (ext s')"
proof -
  obtain rb s1 where q: "RoleExists d c n s = (rb, s1)" by (cases "RoleExists d c n s")
  obtain b where b: "rb = Inr b" "up (ext s1)" using queries_up(2) [OF assms(1) q] by blast
  note steps = role_steps [OF server q] database_statements_lex(3) [OF sanitize pg_name_nul [OF assms(2)]]
  obtain re s2 where e: "conn_Exec d (conn c) (''DROP ROLE '' @ pgx_Sanitize d [n]) s1 = (re, s2)"
    by (cases "conn_Exec d (conn c) (''DROP ROLE '' @ pgx_Sanitize d [n]) s1")
  note x = drop_up [OF e b(2), of "DropRoleS n"]
  have "r = None \<and> up (ext s')"
    using assms(2-4) q b x(1,2) steps e by (cases b) (auto simp: DropRole_def split: option.splits)
  then show "r = None" "up (ext s')" by auto
qed

end

end
