(* ===== verification/RefWorld.thy ===== *)
theory RefWorld
  imports LiveServer
begin

text \<open>
  A concrete outside world: one PostgreSQL cluster that executes the statements of \<open>PgServer\<close> and an
  API server that stores objects in maps. It instantiates every service of \<open>deps\<close> by an executable
  function, satisfies the contracts the properties assume, and serves their witnesses. Nothing in
  the theorems about the operator depends on it.
\<close>

section \<open>Parsing statements\<close>

fun parse_privileges :: "token list \<Rightarrow> string list list \<times> token list" where
  "parse_privileges [] = ([[]], [])"
| "parse_privileges (Word w # ts) =
     (if w = ''ON'' then ([[]], Word w # ts)
      else (case parse_privileges ts of (ps, r) \<Rightarrow> ((w # hd ps) # tl ps, r)))"
| "parse_privileges (Symbol c # ts) =
     (if c = CHR '','' then (case parse_privileges ts of (ps, r) \<Rightarrow> ([] # ps, r)) else ([[]], Symbol c # ts))"
| "parse_privileges (t # ts) = ([[]], t # ts)"

lemma parse_privilege:
  "''ON'' \<notin> set ws \<Longrightarrow> parse_privileges (map Word ws @ ts) =
     (case parse_privileges ts of (ps, r) \<Rightarrow> if ws = [] then (ps, r) else ((ws @ hd ps) # tl ps, r))"
  by (induction ws) (auto split: prod.splits)

lemma parse_privileges_nonempty: "parse_privileges ts = (ps, r) \<Longrightarrow> ps \<noteq> []"
  by (induction ts arbitrary: ps rule: parse_privileges.induct) (auto split: if_splits prod.splits)

lemma parse_privilege_tokens:
  assumes "privileges_ok ps"
  shows "parse_privileges (privilege_tokens ps @ Word ''ON'' # ts) = (ps, Word ''ON'' # ts)"
proof -
  have "''ON'' \<in> upper ` set ws" if "''ON'' \<in> set ws" for ws
    using imageI [OF that, of upper] by (simp add: upper_words)
  then have "ps \<noteq> []" "list_all (\<lambda>ws. ws \<noteq> [] \<and> ''ON'' \<notin> set ws) ps"
    using assms by (auto simp: privileges_ok_def list_all_iff)
  then show ?thesis
  proof (induction ps rule: list_nonempty_induct)
    case (single ws)
    then show ?case by (simp add: privilege_tokens_def parse_privilege)
  next
    case (cons ws wss)
    then obtain ws' wss' where "wss = ws' # wss'" by (cases wss) auto
    with cons show ?case by (auto simp: privilege_tokens_def parse_privilege)
  qed
qed

definition parse_target :: "token list \<Rightarrow> (grant_target \<times> token list) option" where
  "parse_target ts =
     (if take 2 ts = [Word ''ON'', Word ''DATABASE''] then
        (case drop 2 ts of QuotedIdent n # r \<Rightarrow> Some (OnDatabase n, r) | _ \<Rightarrow> None)
      else if take 2 ts = [Word ''ON'', Word ''SCHEMA''] then
        (case drop 2 ts of QuotedIdent n # r \<Rightarrow> Some (OnSchema n, r) | _ \<Rightarrow> None)
      else if take 5 ts = [Word ''ON'', Word ''ALL'', Word ''TABLES'', Word ''IN'', Word ''SCHEMA''] then
        (case drop 5 ts of QuotedIdent n # r \<Rightarrow> Some (OnAllTables n, r) | _ \<Rightarrow> None)
      else None)"

lemma parse_target_tokens: "parse_target (target_tokens t @ r) = Some (t, r)"
  by (cases t) (simp_all add: parse_target_def)

definition parse_role :: "token list \<Rightarrow> (string \<times> string) option" where
  "parse_role ts = (case ts of
     [QuotedIdent n, a, b, c, StringConst p] \<Rightarrow>
       if [a, b, c] = [Word ''WITH'', Word ''LOGIN'', Word ''PASSWORD''] then Some (n, p) else None
   | _ \<Rightarrow> None)"

definition parse_name :: "token list \<Rightarrow> string option" where
  "parse_name ts = (case ts of [QuotedIdent n] \<Rightarrow> Some n | _ \<Rightarrow> None)"

definition parse_default :: "token list \<Rightarrow> stmt option" where
  "parse_default ts = (case ts of
     QuotedIdent s # v # r \<Rightarrow>
       (case parse_privileges r of (ps, q) \<Rightarrow>
          (case parse_name (drop 3 q) of
             None \<Rightarrow> None
           | Some role \<Rightarrow>
               if v = Word ''GRANT'' \<and> take 3 q = [Word ''ON'', Word ''TABLES'', Word ''TO'']
               then Some (DefaultGrantS ps s role)
               else if v = Word ''REVOKE'' \<and> take 3 q = [Word ''ON'', Word ''TABLES'', Word ''FROM'']
               then Some (DefaultRevokeS ps s role) else None))
   | _ \<Rightarrow> None)"

definition parse_grant :: "token list \<Rightarrow> stmt option" where
  "parse_grant ts = (case parse_privileges (tl ts) of (ps, q) \<Rightarrow>
     (case parse_target q of
        None \<Rightarrow> None
      | Some (t, r) \<Rightarrow>
          (case parse_name (tl r) of
             None \<Rightarrow> None
           | Some role \<Rightarrow>
               if hd ts = Word ''GRANT'' \<and> hd r = Word ''TO'' then Some (GrantS ps t role)
               else if hd ts = Word ''REVOKE'' \<and> hd r = Word ''FROM'' then Some (RevokeS ps t role) else None)))"

definition parse_stmt :: "token list \<Rightarrow> stmt option" where
  "parse_stmt ts =
     (let h = take 2 ts; r = drop 2 ts in
      if h = [Word ''CREATE'', Word ''DATABASE''] then map_option CreateDatabaseS (parse_name r)
      else if h = [Word ''DROP'', Word ''DATABASE''] then map_option DropDatabaseS (parse_name r)
      else if h = [Word ''DROP'', Word ''ROLE''] then map_option DropRoleS (parse_name r)
      else if h = [Word ''CREATE'', Word ''ROLE''] then map_option (\<lambda>(n, p). CreateRoleS n p) (parse_role r)
      else if h = [Word ''ALTER'', Word ''ROLE''] then map_option (\<lambda>(n, p). AlterRoleS n p) (parse_role r)
      else if take 5 ts = [Word ''ALTER'', Word ''DEFAULT'', Word ''PRIVILEGES'', Word ''IN'', Word ''SCHEMA'']
      then parse_default (drop 5 ts)
      else parse_grant ts)"

lemma parse_stmt_tokens: "wf_stmt st \<Longrightarrow> parse_stmt (stmt_tokens st) = Some st"
proof (cases st)
  case (GrantS ps t r)
  moreover obtain us where "target_tokens t = Word ''ON'' # us" by (cases t) auto
  ultimately show "parse_stmt (stmt_tokens st) = Some st" if "wf_stmt st"
    using that parse_privilege_tokens [of ps "us @ [Word ''TO'', QuotedIdent r]"]
      parse_target_tokens [of t "[Word ''TO'', QuotedIdent r]"]
    by (simp add: parse_stmt_def parse_grant_def parse_name_def)
next
  case (RevokeS ps t r)
  moreover obtain us where "target_tokens t = Word ''ON'' # us" by (cases t) auto
  ultimately show "parse_stmt (stmt_tokens st) = Some st" if "wf_stmt st"
    using that parse_privilege_tokens [of ps "us @ [Word ''FROM'', QuotedIdent r]"]
      parse_target_tokens [of t "[Word ''FROM'', QuotedIdent r]"]
    by (simp add: parse_stmt_def parse_grant_def parse_name_def)
next
  case (DefaultGrantS ps s r)
  then show "parse_stmt (stmt_tokens st) = Some st" if "wf_stmt st"
    using that parse_privilege_tokens [of ps "[Word ''TABLES'', Word ''TO'', QuotedIdent r]"]
    by (simp add: parse_stmt_def parse_default_def parse_name_def)
next
  case (DefaultRevokeS ps s r)
  then show "parse_stmt (stmt_tokens st) = Some st" if "wf_stmt st"
    using that parse_privilege_tokens [of ps "[Word ''TABLES'', Word ''FROM'', QuotedIdent r]"]
    by (simp add: parse_stmt_def parse_default_def parse_name_def)
qed (simp_all add: parse_stmt_def parse_name_def parse_role_def)

section \<open>The world\<close>

record ref_world =
  rw_pg :: pg_state
  rw_up :: bool
  rw_conns :: nat
  rw_now :: metav1_time
  rw_PostgreSQL :: "NamespacedName \<rightharpoonup> PostgreSQL"
  rw_Database :: "NamespacedName \<rightharpoonup> PostgreSQLDatabase"
  rw_User :: "NamespacedName \<rightharpoonup> PostgreSQLUser"
  rw_Grant :: "NamespacedName \<rightharpoonup> PostgreSQLGrant"
  rw_Secret :: "NamespacedName \<rightharpoonup> Secret"

definition not_found :: gerror where
  "not_found = StatusError ''NotFound'' ''not found''"

definition ref_Connect :: "string \<Rightarrow> ref_world \<Rightarrow> (gerror + pgx_conn) \<times> ref_world" where
  "ref_Connect dsn w =
     (if rw_up w then (Inr (rw_conns w), w\<lparr>rw_conns := Suc (rw_conns w)\<rparr>)
      else (Inl (DriverError ''connection refused''), w))"

definition ref_QueryRow :: "pgx_conn \<Rightarrow> string \<Rightarrow> string \<Rightarrow> ref_world \<Rightarrow> (gerror + bool) \<times> ref_world" where
  "ref_QueryRow c q arg w =
     (if q = databaseExistsQuery then (Inr (arg \<in> pg_databases (rw_pg w)), w)
      else if q = roleExistsQuery then (Inr (role_exists arg (rw_pg w)), w)
      else (Inl (DriverError ''unknown query''), w))"

definition ref_Exec :: "pgx_conn \<Rightarrow> string \<Rightarrow> ref_world \<Rightarrow> gerror option \<times> ref_world" where
  "ref_Exec c q w =
     (case Option.bind (Option.bind (sql_tokens True q) parse_stmt) (\<lambda>st. exec_stmt st (rw_pg w)) of
        None \<Rightarrow> (Some (DriverError ''statement failed''), w)
      | Some st \<Rightarrow> (None, w\<lparr>rw_pg := st\<rparr>))"

definition ref_get :: "'a option \<Rightarrow> ref_world \<Rightarrow> (gerror + 'a) \<times> ref_world" where
  "ref_get r w = (case r of None \<Rightarrow> (Inl not_found, w) | Some x \<Rightarrow> (Inr x, w))"

fun ref_IsNotFound :: "gerror \<Rightarrow> bool" where
  "ref_IsNotFound (StatusError reason text) = (reason = ''NotFound'')"
| "ref_IsNotFound (Wrapped prefix cause) = ref_IsNotFound cause"
| "ref_IsNotFound _ = False"

definition ref_AddFinalizer :: "ObjectMeta \<Rightarrow> string \<Rightarrow> ObjectMeta" where
  "ref_AddFinalizer m f = (if f \<in> set (om_Finalizers m) then m else m\<lparr>om_Finalizers := om_Finalizers m @ [f]\<rparr>)"

definition ref_RemoveFinalizer :: "ObjectMeta \<Rightarrow> string \<Rightarrow> ObjectMeta" where
  "ref_RemoveFinalizer m f = m\<lparr>om_Finalizers := filter (\<lambda>x. x \<noteq> f) (om_Finalizers m)\<rparr>"

text \<open>The first condition of the type is replaced, its time kept while its status stays; else appended.\<close>

fun ref_SetStatusCondition :: "Condition list \<Rightarrow> Condition \<Rightarrow> Condition list" where
  "ref_SetStatusCondition [] c = [c]"
| "ref_SetStatusCondition (x # xs) c =
     (if cond_Type x = cond_Type c then
        c\<lparr>cond_LastTransitionTime :=
            (if cond_Status x = cond_Status c then cond_LastTransitionTime x else cond_LastTransitionTime c)\<rparr> # xs
      else x # ref_SetStatusCondition xs c)"

fun ref_Status_Patch :: "client_object \<Rightarrow> client_object \<Rightarrow> ref_world \<Rightarrow> gerror option \<times> ref_world" where
  "ref_Status_Patch orig (PostgreSQL_object x) w =
     (None, w\<lparr>rw_PostgreSQL := (rw_PostgreSQL w)(object_key (pg_ObjectMeta x) \<mapsto> x)\<rparr>)"
| "ref_Status_Patch orig (Database_object x) w =
     (None, w\<lparr>rw_Database := (rw_Database w)(object_key (db_ObjectMeta x) \<mapsto> x)\<rparr>)"
| "ref_Status_Patch orig (User_object x) w =
     (None, w\<lparr>rw_User := (rw_User w)(object_key (user_ObjectMeta x) \<mapsto> x)\<rparr>)"
| "ref_Status_Patch orig (Grant_object x) w =
     (None, w\<lparr>rw_Grant := (rw_Grant w)(object_key (grant_ObjectMeta x) \<mapsto> x)\<rparr>)"

definition ref_deps :: "ref_world deps" where
  "ref_deps = \<lparr>
     pgx_Sanitize = ref_Sanitize,
     pgx_Connect = ref_Connect,
     pgx_Close = (\<lambda>c w. (None, w)),
     pgx_Ping = (\<lambda>c w. (None, w)),
     pgx_QueryRow = ref_QueryRow,
     pgx_Exec = ref_Exec,
     k8s_Get_PostgreSQL = (\<lambda>k w. ref_get (rw_PostgreSQL w k) w),
     k8s_Get_Database = (\<lambda>k w. ref_get (rw_Database w k) w),
     k8s_Get_User = (\<lambda>k w. ref_get (rw_User w k) w),
     k8s_Get_Grant = (\<lambda>k w. ref_get (rw_Grant w k) w),
     k8s_Get_Secret = (\<lambda>k w. ref_get (rw_Secret w k) w),
     k8s_Update_Database = (\<lambda>x w. (Inr x, w\<lparr>rw_Database := (rw_Database w)(object_key (db_ObjectMeta x) \<mapsto> x)\<rparr>)),
     k8s_Update_User = (\<lambda>x w. (Inr x, w\<lparr>rw_User := (rw_User w)(object_key (user_ObjectMeta x) \<mapsto> x)\<rparr>)),
     k8s_Update_Grant = (\<lambda>x w. (Inr x, w\<lparr>rw_Grant := (rw_Grant w)(object_key (grant_ObjectMeta x) \<mapsto> x)\<rparr>)),
     k8s_Status_Patch = ref_Status_Patch,
     metav1_Now = (\<lambda>w. (rw_now w, w)),
     rand_draw = (\<lambda>w. (0, w)),
     Time_IsZero = (\<lambda>t. t = None),
     IsNotFound = ref_IsNotFound,
     ContainsFinalizer = (\<lambda>m f. f \<in> set (om_Finalizers m)),
     AddFinalizer = ref_AddFinalizer,
     RemoveFinalizer = ref_RemoveFinalizer,
     SetStatusCondition = ref_SetStatusCondition,
     unicode_IsPrint = (\<lambda>r. True)\<rparr>"

lemma ref_deps_simps [simp]:
  "pgx_Sanitize ref_deps = ref_Sanitize" "pgx_Connect ref_deps = ref_Connect"
  "pgx_Close ref_deps = (\<lambda>c w. (None, w))" "pgx_Ping ref_deps = (\<lambda>c w. (None, w))"
  "pgx_QueryRow ref_deps = ref_QueryRow" "pgx_Exec ref_deps = ref_Exec"
  "k8s_Get_PostgreSQL ref_deps = (\<lambda>k w. ref_get (rw_PostgreSQL w k) w)"
  "k8s_Get_Database ref_deps = (\<lambda>k w. ref_get (rw_Database w k) w)"
  "k8s_Get_User ref_deps = (\<lambda>k w. ref_get (rw_User w k) w)"
  "k8s_Get_Grant ref_deps = (\<lambda>k w. ref_get (rw_Grant w k) w)"
  "k8s_Get_Secret ref_deps = (\<lambda>k w. ref_get (rw_Secret w k) w)"
  "k8s_Update_Database ref_deps =
     (\<lambda>x w. (Inr x, w\<lparr>rw_Database := (rw_Database w)(object_key (db_ObjectMeta x) \<mapsto> x)\<rparr>))"
  "k8s_Update_User ref_deps =
     (\<lambda>x w. (Inr x, w\<lparr>rw_User := (rw_User w)(object_key (user_ObjectMeta x) \<mapsto> x)\<rparr>))"
  "k8s_Update_Grant ref_deps =
     (\<lambda>x w. (Inr x, w\<lparr>rw_Grant := (rw_Grant w)(object_key (grant_ObjectMeta x) \<mapsto> x)\<rparr>))"
  "k8s_Status_Patch ref_deps = ref_Status_Patch" "metav1_Now ref_deps = (\<lambda>w. (rw_now w, w))"
  "rand_draw ref_deps = (\<lambda>w. (0, w))" "Time_IsZero ref_deps = (\<lambda>t. t = None)"
  "IsNotFound ref_deps = ref_IsNotFound" "ContainsFinalizer ref_deps = (\<lambda>m f. f \<in> set (om_Finalizers m))"
  "AddFinalizer ref_deps = ref_AddFinalizer" "RemoveFinalizer ref_deps = ref_RemoveFinalizer"
  "SetStatusCondition ref_deps = ref_SetStatusCondition" "unicode_IsPrint ref_deps = (\<lambda>r. True)"
  by (simp_all add: ref_deps_def)

lemma queries_differ: "databaseExistsQuery \<noteq> roleExistsQuery"
  by (simp add: databaseExistsQuery_def roleExistsQuery_def)

lemma ref_pg_server: "pg_server True ref_deps (\<lambda>c w. rw_pg w)"
  unfolding pg_server_def
proof (intro conjI allI impI)
  fix c q st and w w' :: ref_world
  assume "pgx_Exec ref_deps c q w = (None, w')" "wf_stmt st" "lexes_to True q (stmt_tokens st)"
  then show "exec_stmt st (rw_pg w) = Some (rw_pg w')"
    by (auto simp: ref_Exec_def lexes_to_def parse_stmt_tokens split: option.splits)
next
  fix c q and w w' :: ref_world
  assume "pgx_Exec ref_deps c q w = (None, w')"
  then obtain ts where "sql_tokens True q = Some ts" by (cases "sql_tokens True q") (auto simp: ref_Exec_def)
  then show "nul_free q" by (rule sql_tokens_nul)
qed (use queries_differ in \<open>auto simp: ref_QueryRow_def\<close>)

lemma ref_sanitize: "sanitize_ok (pgx_Sanitize ref_deps)"
  by (simp add: ref_Sanitize_ok)

section \<open>Runs of the SQL operations in this world\<close>

text \<open>The server of this world is up in every state.\<close>

interpretation ref: idle_server True ref_deps "\<lambda>c w. rw_pg w" "\<lambda>w. True"
proof
  fix w w' :: ref_world and c q n rb
  assume "q \<in> {databaseExistsQuery, roleExistsQuery}" "pgx_QueryRow ref_deps c q n w = (rb, w')"
  then show "(\<exists>b. rb = Inr b) \<and> True" using queries_differ by (auto simp: ref_QueryRow_def)
next
  fix w w' :: ref_world and st c q re
  assume a: "wf_stmt st" "lexes_to True q (stmt_tokens st)" "pgx_Exec ref_deps c q w = (re, w')"
  then have "Option.bind (Option.bind (sql_tokens True q) parse_stmt) (\<lambda>st. exec_stmt st (rw_pg w)) = exec_stmt st (rw_pg w)"
    by (simp add: lexes_to_def parse_stmt_tokens)
  with a(3) show "True \<and> (exec_stmt st (rw_pg w) \<noteq> None \<and> accepted st \<longrightarrow> re = None) \<and> (re \<noteq> None \<longrightarrow> rw_pg w' = rw_pg w)"
    by (auto simp: ref_Exec_def split: option.splits)
next
  fix w w' :: ref_world and st c q re
  assume "lexes_to True q (stmt_tokens st)" "wf_stmt st" "exec_stmt st (rw_pg w) \<noteq> None" "pgx_Exec ref_deps c q w = (re, w')"
  then show "re = None" by (auto simp: ref_Exec_def lexes_to_def parse_stmt_tokens split: option.splits)
qed (rule ref_pg_server ref_sanitize)+

lemma ref_CreateDatabase: "pg_name n \<Longrightarrow> plain_text n \<Longrightarrow> \<exists>s'. CreateDatabase ref_deps c n s = (None, s')"
  by (metis ref.CreateDatabase_succeeds(1) surj_pair)

lemma ref_DropDatabase: "pg_name n \<Longrightarrow> \<exists>s'. DropDatabase ref_deps c n s = (None, s')"
  by (metis ref.DropDatabase_succeeds(1) surj_pair)

lemma ref_CreateOrUpdateRole: "pg_name n \<Longrightarrow> free_role n \<Longrightarrow> plain_text p \<Longrightarrow> \<exists>s'. CreateOrUpdateRole ref_deps c n p s = (None, s')"
  by (metis ref.CreateOrUpdateRole_succeeds(1) surj_pair)

lemma ref_DropRole:
  "pg_name n \<Longrightarrow> n \<notin> (\<lambda>x. snd (snd x)) ` pg_acl (rw_pg (ext s)) \<Longrightarrow>
   \<exists>s'. DropRole ref_deps c n s = (None, s')"
  by (metis ref.DropRole_succeeds(1) surj_pair)

lemma ref_GrantPrivileges:
  assumes "good_opts ps opts" "plain_names opts" "all_privileges ps" "grantable opts (rw_pg (ext s))"
  shows "\<exists>s'. GrantPrivileges ref_deps c opts s = (None, s')"
  using ref.GrantPrivileges_up(4) [OF _ assms(1) _ assms(3), of c s] assms(2,4) by (metis surj_pair)

lemma ref_RevokePrivileges:
  assumes "good_opts ps opts" "plain_names opts" "all_privileges ps" "grantable opts (rw_pg (ext s))"
  shows "\<exists>s'. RevokePrivileges ref_deps c opts s = (None, s')"
  using ref.RevokePrivileges_up(4) [OF _ assms(1) _ assms(3), of c s] assms(2,4) by (metis surj_pair)

section \<open>A sample\<close>

definition sample_pg :: pg_state where
  "sample_pg = \<lparr>pg_databases = {''postgres'', ''app''}, pg_roles = [''alice'' \<mapsto> (True, ''old'')],
     pg_schemas = {''public''}, pg_tables = {(''public'', ''items'')}, pg_acl = {}\<rparr>"

definition sample_opts :: GrantOpts where
  "sample_opts = \<lparr>go_Privileges = [''ALL PRIVILEGES''], go_Database = ''app'', go_Schema = ''public'',
     go_Role = ''alice''\<rparr>"

lemma sample_good: "good_opts [[''ALL'', ''PRIVILEGES'']] sample_opts"
  by (simp add: good_opts_def sample_opts_def privilege_text_def privileges_ok_def grantee_def pg_name_def upper_words)

lemma sample_all: "all_privileges [[''ALL'', ''PRIVILEGES'']]"
  by (simp add: all_privileges_def upper_words)

lemma sample_grantable: "pg_databases st = pg_databases sample_pg \<Longrightarrow> pg_schemas st = pg_schemas sample_pg \<Longrightarrow>
    pg_roles st = pg_roles sample_pg \<Longrightarrow> grantable sample_opts st"
  by (simp add: grantable_def sample_opts_def sample_pg_def role_exists_def)

lemma sample_names: "pg_name ''app''" "pg_name ''shop''" "pg_name ''alice''" "pg_name ''bob''"
  by (simp_all add: pg_name_def)

lemma sample_texts:
  "plain_text ''app''" "plain_text ''shop''" "free_role ''alice''" "free_role ''bob''" "plain_text ''secret''"
  "plain_text [backslash]" "plain_names sample_opts"
  by (simp_all add: plain_text_def free_role_def plain_names_def sample_opts_def in_range_def byte_def backslash_def)

definition sample_meta :: "string \<Rightarrow> string list \<Rightarrow> metav1_time option \<Rightarrow> ObjectMeta" where
  "sample_meta name fins del = \<lparr>om_Name = name, om_Namespace = ''team'', om_Generation = 1,
     om_DeletionTimestamp = del, om_Finalizers = fins\<rparr>"

definition sample_tmpl :: "CleanupPolicy \<Rightarrow> SQLTemplate" where
  "sample_tmpl policy = \<lparr>RequeueInterval = None, RetryInterval = None, CleanupPolicy = policy\<rparr>"

definition sample_ref :: PostgresRef where
  "sample_ref = \<lparr>ref_Name = ''pg'', ref_Namespace = ''infra''\<rparr>"

definition sample_PostgreSQL :: PostgreSQL where
  "sample_PostgreSQL = \<lparr>pg_TypeMeta = \<lparr>tm_Kind = ''PostgreSQL'', tm_APIVersion = ''db.zernico.de/v1alpha1''\<rparr>,
     pg_ObjectMeta = (sample_meta ''pg'' [] None)\<lparr>om_Namespace := ''infra''\<rparr>,
     pg_Spec = \<lparr>pgs_Host = ''db'', pgs_Port = 5432, pgs_Database = ''postgres'', pgs_SuperuserUsername = ''root'',
                pgs_SuperuserSecretKeyRef = \<lparr>skr_Name = ''pg'', skr_Key = ''password''\<rparr>\<rparr>,
     pg_Status = \<lparr>pgst_Conditions = []\<rparr>\<rparr>"

definition sample_Database :: "CleanupPolicy \<Rightarrow> string list \<Rightarrow> metav1_time option \<Rightarrow> PostgreSQLDatabase" where
  "sample_Database policy fins del =
     \<lparr>db_TypeMeta = \<lparr>tm_Kind = ''PostgreSQLDatabase'', tm_APIVersion = ''db.zernico.de/v1alpha1''\<rparr>,
      db_ObjectMeta = sample_meta ''shop'' fins del,
      db_Spec = \<lparr>dbs_SQLTemplate = sample_tmpl policy, dbs_PostgresRef = sample_ref, dbs_Name = []\<rparr>,
      db_Status = \<lparr>dbst_Conditions = []\<rparr>\<rparr>"

definition sample_User :: "CleanupPolicy \<Rightarrow> string list \<Rightarrow> metav1_time option \<Rightarrow> PostgreSQLUser" where
  "sample_User policy fins del =
     \<lparr>user_TypeMeta = \<lparr>tm_Kind = ''PostgreSQLUser'', tm_APIVersion = ''db.zernico.de/v1alpha1''\<rparr>,
      user_ObjectMeta = sample_meta ''bob'' fins del,
      user_Spec = \<lparr>us_SQLTemplate = sample_tmpl policy, us_PostgresRef = sample_ref, us_Name = [],
                   us_PasswordSecretKeyRef = \<lparr>skr_Name = ''bob'', skr_Key = ''password''\<rparr>\<rparr>,
      user_Status = \<lparr>ust_Conditions = []\<rparr>\<rparr>"

definition sample_Grant :: "CleanupPolicy \<Rightarrow> string list \<Rightarrow> metav1_time option \<Rightarrow> PostgreSQLGrant" where
  "sample_Grant policy fins del =
     \<lparr>grant_TypeMeta = \<lparr>tm_Kind = ''PostgreSQLGrant'', tm_APIVersion = ''db.zernico.de/v1alpha1''\<rparr>,
      grant_ObjectMeta = sample_meta ''alice-app'' fins del,
      grant_Spec = \<lparr>gs_SQLTemplate = sample_tmpl policy, gs_PostgresRef = sample_ref,
                    gs_Privileges = [''ALL PRIVILEGES''], gs_Database = ''app'', gs_Schema = ''public'',
                    gs_Role = ''alice''\<rparr>,
      grant_Status = \<lparr>gst_Conditions = []\<rparr>\<rparr>"

text \<open>A world with one object of each kind; \<open>secrets\<close> are the secrets of the namespace \<open>infra\<close>.\<close>

definition sample_secret :: "string \<Rightarrow> Secret" where
  "sample_secret password = \<lparr>secret_Data = [''password'' \<mapsto> password]\<rparr>"

definition sample_world ::
  "(NamespacedName \<rightharpoonup> Secret) \<Rightarrow> CleanupPolicy \<Rightarrow> string list \<Rightarrow> metav1_time option \<Rightarrow> ref_world" where
  "sample_world secrets policy fins del =
     \<lparr>rw_pg = sample_pg, rw_up = True, rw_conns = 0, rw_now = 7,
      rw_PostgreSQL = [\<lparr>nn_Namespace = ''infra'', nn_Name = ''pg''\<rparr> \<mapsto> sample_PostgreSQL],
      rw_Database = [\<lparr>nn_Namespace = ''team'', nn_Name = ''shop''\<rparr> \<mapsto> sample_Database policy fins del],
      rw_User = [\<lparr>nn_Namespace = ''team'', nn_Name = ''bob''\<rparr> \<mapsto> sample_User policy fins del],
      rw_Grant = [\<lparr>nn_Namespace = ''team'', nn_Name = ''alice-app''\<rparr> \<mapsto> sample_Grant policy fins del],
      rw_Secret = secrets\<rparr>"

definition sample_secrets :: "NamespacedName \<rightharpoonup> Secret" where
  "sample_secrets =
     [\<lparr>nn_Namespace = ''infra'', nn_Name = ''pg''\<rparr> \<mapsto> sample_secret ''root'',
      \<lparr>nn_Namespace = ''team'', nn_Name = ''bob''\<rparr> \<mapsto> sample_secret ''secret'']"

definition sample_start :: "ref_world world" where
  "sample_start = \<lparr>ext = sample_world sample_secrets CleanupPolicyDelete [] None, trace = []\<rparr>"

lemma sample_start_pg [simp]: "rw_pg (ext sample_start) = sample_pg"
  by (simp add: sample_start_def sample_world_def)

end
