(* ===== verification/DsnReader.thy ===== *)
theory DsnReader
  imports SqlClient
begin

text \<open>
  An executable reader of keyword/value connection strings that satisfies \<open>dsn_reader\<close> (for the
  witnesses), and what the operator's connection string is read as: for plain values as the
  settings meant; with an empty password, or with blanks in the database name, as others.
\<close>

section \<open>A reader\<close>

function ref_dsn :: "string \<Rightarrow> (string \<rightharpoonup> string) option" where
  "ref_dsn s =
     (let s1 = dropWhile is_space s in
      case dropWhile (\<lambda>c. c \<noteq> CHR ''='') s1 of
        [] \<Rightarrow> None
      | _ # r \<Rightarrow>
          (let k = takeWhile (\<lambda>c. c \<noteq> CHR ''='') s1; r1 = dropWhile is_space r;
               v = takeWhile (\<lambda>c. \<not> is_space c) r1; r2 = dropWhile (\<lambda>c. \<not> is_space c) r1 in
           if list_all is_space r2 then Some [k \<mapsto> v]
           else map_option (\<lambda>m. [k \<mapsto> v] ++ m) (ref_dsn r2)))"
  by pat_completeness auto
termination
proof (relation "measure length", simp)
  fix s s1 x r k r1 v r2
  assume a: "s1 = dropWhile is_space s" "dropWhile (\<lambda>c. c \<noteq> CHR ''='') s1 = x # r"
    "r1 = dropWhile is_space r" "r2 = dropWhile (\<lambda>c. \<not> is_space c) r1"
  have "length r2 \<le> length r" unfolding a(3,4)
    by (rule order_trans [OF length_dropWhile_le length_dropWhile_le])
  also have "length (x # r) \<le> length s1" unfolding a(2) [symmetric] by (rule length_dropWhile_le)
  then have "length r < length s1" by simp
  also have "length s1 \<le> length s" unfolding a(1) by (rule length_dropWhile_le)
  finally show "(r2, s) \<in> measure length" by simp
qed

declare ref_dsn.simps [simp del]

lemma setting_key_chars: "setting_key k \<Longrightarrow> c \<in> set k \<Longrightarrow> c \<noteq> CHR ''='' \<and> \<not> is_space c"
  by (auto simp: setting_key_def list_all_iff in_range_def byte_def is_space_def)

lemma ref_dsn_key:
  assumes "setting_key k"
  shows "ref_dsn (k @ CHR ''='' # r) =
    (let r1 = dropWhile is_space r; v = takeWhile (\<lambda>c. \<not> is_space c) r1;
         r2 = dropWhile (\<lambda>c. \<not> is_space c) r1 in
     if list_all is_space r2 then Some [k \<mapsto> v] else map_option (\<lambda>m. [k \<mapsto> v] ++ m) (ref_dsn r2))"
proof -
  from assms obtain c k' where k: "k = c # k'" by (cases k) (auto simp: setting_key_def)
  then have "\<not> is_space c" using setting_key_chars [OF assms] by simp
  then have "dropWhile is_space (k @ CHR ''='' # r) = k @ CHR ''='' # r" by (simp add: k)
  moreover have "\<And>x. x \<in> set k \<Longrightarrow> x \<noteq> CHR ''=''" using setting_key_chars [OF assms] by blast
  ultimately show ?thesis
    by (simp add: ref_dsn.simps [of "k @ CHR ''='' # r"] Let_def dropWhile_append2 takeWhile_append2)
qed

lemma plain_no_space: "plain_value v \<Longrightarrow> x \<in> set v \<Longrightarrow> \<not> is_space x"
  by (auto simp: plain_value_def list_all_iff plain_char_def)

lemma plain_dropWhile: "plain_value v \<Longrightarrow> dropWhile is_space (v @ r) = v @ r"
  by (cases v) (auto simp: plain_value_def plain_char_def)

lemma blank_space: "is_space (CHR '' '')"
  by (simp add: is_space_def byte_def)

lemma ref_dsn_blank: "ref_dsn (CHR '' '' # r) = ref_dsn r"
  by (simp add: ref_dsn.simps [of "CHR '' '' # r"] ref_dsn.simps [of r] blank_space)

lemma ref_dsn_spaces: "list_all is_space r \<Longrightarrow> ref_dsn r = None"
proof -
  assume "list_all is_space r"
  then have "dropWhile is_space r = []" by (simp add: list_all_iff)
  then show ?thesis unfolding ref_dsn.simps [of r] Let_def by (simp only: dropWhile.simps list.case)
qed

lemma ref_dsn_reader: "dsn_reader ref_dsn"
  unfolding dsn_reader_def
proof (intro conjI allI impI)
  fix k v :: string
  assume k: "setting_key k" and v: "plain_value v"
  note p = plain_dropWhile [OF v, of "[]"] plain_no_space [OF v]
  have tw: "takeWhile (\<lambda>c. \<not> is_space c) v = v" using p by (simp add: takeWhile_eq_all_conv)
  have dw: "dropWhile (\<lambda>c. \<not> is_space c) v = []" using p by (simp add: dropWhile_eq_Nil_conv)
  from p(1) have "dropWhile is_space v = v" by simp
  then show "ref_dsn (k @ ''='' @ v) = Some [k \<mapsto> v]"
    by (simp add: ref_dsn_key [OF k] Let_def tw dw)
  fix rest m
  assume m: "ref_dsn rest = Some m"
  then have "\<not> list_all is_space rest" using ref_dsn_spaces by fastforce
  with m p plain_dropWhile [OF v, of "'' '' @ rest"]
  show "ref_dsn (k @ ''='' @ v @ '' '' @ rest) = Some ([k \<mapsto> v] ++ m)"
    by (simp add: ref_dsn_key [OF k] Let_def takeWhile_append2 dropWhile_append2 blank_space ref_dsn_blank)
next
  fix k rest :: string
  assume k: "setting_key k"
  show "ref_dsn (k @ ''= '' @ rest) = ref_dsn (k @ ''='' @ rest)"
    using ref_dsn_key [OF k, of "CHR '' '' # rest"] ref_dsn_key [OF k, of rest] by (simp add: blank_space)
qed

section \<open>How the connection string is read\<close>

definition plain_config :: "ConnectConfig \<Rightarrow> bool" where
  "plain_config cfg \<longleftrightarrow> plain_value (cc_Host cfg) \<and> plain_value (cc_Database cfg) \<and>
     plain_value (cc_Username cfg) \<and> plain_value (cc_Password cfg)"

definition config_settings :: "ConnectConfig \<Rightarrow> string \<rightharpoonup> string" where
  "config_settings cfg =
     [''host'' \<mapsto> cc_Host cfg, ''port'' \<mapsto> fmt_d (sint (cc_Port cfg)), ''dbname'' \<mapsto> cc_Database cfg,
      ''user'' \<mapsto> cc_Username cfg, ''password'' \<mapsto> cc_Password cfg, ''sslmode'' \<mapsto> ''disable'']"

lemma connStr_plain:
  assumes "dsn_reader parse" "plain_config cfg"
  shows "parse (connStr cfg) = Some (config_settings cfg)"
proof -
  from assms(2) have v: "plain_value (cc_Host cfg)" "plain_value (cc_Database cfg)"
    "plain_value (cc_Username cfg)" "plain_value (cc_Password cfg)" by (auto simp: plain_config_def)
  note t = dsn_tail [OF assms(1) v(3,4)]
  have "parse (''dbname'' @ ''='' @ cc_Database cfg @ '' '' @ ''user='' @ cc_Username cfg @ '' password=''
      @ cc_Password cfg @ '' sslmode=disable'')
    = Some [''sslmode'' \<mapsto> ''disable'', ''password'' \<mapsto> cc_Password cfg, ''user'' \<mapsto> cc_Username cfg,
            ''dbname'' \<mapsto> cc_Database cfg]"
    by (rule dsn_more_new [OF assms(1) _ v(2) t]) simp_all
  from dsn_head [OF assms(1) v(1) this, of "sint (cc_Port cfg)"]
  have "parse (connStr cfg) = Some [''sslmode'' \<mapsto> ''disable'', ''password'' \<mapsto> cc_Password cfg,
      ''user'' \<mapsto> cc_Username cfg, ''dbname'' \<mapsto> cc_Database cfg,
      ''port'' \<mapsto> fmt_d (sint (cc_Port cfg)), ''host'' \<mapsto> cc_Host cfg]"
    by (simp add: connStr_def fun_eq_iff)
  then show ?thesis by (auto simp: config_settings_def fun_eq_iff)
qed

text \<open>A database name with a blank brings settings of its own, here a host.\<close>

lemma connStr_redirected:
  assumes "dsn_reader parse" "plain_config cfg" "plain_value evil"
  shows "parse (connStr (cfg\<lparr>cc_Database := cc_Database cfg @ '' host='' @ evil\<rparr>))
    = Some ((config_settings cfg)(''host'' \<mapsto> evil))"
proof -
  from assms(2) have v: "plain_value (cc_Host cfg)" "plain_value (cc_Database cfg)"
    "plain_value (cc_Username cfg)" "plain_value (cc_Password cfg)" by (auto simp: plain_config_def)
  note t = dsn_tail [OF assms(1) v(3,4)]
  let ?tail = "''user='' @ cc_Username cfg @ '' password='' @ cc_Password cfg @ '' sslmode=disable''"
  let ?m = "[''sslmode'' \<mapsto> ''disable'', ''password'' \<mapsto> cc_Password cfg, ''user'' \<mapsto> cc_Username cfg,
    ''host'' \<mapsto> evil, ''dbname'' \<mapsto> cc_Database cfg, ''port'' \<mapsto> fmt_d (sint (cc_Port cfg))]"
  have h: "parse (''host'' @ ''='' @ evil @ '' '' @ ?tail)
    = Some [''sslmode'' \<mapsto> ''disable'', ''password'' \<mapsto> cc_Password cfg, ''user'' \<mapsto> cc_Username cfg, ''host'' \<mapsto> evil]"
    by (rule dsn_more_new [OF assms(1) _ assms(3) t]) simp_all
  have d: "parse (''dbname'' @ ''='' @ cc_Database cfg @ '' '' @ ''host'' @ ''='' @ evil @ '' '' @ ?tail)
    = Some [''sslmode'' \<mapsto> ''disable'', ''password'' \<mapsto> cc_Password cfg, ''user'' \<mapsto> cc_Username cfg, ''host'' \<mapsto> evil,
            ''dbname'' \<mapsto> cc_Database cfg]"
    by (rule dsn_more_new [OF assms(1) _ v(2) h]) simp_all
  have p: "parse (''port'' @ ''='' @ fmt_d (sint (cc_Port cfg)) @ '' '' @ ''dbname'' @ ''='' @ cc_Database cfg @ '' ''
      @ ''host'' @ ''='' @ evil @ '' '' @ ?tail) = Some ?m"
    by (rule dsn_more_new [OF assms(1) _ plain_fmt_d d]) simp_all
  have "parse (''host'' @ ''='' @ cc_Host cfg @ '' '' @ ''port'' @ ''='' @ fmt_d (sint (cc_Port cfg)) @ '' ''
      @ ''dbname'' @ ''='' @ cc_Database cfg @ '' '' @ ''host'' @ ''='' @ evil @ '' '' @ ?tail) = Some ?m"
    by (rule dsn_more_old [OF assms(1) _ v(1) p]) simp_all
  then have "parse (connStr (cfg\<lparr>cc_Database := cc_Database cfg @ '' host='' @ evil\<rparr>)) = Some ?m"
    by (simp add: connStr_def)
  moreover have "?m = (config_settings cfg)(''host'' \<mapsto> evil)" by (auto simp: config_settings_def fun_eq_iff)
  ultimately show ?thesis by simp
qed

text \<open>An empty password: the setting behind it becomes the password.\<close>

lemma connStr_no_password:
  assumes "dsn_reader parse" "plain_config cfg"
  shows "parse (connStr (cfg\<lparr>cc_Password := []\<rparr>))
    = Some ((config_settings cfg)(''password'' \<mapsto> ''sslmode=disable'', ''sslmode'' := None))"
proof -
  from assms(2) have v: "plain_value (cc_Host cfg)" "plain_value (cc_Database cfg)" "plain_value (cc_Username cfg)"
    by (auto simp: plain_config_def)
  have p: "parse (''password'' @ ''= '' @ ''sslmode=disable'') = Some [''password'' \<mapsto> ''sslmode=disable'']"
    unfolding dsn_blank [OF assms(1) setting_keys(5)] by (rule dsn_last [OF assms(1) setting_keys(5) plain_disable(2)])
  have u: "parse (''user'' @ ''='' @ cc_Username cfg @ '' '' @ ''password'' @ ''= '' @ ''sslmode=disable'')
    = Some [''password'' \<mapsto> ''sslmode=disable'', ''user'' \<mapsto> cc_Username cfg]"
    by (rule dsn_more_new [OF assms(1) _ v(3) p]) simp_all
  have d: "parse (''dbname'' @ ''='' @ cc_Database cfg @ '' '' @ ''user'' @ ''='' @ cc_Username cfg @ '' '' @ ''password''
      @ ''= '' @ ''sslmode=disable'')
    = Some [''password'' \<mapsto> ''sslmode=disable'', ''user'' \<mapsto> cc_Username cfg, ''dbname'' \<mapsto> cc_Database cfg]"
    by (rule dsn_more_new [OF assms(1) _ v(2) u]) simp_all
  from dsn_head [OF assms(1) v(1) d, of "sint (cc_Port cfg)"]
  have "parse (connStr (cfg\<lparr>cc_Password := []\<rparr>)) = Some [''password'' \<mapsto> ''sslmode=disable'',
      ''user'' \<mapsto> cc_Username cfg, ''dbname'' \<mapsto> cc_Database cfg,
      ''port'' \<mapsto> fmt_d (sint (cc_Port cfg)), ''host'' \<mapsto> cc_Host cfg]"
    by (simp add: connStr_def fun_eq_iff)
  then show ?thesis by (auto simp: config_settings_def fun_eq_iff)
qed

end
