(* ===== verification/SqlProperties.thy ===== *)
theory SqlProperties
  imports RefWorld DsnReader
begin

text \<open>
  The properties of \<open>internal/sql\<close>: what its statements are read as, which abstract operation each of
  its operations implements on a cluster, which calls it makes, and how its connection string is
  read. A property about the cluster assumes the contract \<open>pg_server\<close> and names PostgreSQL takes as
  they are; its witness runs the operation in the world of \<open>RefWorld\<close>.
\<close>

section \<open>Literals\<close>

text \<open>C17: \<open>quoteLiteral\<close> turns every password without the character with code zero into exactly one string
constant, with \<open>standard_conforming_strings\<close> on or off, and what follows it is read as if it stood alone:
nothing of the password is read as SQL. Off, the constant denotes the password. A text with the literal
of any other password is not read at all.\<close>

theorem literal_injection_free:
  "(nul_free p \<longrightarrow> (\<forall>rest ts. \<not> starts_with (\<lambda>c. c = sq) rest \<longrightarrow> lexes_to std rest ts \<longrightarrow>
      lexes_to std (quoteLiteral p @ rest) (StringConst (stored_value std p) # ts))) \<and>
   stored_value False p = p \<and>
   (\<not> nul_free p \<longrightarrow> (\<forall>before behind ts. \<not> lexes_to std (before @ quoteLiteral p @ behind) ts))"
proof (intro conjI impI allI)
  fix rest ts
  assume "nul_free p" "\<not> starts_with (\<lambda>c. c = sq) rest" "lexes_to std rest ts"
  then show "lexes_to std (quoteLiteral p @ rest) (StringConst (stored_value std p) # ts)" by (intro lexes_quoteLiteral)
next
  show "stored_value False p = p" by (simp add: stored_value_def)
next
  fix before behind ts
  assume "\<not> nul_free p"
  then show "\<not> lexes_to std (before @ quoteLiteral p @ behind) ts"
    using lexes_nul [of std "before @ quoteLiteral p @ behind" ts] by (auto simp: quoteLiteral_nul)
qed

theorem literal_injection_free_witness:
  "lexes_to True (quoteLiteral [sq, CHR '';'', backslash]) [StringConst [sq, CHR '';'', backslash, backslash]] \<and>
   \<not> lexes_to True (''SELECT '' @ quoteLiteral [CHR 0x00]) [Word ''SELECT'', StringConst [CHR 0x00]]"
proof
  let ?p = "[sq, CHR '';'', backslash]"
  have "nul_free ?p" by (simp add: sq_def backslash_def)
  from conjunct1 [OF literal_injection_free, rule_format, OF this _ lexes_Nil]
  have "lexes_to True (quoteLiteral ?p @ []) [StringConst (stored_value True ?p)]" by (simp only: starts_with_simps simp_thms)
  moreover have "stored_value True ?p = [sq, CHR '';'', backslash, backslash]" by (simp add: sq_def backslash_def)
  ultimately show "lexes_to True (quoteLiteral ?p) [StringConst [sq, CHR '';'', backslash, backslash]]"
    by (simp only: append_Nil2)
  have "\<not> nul_free [CHR 0x00]" by simp
  from conjunct2 [OF conjunct2 [OF literal_injection_free], rule_format, OF this, of True "''SELECT ''" "[]"]
  show "\<not> lexes_to True (''SELECT '' @ quoteLiteral [CHR 0x00]) [Word ''SELECT'', StringConst [CHR 0x00]]" by simp
qed

text \<open>C18: With \<open>standard_conforming_strings\<close> on, PostgreSQL's default, the literal is a constant that denotes
the password exactly when that has no backslash (and not the character with code zero, which no constant
can hold): \<open>escapeString\<close> doubles every backslash and the server keeps both.\<close>

theorem literal_verbatim_iff:
  "lexes_to True (quoteLiteral p) [StringConst p] \<longleftrightarrow> backslash \<notin> set p \<and> nul_free p"
proof (cases "nul_free p")
  case True
  with lexes_literal_last [OF True, of True] stored_value_id [of p] show ?thesis by (auto simp: lexes_to_def)
next
  case False
  with lexes_nul [of True "quoteLiteral p"] show ?thesis by (auto simp: quoteLiteral_nul)
qed

text \<open>The loop of \<open>escapeString\<close> doubles each quote and each backslash, copies every other byte,
and so at most doubles the length.\<close>

theorem escapeString_spec:
  "escapeString s = concat (map escape_char s) \<and>
   length (escapeString s) = length s + count_list s sq + count_list s backslash \<and>
   length (escapeString s) \<le> 2 * length s"
proof -
  have "count_list s sq + count_list s backslash \<le> length s" by (induction s) auto
  then show ?thesis by (simp add: escapeString_eq [symmetric] escapeString_length)
qed

section \<open>Statements\<close>



text \<open>C23: Privileges are pasted into the statement as they are. For any sequence of tokens of the reference
lexer (words and numbers, quoted identifiers that are not empty, constants, symbols of one character other
than the dollar sign, none with the character with code zero) there is a privilege text that makes the
first grant that sequence, behind the word \<open>GRANT\<close> and followed by a semicolon, when the names of the
database and the role hold no line feed: a resource can run any SQL of such tokens with the superuser's
rights.\<close>

theorem privileges_inject:
  assumes "go_Privileges opts = [print_tokens std ts @ ''; --'']" "list_all printable ts" "sanitize_ok (pgx_Sanitize d)"
    and "CHR 0x0A \<notin> set (pgx_Sanitize d [go_Database opts])" "CHR 0x0A \<notin> set (pgx_Sanitize d [go_Role opts])"
  shows "lexes_to std (hd (grant_statements d opts)) (Word ''GRANT'' # ts @ [Symbol (CHR '';'')])"
  using injected_lex [OF assms] by (simp add: grant_statements_def)

definition evil_tokens :: "token list" where
  "evil_tokens = [Word ''ALL'', Word ''ON'', Word ''DATABASE'', QuotedIdent ''app'', Word ''TO'', QuotedIdent ''bob'',
     Symbol (CHR '';''), Word ''ALTER'', Word ''ROLE'', QuotedIdent ''bob'', Word ''SUPERUSER'', Symbol (CHR '';''),
     Word ''SELECT'', Symbol (CHR ''*''), Word ''FROM'', Word ''a'', Symbol (CHR ''.''), Word ''b'',
     Word ''WHERE'', Word ''x'', Symbol (CHR ''=''), StringConst [backslash]]"

theorem privileges_inject_witness:
  "lexes_to True (hd (grant_statements ref_deps (sample_opts\<lparr>go_Privileges := [print_tokens True evil_tokens @ ''; --'']\<rparr>)))
     (Word ''GRANT'' # evil_tokens @ [Symbol (CHR '';'')])"
proof (rule privileges_inject)
  show "list_all printable evil_tokens"
    by (simp add: evil_tokens_def keyword_def symbol_char_def is_space_def is_word_char_def in_range_def byte_def
      sq_def dq_def backslash_def)
  show "sanitize_ok (pgx_Sanitize ref_deps)" by (rule ref_sanitize)
qed (simp_all add: sample_opts_def ref_Sanitize_def dq_def)

section \<open>Refinement\<close>

text \<open>\<open>CreateDatabase\<close> that reports success leaves a cluster with that database added and nothing
else changed, whether it existed or not.\<close>

theorem CreateDatabase_refines:
  assumes "pg_server std d view" "sanitize_ok (pgx_Sanitize d)" "pg_name n"
    and "CreateDatabase d c n s = (None, s')"
  shows "view (conn c) (ext s') = ensure_database n (view (conn c) (ext s))"
  using assms by (rule CreateDatabase_abs)

theorem CreateDatabase_refines_witness:
  "\<exists>s'. CreateDatabase ref_deps \<lparr>conn = 0\<rparr> ''shop'' sample_start = (None, s') \<and>
     pg_databases (rw_pg (ext s')) = {''shop'', ''postgres'', ''app''}"
proof -
  obtain s' where s': "CreateDatabase ref_deps \<lparr>conn = 0\<rparr> ''shop'' sample_start = (None, s')"
    using ref_CreateDatabase [OF sample_names(2) sample_texts(2)] by blast
  from CreateDatabase_refines [OF ref_pg_server ref_sanitize sample_names(2) s'] s' show ?thesis
    by (simp add: ensure_database_def sample_pg_def)
qed

text \<open>C19: \<open>CreateOrUpdateRole\<close> that reports success leaves a login role of that name with the value the
server reads for the password, whether the role existed or not, and changes nothing else.\<close>

theorem CreateOrUpdateRole_refines:
  assumes "pg_server std d view" "sanitize_ok (pgx_Sanitize d)" "pg_name n"
    and "CreateOrUpdateRole d c n p s = (None, s')"
  shows "view (conn c) (ext s') = ensure_role n (stored_value std p) (view (conn c) (ext s))"
  using assms by (rule CreateOrUpdateRole_abs)

theorem CreateOrUpdateRole_refines_witness:
  "\<exists>s'. CreateOrUpdateRole ref_deps \<lparr>conn = 0\<rparr> ''alice'' [backslash] sample_start = (None, s') \<and>
     pg_roles (rw_pg (ext s')) ''alice'' = Some (True, [backslash, backslash])"
proof -
  obtain s' where s': "CreateOrUpdateRole ref_deps \<lparr>conn = 0\<rparr> ''alice'' [backslash] sample_start = (None, s')"
    using ref_CreateOrUpdateRole [OF sample_names(3) sample_texts(3,6)] by blast
  from CreateOrUpdateRole_refines [OF ref_pg_server ref_sanitize sample_names(3) s'] s' show ?thesis
    by (simp add: ensure_role_def)
qed

text \<open>\<open>CreateDatabase\<close> is idempotent: run again after a success it only asks whether the database
exists, executes no statement and leaves the cluster as it is.\<close>

theorem CreateDatabase_idempotent:
  assumes "pg_server std d view" "sanitize_ok (pgx_Sanitize d)" "pg_name n"
    and "CreateDatabase d c n s = (None, s1)" "CreateDatabase d c n s1 = (None, s2)"
  shows "view (conn c) (ext s2) = view (conn c) (ext s1) \<and>
    emits s1 s2 [EvQuery (conn c) databaseExistsQuery n (Inr True)]"
proof -
  have "n \<in> pg_databases (view (conn c) (ext s1))"
    using CreateDatabase_abs [OF assms(1-4)] by (simp add: ensure_database_def)
  moreover obtain r s' where q: "conn_QueryRow d (conn c) databaseExistsQuery n s1 = (r, s')"
    by (cases "conn_QueryRow d (conn c) databaseExistsQuery n s1")
  moreover obtain b where "r = Inr b"
    using assms(5) q by (cases r) (auto simp: CreateDatabase_def DatabaseExists_def)
  ultimately have "r = Inr True" using server_database_query(2) [OF assms(1) q] assms(3) by simp
  with assms(5) q have "s2 = s'" by (simp add: CreateDatabase_def DatabaseExists_def)
  with q \<open>r = Inr True\<close> server_database_query(1) [OF assms(1) q] show ?thesis by (auto dest: emits_calls)
qed

theorem CreateDatabase_idempotent_witness:
  "\<exists>s1 s2. CreateDatabase ref_deps \<lparr>conn = 0\<rparr> ''shop'' sample_start = (None, s1) \<and>
     CreateDatabase ref_deps \<lparr>conn = 0\<rparr> ''shop'' s1 = (None, s2) \<and> rw_pg (ext s2) = rw_pg (ext s1)"
proof -
  obtain s1 where s1: "CreateDatabase ref_deps \<lparr>conn = 0\<rparr> ''shop'' sample_start = (None, s1)"
    using ref_CreateDatabase [OF sample_names(2) sample_texts(2)] by blast
  obtain s2 where s2: "CreateDatabase ref_deps \<lparr>conn = 0\<rparr> ''shop'' s1 = (None, s2)"
    using ref_CreateDatabase [OF sample_names(2) sample_texts(2)] by blast
  from CreateDatabase_idempotent [OF ref_pg_server ref_sanitize sample_names(2) s1 s2] s1 s2 show ?thesis by blast
qed

text \<open>Creating a database that did not exist and dropping it brings the cluster back to where it
was, as long as no privilege on a database of that name is left over.\<close>

theorem create_drop_roundtrip:
  assumes "pg_server std d view" "sanitize_ok (pgx_Sanitize d)" "pg_name n"
    and "CreateDatabase d c n s = (None, s1)" "DropDatabase d c n s1 = (None, s2)"
    and "n \<notin> pg_databases (view (conn c) (ext s))" "\<forall>p r. (p, ADatabase n, r) \<notin> pg_acl (view (conn c) (ext s))"
  shows "view (conn c) (ext s2) = view (conn c) (ext s)"
proof -
  let ?st = "view (conn c) (ext s)"
  have "{x \<in> pg_acl ?st. fst (snd x) \<noteq> ADatabase n} = pg_acl ?st" using assms(7) by fastforce
  moreover have "insert n (pg_databases ?st) - {n} = pg_databases ?st" using assms(6) by simp
  ultimately show ?thesis
    using CreateDatabase_abs [OF assms(1-4)] DropDatabase_abs [OF assms(1-3,5)]
    by (simp add: ensure_database_def remove_database_def)
qed

theorem create_drop_roundtrip_witness:
  "\<exists>s1 s2. CreateDatabase ref_deps \<lparr>conn = 0\<rparr> ''shop'' sample_start = (None, s1) \<and>
     DropDatabase ref_deps \<lparr>conn = 0\<rparr> ''shop'' s1 = (None, s2) \<and> rw_pg (ext s2) = sample_pg"
proof -
  obtain s1 where s1: "CreateDatabase ref_deps \<lparr>conn = 0\<rparr> ''shop'' sample_start = (None, s1)"
    using ref_CreateDatabase [OF sample_names(2) sample_texts(2)] by blast
  obtain s2 where s2: "DropDatabase ref_deps \<lparr>conn = 0\<rparr> ''shop'' s1 = (None, s2)"
    using ref_DropDatabase [OF sample_names(2)] by blast
  from create_drop_roundtrip [OF ref_pg_server ref_sanitize sample_names(2) s1 s2] s1 s2 show ?thesis
    by (simp add: sample_pg_def)
qed

section \<open>Grants\<close>

text \<open>\<open>GrantPrivileges\<close> makes exactly its five calls when it reports success; otherwise it makes
those before the first that fails, and that one.\<close>

theorem GrantPrivileges_calls:
  assumes "GrantPrivileges d c opts s = (r, s')" "emits s s' evs"
  shows "if r = None then evs = map (\<lambda>q. EvExec (conn c) q None) (grant_statements d opts)
    else \<exists>k e. k < 5 \<and> evs = map (\<lambda>q. EvExec (conn c) q None) (take k (grant_statements d opts))
                 @ [EvExec (conn c) (grant_statements d opts ! k) (Some e)]"
proof -
  obtain evs' where "emits s s' evs'" and e: "if r = None then batch_ok (conn c) (grant_statements d opts) evs'
     else batch_fails (conn c) (grant_statements d opts) evs'"
    using GrantPrivileges_emits [OF assms(1)] by metis
  with assms(2) have "evs' = evs" using emits_unique by blast
  moreover have "length (grant_statements d opts) = 5" by (simp add: grant_statements_def)
  ultimately show ?thesis using e by (auto simp: batch_ok_def batch_fails_def split: if_splits)
qed

theorem GrantPrivileges_calls_witness:
  "\<exists>s' evs. GrantPrivileges ref_deps \<lparr>conn = 0\<rparr> sample_opts sample_start = (None, s') \<and>
     emits sample_start s' evs \<and> evs = map (\<lambda>q. EvExec 0 q None) (grant_statements ref_deps sample_opts)"
proof -
  have "all_privileges [[''ALL'', ''PRIVILEGES'']]" by (rule sample_all)
  then obtain s' where s': "GrantPrivileges ref_deps \<lparr>conn = 0\<rparr> sample_opts sample_start = (None, s')"
    using ref_GrantPrivileges [OF sample_good sample_texts(7)] sample_grantable by fastforce
  then obtain evs where "emits sample_start s' evs" by (blast elim: GrantPrivileges_emits)
  with GrantPrivileges_calls [OF s' this] s' show ?thesis by auto
qed

lemma upper_privilege: "upper (privilege_text ws) = privilege_text (map upper ws)"
proof -
  have "upper (strings_Join ws sep) = strings_Join (map upper ws) (upper sep)" for sep
    by (induction ws sep rule: strings_Join.induct) (simp_all add: upper_def)
  moreover have "upper '' '' = '' ''" by (simp add: upper_def upper_char_def in_range_def byte_def)
  ultimately show ?thesis by (simp add: privilege_text_def)
qed

text \<open>C21: A grant with documented privileges (keywords separated by single blanks, in any case) can only
succeed when these are the single entry \<open>ALL\<close> or \<open>ALL PRIVILEGES\<close>, in any case: the same list is granted
on the database and on tables, and no single privilege applies to both.
\<open>["SELECT", "INSERT", "UPDATE", "DELETE"]\<close>, the example of the type's documentation, always fails.\<close>

theorem grant_needs_all:
  assumes "pg_server std d view" "sanitize_ok (pgx_Sanitize d)" "good_opts ps opts"
    and "GrantPrivileges d c opts s = (None, s')"
  shows "map upper (go_Privileges opts) \<in> {[''ALL''], [''ALL PRIVILEGES'']}"
proof -
  have "ps \<noteq> []" using assms(3) by (auto simp: good_opts_def privileges_ok_def)
  with grant_effect(1) [OF GrantPrivileges_abs [OF assms]] have "all_privileges ps" by simp
  then consider "map (map upper) ps = [[''ALL'']]" | "map (map upper) ps = [[''ALL'', ''PRIVILEGES'']]"
    unfolding all_privileges_def by blast
  then have "map privilege_text (map (map upper) ps) \<in> {[''ALL''], [''ALL PRIVILEGES'']}"
    by cases (simp_all only: list.map privilege_text_def strings_Join.simps append_Cons append_Nil insertI1 insertI2 singletonI)
  moreover have "map upper (go_Privileges opts) = map privilege_text (map (map upper) ps)"
    using assms(3) by (simp add: good_opts_def upper_privilege)
  ultimately show ?thesis by simp
qed

theorem grant_needs_all_witness:
  "\<exists>s'. GrantPrivileges ref_deps \<lparr>conn = 0\<rparr> sample_opts sample_start = (None, s') \<and>
     map upper (go_Privileges sample_opts) \<in> {[''ALL''], [''ALL PRIVILEGES'']}"
proof -
  have "all_privileges [[''ALL'', ''PRIVILEGES'']]" by (rule sample_all)
  then obtain s' where s': "GrantPrivileges ref_deps \<lparr>conn = 0\<rparr> sample_opts sample_start = (None, s')"
    using ref_GrantPrivileges [OF sample_good sample_texts(7)] sample_grantable by fastforce
  from grant_needs_all [OF ref_pg_server ref_sanitize sample_good s'] s' show ?thesis by (intro exI [of _ s'] conjI)
qed

text \<open>What a successful grant adds: all privileges on the database, on every existing table of the
schema, on future tables, and \<open>CREATE\<close> and \<open>USAGE\<close> on the schema. Nothing else changes.\<close>

theorem GrantPrivileges_refines:
  assumes "pg_server std d view" "sanitize_ok (pgx_Sanitize d)" "good_opts ps opts"
    and "GrantPrivileges d c opts s = (None, s')"
  shows "view (conn c) (ext s') = (view (conn c) (ext s))\<lparr>pg_acl :=
    pg_acl (view (conn c) (ext s)) \<union> granted_entries opts (view (conn c) (ext s)) \<union> {usage_entry opts}\<rparr>"
proof -
  have "ps \<noteq> []" using assms(3) by (auto simp: good_opts_def privileges_ok_def)
  with grant_effect(2) [OF GrantPrivileges_abs [OF assms]] show ?thesis by simp
qed

theorem GrantPrivileges_refines_witness:
  "\<exists>s'. GrantPrivileges ref_deps \<lparr>conn = 0\<rparr> sample_opts sample_start = (None, s') \<and>
     (''SELECT'', ATable ''public'' ''items'', ''alice'') \<in> pg_acl (rw_pg (ext s'))"
proof -
  have "all_privileges [[''ALL'', ''PRIVILEGES'']]" by (rule sample_all)
  then obtain s' where s': "GrantPrivileges ref_deps \<lparr>conn = 0\<rparr> sample_opts sample_start = (None, s')"
    using ref_GrantPrivileges [OF sample_good sample_texts(7)] sample_grantable by fastforce
  have "(''SELECT'', ATable ''public'' ''items'', ''alice'') \<in> granted_entries sample_opts sample_pg"
    by (simp add: granted_entries_def acl_entries_def table_privileges_def sample_pg_def sample_opts_def)
      (force simp: image_iff)
  with GrantPrivileges_refines [OF ref_pg_server ref_sanitize sample_good s'] s' show ?thesis by simp
qed

text \<open>C20: After a grant and its revocation the role cannot be dropped: \<open>DropRole\<close> reports an error
however often it is tried, because of the \<open>USAGE\<close> privilege left behind. A \<open>PostgreSQLUser\<close> with the
policy \<open>Delete\<close> then keeps its finalizer.\<close>

theorem revoked_role_undroppable:
  assumes "pg_server std d view" "sanitize_ok (pgx_Sanitize d)" "good_opts ps opts"
    and "GrantPrivileges d c opts s = (None, s1)" "RevokePrivileges d c opts s1 = (None, s2)"
    and "DropRole d c (go_Role opts) s2 = (r, s3)"
  shows "r \<noteq> None"
proof
  assume "r = None"
  have ps: "ps \<noteq> []" and role: "pg_name (go_Role opts)"
    using assms(3) by (auto simp: good_opts_def privileges_ok_def grantee_def)
  note g = GrantPrivileges_abs [OF assms(1-4)]
  from grant_effect(2) [OF g ps] revoke_effect(2) [OF RevokePrivileges_abs [OF assms(1-3,5)] ps]
  have "usage_entry opts \<in> pg_acl (view (conn c) (ext s2))"
    and "pg_roles (view (conn c) (ext s2)) = pg_roles (view (conn c) (ext s))"
    by (auto simp: granted_entries_def acl_entries_def usage_entry_def)
  moreover from g have "role_exists (go_Role opts) (view (conn c) (ext s))"
    by (auto simp: grant_stmts_def split: option.splits if_splits)
  ultimately have "role_exists (go_Role opts) (view (conn c) (ext s2))"
    and "go_Role opts \<in> (\<lambda>x. snd (snd x)) ` pg_acl (view (conn c) (ext s2))"
    by (auto simp: role_exists_def usage_entry_def image_iff intro: bexI [of _ "usage_entry opts"])
  with DropRole_abs(2) [OF assms(1,2) role, of c s2 s3] assms(6) \<open>r = None\<close> show False by blast
qed

theorem revoked_role_undroppable_witness:
  "\<exists>s1 s2 r s3. GrantPrivileges ref_deps \<lparr>conn = 0\<rparr> sample_opts sample_start = (None, s1) \<and>
     RevokePrivileges ref_deps \<lparr>conn = 0\<rparr> sample_opts s1 = (None, s2) \<and>
     DropRole ref_deps \<lparr>conn = 0\<rparr> ''alice'' s2 = (r, s3) \<and> r \<noteq> None"
proof -
  note all = sample_all
  then obtain s1 where s1: "GrantPrivileges ref_deps \<lparr>conn = 0\<rparr> sample_opts sample_start = (None, s1)"
    using ref_GrantPrivileges [OF sample_good sample_texts(7)] sample_grantable by fastforce
  from GrantPrivileges_abs [OF ref_pg_server ref_sanitize sample_good s1]
  have "grantable sample_opts (rw_pg (ext s1))"
    using grant_effect(2) by (intro sample_grantable) fastforce+
  then obtain s2 where s2: "RevokePrivileges ref_deps \<lparr>conn = 0\<rparr> sample_opts s1 = (None, s2)"
    using ref_RevokePrivileges [OF sample_good sample_texts(7) all] by blast
  obtain r s3 where s3: "DropRole ref_deps \<lparr>conn = 0\<rparr> ''alice'' s2 = (r, s3)"
    by (cases "DropRole ref_deps \<lparr>conn = 0\<rparr> ''alice'' s2")
  have "go_Role sample_opts = ''alice''" by (simp add: sample_opts_def)
  with revoked_role_undroppable [OF ref_pg_server ref_sanitize sample_good s1 s2, of r s3] s1 s2 s3
  show ?thesis by auto
qed

end
