(* ===== verification/Helpers.thy ===== *)
theory Helpers
  imports SqlClient
begin

text \<open>
  \<open>internal/controller/helpers.go\<close>: the requeue intervals with jitter, the resolution of a
  \<open>PostgresRef\<close> into an open connection, the reading of secrets, and the status patch. The
  controllers' result type \<open>ctrl.Result\<close> is here too; a zero \<open>RequeueAfter\<close> asks for no requeue.
\<close>

section \<open>Requeue intervals\<close>

record Result =
  RequeueAfter :: duration

definition no_Result :: Result where
  "no_Result = \<lparr>RequeueAfter = 0\<rparr>"

definition defaultRequeueInterval :: duration where
  "defaultRequeueInterval = 30 * time_Second"

definition maxRequeueJitter :: duration where
  "maxRequeueJitter = 5 * time_Second"

definition defaultRetryInterval :: duration where
  "defaultRetryInterval = 5 * time_Second"

definition addJitter :: "'w deps \<Rightarrow> duration \<Rightarrow> 'w world \<Rightarrow> duration \<times> 'w world" where
  "addJitter d i s =
     (case silent (rand_draw d) s of (draw, s) \<Rightarrow> (i + Int64N maxRequeueJitter draw, s))"

definition requeueResult :: "'w deps \<Rightarrow> SQLTemplate \<Rightarrow> 'w world \<Rightarrow> Result \<times> 'w world" where
  "requeueResult d tmpl s =
     (let interval = (case RequeueInterval tmpl of None \<Rightarrow> defaultRequeueInterval | Some i \<Rightarrow> i) in
      case addJitter d interval s of (i, s) \<Rightarrow> (\<lparr>RequeueAfter = i\<rparr>, s))"

definition retryResult :: "'w deps \<Rightarrow> SQLTemplate \<Rightarrow> 'w world \<Rightarrow> Result \<times> 'w world" where
  "retryResult d tmpl s =
     (let interval = (case RetryInterval tmpl of None \<Rightarrow> defaultRetryInterval | Some i \<Rightarrow> i) in
      case addJitter d interval s of (i, s) \<Rightarrow> (\<lparr>RequeueAfter = i\<rparr>, s))"

lemma interval_values:
  "unat maxRequeueJitter = 5000000000" "maxRequeueJitter \<noteq> 0"
  "sint defaultRequeueInterval = 30000000000" "sint defaultRetryInterval = 5000000000"
  by (simp_all add: maxRequeueJitter_def defaultRequeueInterval_def defaultRetryInterval_def
    time_Second_def)

lemma emits_addJitter [emits_intro]: "addJitter d i s = (r, s') \<Longrightarrow> emits s s' []"
  by (auto simp: addJitter_def split: prod.splits dest: emits_silent)

lemma emits_results [emits_intro]:
  "requeueResult d tmpl s = (r, s') \<Longrightarrow> emits s s' []"
  "retryResult d tmpl s = (r, s') \<Longrightarrow> emits s s' []"
  by (auto simp: requeueResult_def retryResult_def Let_def split: prod.splits dest: emits_addJitter)

text \<open>
  The jittered interval: at least the interval, less than five seconds more, as long as the sum
  stays within 64 bits.
\<close>

lemma addJitter_bounds:
  assumes "addJitter d i s = (r, s')" "sint i + 5000000000 \<le> 2 ^ 63"
  shows "sint i \<le> sint r" "sint r < sint i + 5000000000"
proof -
  obtain draw where r: "r = i + Int64N maxRequeueJitter draw"
    using assms(1) by (auto simp: addJitter_def split: prod.splits)
  let ?j = "unat (Int64N maxRequeueJitter draw)"
  have j: "?j < 5000000000"
    using unat_Int64N_less [of maxRequeueJitter draw] by (simp add: interval_values)
  then have ji: "0 \<le> int ?j" "int ?j < 5000000000" by linarith+
  have "sint r = sint i + int ?j"
    unfolding r
  proof (rule sint_add_small)
    show "?j < 2 ^ 63" using j by simp
    show "sint i + int ?j < 2 ^ 63" using ji assms(2) by linarith
  qed
  with ji show "sint i \<le> sint r" "sint r < sint i + 5000000000" by linarith+
qed

section \<open>Secrets\<close>

definition getSecretValue ::
  "'w deps \<Rightarrow> string \<Rightarrow> SecretKeyRef \<Rightarrow> 'w world \<Rightarrow> (gerror + string) \<times> 'w world" where
  "getSecretValue d namespace ref s =
     (case Get_Secret d \<lparr>nn_Namespace = namespace, nn_Name = skr_Name ref\<rparr> s of
        (Inl err, s) \<Rightarrow> (Inl (Wrapped (''getting secret '' @ namespace @ ''/'' @ skr_Name ref @ '': '') err), s)
      | (Inr secret, s) \<Rightarrow>
          (case secret_Data secret (skr_Key ref) of
             None \<Rightarrow> (Inl (Plain (''key '' @ fmt_q d (skr_Key ref) @ '' not found in secret ''
                              @ namespace @ ''/'' @ skr_Name ref)), s)
           | Some value \<Rightarrow> (Inr value, s)))"

text \<open>What a reading of a secret fetched, and the value it gave: the one under the key of the reference.\<close>

inductive secret_read :: "SecretKeyRef \<Rightarrow> gerror + string \<Rightarrow> gerror + fetched \<Rightarrow> bool" for ref where
  unread: "secret_read ref (Inl (Wrapped prefix err)) (Inl err)"
| keyless: "secret_Data secret (skr_Key ref) = None \<Longrightarrow>
    secret_read ref (Inl (Plain text)) (Inr (Fetched_Secret secret))"
| found: "secret_Data secret (skr_Key ref) = Some value \<Longrightarrow>
    secret_read ref (Inr value) (Inr (Fetched_Secret secret))"

inductive_simps secret_read_simps [simp]: "secret_read ref (Inl e) f" "secret_read ref (Inr value) f"

lemma getSecretValue_emits:
  assumes "getSecretValue d ns ref s = (r, s')"
  obtains f where "emits s s' [EvGet Secret_kind \<lparr>nn_Namespace = ns, nn_Name = skr_Name ref\<rparr> f]"
    "secret_read ref r f"
proof -
  obtain rs s1 where g: "Get_Secret d \<lparr>nn_Namespace = ns, nn_Name = skr_Name ref\<rparr> s = (rs, s1)"
    by (cases "Get_Secret d \<lparr>nn_Namespace = ns, nn_Name = skr_Name ref\<rparr> s")
  have "secret_read ref r (map_Inr Fetched_Secret rs)" "s' = s1"
    using assms g by (auto simp: getSecretValue_def split: sum.splits option.splits)
  with emits_calls(10) [OF g] that show ?thesis by blast
qed

section \<open>Resolving a reference into a connection\<close>

definition connectToPostgres ::
  "'w deps \<Rightarrow> string \<Rightarrow> PostgresRef \<Rightarrow> 'w world \<Rightarrow> (gerror + Client) \<times> 'w world" where
  "connectToPostgres d namespace ref s =
     (let pgNS = (if ref_Namespace ref = [] then namespace else ref_Namespace ref) in
      case Get_PostgreSQL d \<lparr>nn_Namespace = pgNS, nn_Name = ref_Name ref\<rparr> s of
        (Inl err, s) \<Rightarrow> (Inl (Wrapped (''getting PostgreSQL CR '' @ pgNS @ ''/'' @ ref_Name ref @ '': '') err), s)
      | (Inr pg, s) \<Rightarrow>
          (case Get_Secret d \<lparr>nn_Namespace = pgNS,
                              nn_Name = skr_Name (pgs_SuperuserSecretKeyRef (pg_Spec pg))\<rparr> s of
             (Inl err, s) \<Rightarrow> (Inl (Wrapped ''getting superuser secret: '' err), s)
           | (Inr secret, s) \<Rightarrow>
               (case secret_Data secret (skr_Key (pgs_SuperuserSecretKeyRef (pg_Spec pg))) of
                  None \<Rightarrow> (Inl (Plain (''key '' @ fmt_q d (skr_Key (pgs_SuperuserSecretKeyRef (pg_Spec pg)))
                            @ '' not found in secret '' @ pgNS @ ''/''
                            @ skr_Name (pgs_SuperuserSecretKeyRef (pg_Spec pg)))), s)
                | Some password \<Rightarrow>
                    Connect d \<lparr>cc_Host = pgs_Host (pg_Spec pg), cc_Port = pgs_Port (pg_Spec pg),
                               cc_Database = pgs_Database (pg_Spec pg),
                               cc_Username = pgs_SuperuserUsername (pg_Spec pg),
                               cc_Password = password\<rparr> s)))"

definition connectToDatabase ::
  "'w deps \<Rightarrow> string \<Rightarrow> PostgresRef \<Rightarrow> string \<Rightarrow> 'w world \<Rightarrow> (gerror + Client) \<times> 'w world" where
  "connectToDatabase d namespace ref database s =
     (let pgNS = (if ref_Namespace ref = [] then namespace else ref_Namespace ref) in
      case Get_PostgreSQL d \<lparr>nn_Namespace = pgNS, nn_Name = ref_Name ref\<rparr> s of
        (Inl err, s) \<Rightarrow> (Inl (Wrapped (''getting PostgreSQL CR '' @ pgNS @ ''/'' @ ref_Name ref @ '': '') err), s)
      | (Inr pg, s) \<Rightarrow>
          (case Get_Secret d \<lparr>nn_Namespace = pgNS,
                              nn_Name = skr_Name (pgs_SuperuserSecretKeyRef (pg_Spec pg))\<rparr> s of
             (Inl err, s) \<Rightarrow> (Inl (Wrapped ''getting superuser secret: '' err), s)
           | (Inr secret, s) \<Rightarrow>
               (case secret_Data secret (skr_Key (pgs_SuperuserSecretKeyRef (pg_Spec pg))) of
                  None \<Rightarrow> (Inl (Plain (''key '' @ fmt_q d (skr_Key (pgs_SuperuserSecretKeyRef (pg_Spec pg)))
                            @ '' not found in secret '' @ pgNS @ ''/''
                            @ skr_Name (pgs_SuperuserSecretKeyRef (pg_Spec pg)))), s)
                | Some password \<Rightarrow>
                    Connect d \<lparr>cc_Host = pgs_Host (pg_Spec pg), cc_Port = pgs_Port (pg_Spec pg),
                               cc_Database = database,
                               cc_Username = pgs_SuperuserUsername (pg_Spec pg),
                               cc_Password = password\<rparr> s)))"

text \<open>
  The calls of a resolution with its result. \<open>resolution dbname namespace ref\<close> fixes every call: the
  instance is read under its key, then the secret its spec names in the same namespace, and the
  connection string is the one for the instance as read, the database \<open>dbname\<close> chooses for it, and the
  password in the secret as read.
\<close>

definition instance_key :: "string \<Rightarrow> PostgresRef \<Rightarrow> NamespacedName" where
  "instance_key namespace ref =
     \<lparr>nn_Namespace = (if ref_Namespace ref = [] then namespace else ref_Namespace ref), nn_Name = ref_Name ref\<rparr>"

definition superuser_key :: "string \<Rightarrow> PostgreSQL \<Rightarrow> NamespacedName" where
  "superuser_key namespace pg =
     \<lparr>nn_Namespace = namespace, nn_Name = skr_Name (pgs_SuperuserSecretKeyRef (pg_Spec pg))\<rparr>"

definition superuser_config :: "PostgreSQL \<Rightarrow> string \<Rightarrow> string \<Rightarrow> ConnectConfig" where
  "superuser_config pg database password = \<lparr>cc_Host = pgs_Host (pg_Spec pg), cc_Port = pgs_Port (pg_Spec pg),
     cc_Database = database, cc_Username = pgs_SuperuserUsername (pg_Spec pg), cc_Password = password\<rparr>"

abbreviation got_instance :: "NamespacedName \<Rightarrow> PostgreSQL \<Rightarrow> event" where
  "got_instance key pg \<equiv> EvGet PostgreSQL_kind key (Inr (Fetched_object (PostgreSQL_object pg)))"

inductive resolution :: "(PostgreSQL \<Rightarrow> string) \<Rightarrow> string \<Rightarrow> PostgresRef \<Rightarrow> gerror + Client \<Rightarrow> event list \<Rightarrow> bool"
  for dbname namespace ref where
  no_instance: "key = instance_key namespace ref \<Longrightarrow>
    resolution dbname namespace ref
      (Inl (Wrapped (''getting PostgreSQL CR '' @ nn_Namespace key @ ''/'' @ nn_Name key @ '': '') err))
      [EvGet PostgreSQL_kind key (Inl err)]"
| no_secret: "key = instance_key namespace ref \<Longrightarrow>
    resolution dbname namespace ref (Inl (Wrapped ''getting superuser secret: '' err))
      [got_instance key pg, EvGet Secret_kind (superuser_key (nn_Namespace key) pg) (Inl err)]"
| no_password: "key = instance_key namespace ref \<Longrightarrow>
    secret_Data secret (skr_Key (pgs_SuperuserSecretKeyRef (pg_Spec pg))) = None \<Longrightarrow>
    resolution dbname namespace ref (Inl (Plain text))
      [got_instance key pg, EvGet Secret_kind (superuser_key (nn_Namespace key) pg) (Inr (Fetched_Secret secret))]"
| refused: "key = instance_key namespace ref \<Longrightarrow>
    secret_Data secret (skr_Key (pgs_SuperuserSecretKeyRef (pg_Spec pg))) = Some password \<Longrightarrow>
    resolution dbname namespace ref (Inl (Wrapped ''connecting to PostgreSQL: '' err))
      [got_instance key pg, EvGet Secret_kind (superuser_key (nn_Namespace key) pg) (Inr (Fetched_Secret secret)),
       EvConnect (connStr (superuser_config pg (dbname pg) password)) (Inl err)]"
| resolved: "key = instance_key namespace ref \<Longrightarrow>
    secret_Data secret (skr_Key (pgs_SuperuserSecretKeyRef (pg_Spec pg))) = Some password \<Longrightarrow>
    resolution dbname namespace ref (Inr \<lparr>conn = c\<rparr>)
      [got_instance key pg, EvGet Secret_kind (superuser_key (nn_Namespace key) pg) (Inr (Fetched_Secret secret)),
       EvConnect (connStr (superuser_config pg (dbname pg) password)) (Inr c)]"

text \<open>The database an instance names, which \<open>connectToPostgres\<close> connects to.\<close>

definition own_database :: "PostgreSQL \<Rightarrow> string" where
  "own_database pg = pgs_Database (pg_Spec pg)"

lemma superuser_config_eq:
  "\<lparr>cc_Host = pgs_Host (pg_Spec pg), cc_Port = pgs_Port (pg_Spec pg), cc_Database = database,
    cc_Username = pgs_SuperuserUsername (pg_Spec pg), cc_Password = password\<rparr> = superuser_config pg database password"
  by (simp add: superuser_config_def)

lemma key_eqs:
  "(if ref_Namespace ref = [] then namespace else ref_Namespace ref) = nn_Namespace (instance_key namespace ref)"
  "ref_Name ref = nn_Name (instance_key namespace ref)"
  "\<lparr>nn_Namespace = ns, nn_Name = skr_Name (pgs_SuperuserSecretKeyRef (pg_Spec pg))\<rparr> = superuser_key ns pg"
  "\<lparr>nn_Namespace = nn_Namespace key, nn_Name = nn_Name key\<rparr> = key"
  by (simp_all add: instance_key_def superuser_key_def)

text \<open>The two resolutions share all but the database; so do their calls.\<close>

lemma resolution_run:
  fixes d :: "'w deps"
  assumes "(case Get_PostgreSQL d (instance_key namespace ref) s of
        (Inl err, s) \<Rightarrow> (Inl (Wrapped (''getting PostgreSQL CR '' @ nn_Namespace (instance_key namespace ref) @ ''/''
            @ nn_Name (instance_key namespace ref) @ '': '') err), s)
      | (Inr pg, s) \<Rightarrow>
          (case Get_Secret d (superuser_key (nn_Namespace (instance_key namespace ref)) pg) s of
             (Inl err, s) \<Rightarrow> (Inl (Wrapped ''getting superuser secret: '' err), s)
           | (Inr secret, s) \<Rightarrow>
               (case secret_Data secret (skr_Key (pgs_SuperuserSecretKeyRef (pg_Spec pg))) of
                  None \<Rightarrow> (Inl (Plain (text pg)), s)
                | Some password \<Rightarrow> Connect d (superuser_config pg (dbname pg) password) s))) = (r, s')"
  shows "\<exists>evs. emits s s' evs \<and> resolution dbname namespace ref r evs"
proof -
  obtain rg s1 where g: "Get_PostgreSQL d (instance_key namespace ref) s = (rg, s1)"
    by (cases "Get_PostgreSQL d (instance_key namespace ref) s")
  note eg = emits_calls(6) [OF g]
  show ?thesis
  proof (cases rg)
    case (Inl err)
    with assms g eg resolution.no_instance [OF refl] show ?thesis by auto
  next
    case (Inr pg)
    let ?key = "superuser_key (nn_Namespace (instance_key namespace ref)) pg"
    obtain rs s2 where sec: "Get_Secret d ?key s1 = (rs, s2)" by (cases "Get_Secret d ?key s1")
    from emits_trans [OF eg emits_calls(10) [OF sec]] Inr
    have es: "emits s s2 [got_instance (instance_key namespace ref) pg, EvGet Secret_kind ?key (map_Inr Fetched_Secret rs)]"
      by simp
    show ?thesis
    proof (cases rs)
      case (Inl err)
      with assms g \<open>rg = Inr pg\<close> sec es resolution.no_secret [OF refl] show ?thesis by fastforce
    next
      case (Inr secret)
      show ?thesis
      proof (cases "secret_Data secret (skr_Key (pgs_SuperuserSecretKeyRef (pg_Spec pg)))")
        case None
        with assms g \<open>rg = Inr pg\<close> sec Inr es resolution.no_password [OF refl None] show ?thesis by fastforce
      next
        case (Some password)
        with assms g \<open>rg = Inr pg\<close> sec Inr
        have con: "Connect d (superuser_config pg (dbname pg) password) s2 = (r, s')" by simp
        show ?thesis
        proof (cases r)
          case (Inl e)
          from emits_Connect_Inl [OF con [unfolded Inl]] obtain e' where e: "e = Wrapped ''connecting to PostgreSQL: '' e'"
            "emits s2 s' [EvConnect (connStr (superuser_config pg (dbname pg) password)) (Inl e')]" by blast
          show ?thesis
            unfolding Inl e(1)
            by (intro exI conjI, rule emits_trans [OF es e(2)])
              (simp add: \<open>rs = Inr secret\<close> resolution.refused [OF refl Some])
        next
          case (Inr c)
          note e = emits_trans [OF es emits_Connect_Inr [OF con [unfolded Inr]]]
          have "\<lparr>conn = conn c\<rparr> = c" by simp
          with resolution.resolved [OF refl Some, of dbname namespace ref "conn c"] Inr \<open>rs = Inr secret\<close> e
          show ?thesis by auto
        qed
      qed
    qed
  qed
qed

lemma connectToPostgres_calls:
  assumes "connectToPostgres d namespace ref s = (r, s')"
  shows "\<exists>evs. emits s s' evs \<and> resolution own_database namespace ref r evs"
  using assms
  unfolding connectToPostgres_def Let_def superuser_config_eq key_eqs(1,3) key_eqs(2) [of ref namespace] key_eqs(4)
    own_database_def [symmetric]
  by (rule resolution_run)

lemma connectToDatabase_calls:
  assumes "connectToDatabase d namespace ref database s = (r, s')"
  shows "\<exists>evs. emits s s' evs \<and> resolution (\<lambda>_. database) namespace ref r evs"
  using assms
  unfolding connectToDatabase_def Let_def superuser_config_eq key_eqs(1,3) key_eqs(2) [of ref namespace] key_eqs(4)
  by (rule resolution_run)

text \<open>
  What the order of the calls needs of a resolution: reads of instances and Secrets, then at most one
  attempt to connect, whose connection is the result.
\<close>

fun resolve_events :: "gerror + Client \<Rightarrow> event list \<Rightarrow> bool" where
  "resolve_events r [] = isl r"
| "resolve_events r (EvGet k key e # es) = ((k = PostgreSQL_kind \<or> k = Secret_kind) \<and> resolve_events r es)"
| "resolve_events r (EvConnect dsn (Inr c) # es) = (es = [] \<and> r = Inr \<lparr>conn = c\<rparr>)"
| "resolve_events r (EvConnect dsn (Inl e) # es) = (es = [] \<and> isl r)"
| "resolve_events r (_ # es) = False"

lemma resolution_events: "resolution dbname namespace ref r evs \<Longrightarrow> resolve_events r evs"
  by (induction rule: resolution.induct) auto

lemma resolve_events_conn:
  "resolve_events r evs \<Longrightarrow>
   conn_run os evs = Some (case r of Inl e \<Rightarrow> os | Inr c \<Rightarrow> conn c # os)"
  by (induction r evs rule: resolve_events.induct) (auto split: sum.splits)

lemma resolve_events_kinds:
  "resolve_events r evs \<Longrightarrow> list_all (\<lambda>e. \<not> is_update e \<and> \<not> is_patch e \<and> (\<forall>c. \<not> sql_on c e)) evs"
  by (induction r evs rule: resolve_events.induct) auto

lemma resolve_events_since:
  "resolve_events r evs \<Longrightarrow> k \<noteq> PostgreSQL_kind \<Longrightarrow> k \<noteq> Secret_kind \<Longrightarrow> list_all (since_read k) evs"
  by (induction r evs rule: resolve_events.induct) auto

section \<open>The status patch\<close>

text \<open>
  \<open>patchCondition\<close> snapshots the object (\<open>client.MergeFrom(obj.DeepCopyObject())\<close>), sets the
  condition through the pointer \<open>conditions\<close>, and sends the difference of the two. A failure of
  the patch is logged and dropped. The changed object is returned; no caller reads it again.
\<close>

definition patchCondition ::
  "'w deps \<Rightarrow> ('o \<Rightarrow> client_object) \<Rightarrow> ((Condition list \<Rightarrow> Condition list) \<Rightarrow> 'o \<Rightarrow> 'o) \<Rightarrow> 'o
     \<Rightarrow> int64 \<Rightarrow> string \<Rightarrow> string \<Rightarrow> string \<Rightarrow> 'w world \<Rightarrow> 'o \<times> 'w world" where
  "patchCondition d as_object conditions obj generation status reason message s =
     (let original = obj in
      case silent (metav1_Now d) s of (now, s) \<Rightarrow>
      let obj = conditions (\<lambda>cs. SetStatusCondition d cs
                  \<lparr>cond_Type = ConditionTypeReady, cond_Status = status,
                   cond_ObservedGeneration = generation, cond_LastTransitionTime = now,
                   cond_Reason = reason, cond_Message = message\<rparr>) obj in
      case Status_Patch d (as_object original) (as_object obj) s of (_, s) \<Rightarrow> (obj, s))"

text \<open>The condition \<open>patchCondition\<close> sets, as one event.\<close>

definition condition_patch ::
  "'w deps \<Rightarrow> ('o \<Rightarrow> client_object) \<Rightarrow> ((Condition list \<Rightarrow> Condition list) \<Rightarrow> 'o \<Rightarrow> 'o) \<Rightarrow> 'o
     \<Rightarrow> int64 \<Rightarrow> string \<Rightarrow> string \<Rightarrow> string \<Rightarrow> event \<Rightarrow> bool" where
  "condition_patch d as_object conditions obj generation status reason message ev \<longleftrightarrow>
     (\<exists>now e. ev = EvPatch (as_object obj)
        (as_object (conditions (\<lambda>cs. SetStatusCondition d cs
           \<lparr>cond_Type = ConditionTypeReady, cond_Status = status,
            cond_ObservedGeneration = generation, cond_LastTransitionTime = now,
            cond_Reason = reason, cond_Message = message\<rparr>) obj)) e)"

lemma patchCondition_emits:
  assumes "patchCondition d as_object conditions obj generation status reason message s = (obj', s')"
  obtains ev where "emits s s' [ev]"
    "condition_patch d as_object conditions obj generation status reason message ev"
proof -
  have "\<exists>ev. emits s s' [ev] \<and>
      condition_patch d as_object conditions obj generation status reason message ev"
    using assms unfolding patchCondition_def call_defs Let_def condition_patch_def emits_def
    by (auto split: prod.splits)
  then show ?thesis using that by blast
qed

lemma condition_patch_is_patch:
  "condition_patch d as_object conditions obj generation status reason message ev \<Longrightarrow> is_patch ev"
  by (auto simp: condition_patch_def)

end
