(* ===== verification/HelperProperties.thy ===== *)
theory HelperProperties
  imports RefWorld DsnReader Helpers
begin

text \<open>
  The properties of \<open>internal/controller/helpers.go\<close> and of the connection string it has
  \<open>internal/sql/client.go\<close> build: what is sent to which server, whose secrets are read, and which
  intervals a result can carry.
\<close>

section \<open>Connections\<close>

text \<open>C25: For a configuration whose values are plain (not empty, without blanks, quotes and
backslashes) the connection string is read back as exactly that configuration, with TLS disabled. With an
empty password in its place the setting behind it is taken for the password: the server is sent
\<open>sslmode=disable\<close> as the password, and TLS is no longer disabled.\<close>

theorem connStr_roundtrip:
  assumes "dsn_reader parse" "plain_config cfg" "p = cc_Password cfg \<or> p = []"
  shows "parse (connStr (cfg\<lparr>cc_Password := p\<rparr>)) = Some (if p = []
    then (config_settings cfg)(''password'' \<mapsto> ''sslmode=disable'', ''sslmode'' := None) else config_settings cfg)"
proof -
  have "cc_Password cfg \<noteq> []" using assms(2) by (auto simp: plain_config_def plain_value_def)
  with assms(3) connStr_plain [OF assms(1,2)] connStr_no_password [OF assms(1,2)] show ?thesis by auto
qed

definition sample_config :: ConnectConfig where
  "sample_config = \<lparr>cc_Host = ''db'', cc_Port = 5432, cc_Database = ''app'', cc_Username = ''root'',
     cc_Password = ''root''\<rparr>"

lemma sample_plain: "plain_config sample_config"
  by (simp add: plain_config_def sample_config_def plain_value_def plain_char_def is_space_def byte_def
    sq_def backslash_def)

theorem connStr_roundtrip_witness:
  "ref_dsn (connStr sample_config) = Some (config_settings sample_config) \<and>
   (\<exists>m. ref_dsn (connStr (sample_config\<lparr>cc_Password := []\<rparr>)) = Some m \<and> m ''password'' = Some ''sslmode=disable'')"
  using connStr_roundtrip [OF ref_dsn_reader sample_plain, of "cc_Password sample_config"]
    connStr_roundtrip [OF ref_dsn_reader sample_plain, of "[]"] by (simp add: sample_config_def)

text \<open>C24: The database name of a grant goes into the connection string as it is. One that holds a blank
and a \<open>host\<close> setting makes the operator connect to that host with the superuser's name and password of
the instance referred to.\<close>

theorem database_name_redirects:
  assumes "dsn_reader parse" "plain_value evil"
    and "Get_PostgreSQL d \<lparr>nn_Namespace = (if ref_Namespace ref = [] then namespace else ref_Namespace ref),
           nn_Name = ref_Name ref\<rparr> s = (Inr pg, s1)"
    and "Get_Secret d \<lparr>nn_Namespace = (if ref_Namespace ref = [] then namespace else ref_Namespace ref),
           nn_Name = skr_Name (pgs_SuperuserSecretKeyRef (pg_Spec pg))\<rparr> s1 = (Inr secret, s2)"
    and "secret_Data secret (skr_Key (pgs_SuperuserSecretKeyRef (pg_Spec pg))) = Some password"
    and "plain_config \<lparr>cc_Host = pgs_Host (pg_Spec pg), cc_Port = pgs_Port (pg_Spec pg), cc_Database = database,
           cc_Username = pgs_SuperuserUsername (pg_Spec pg), cc_Password = password\<rparr>"
    and "connectToDatabase d namespace ref (database @ '' host='' @ evil) s = (r, s')"
  shows "\<exists>dsn rc m. emits s2 s' [EvConnect dsn rc] \<and> parse dsn = Some m \<and> m ''host'' = Some evil \<and>
    m ''user'' = Some (pgs_SuperuserUsername (pg_Spec pg)) \<and> m ''password'' = Some password"
proof -
  let ?cfg = "\<lparr>cc_Host = pgs_Host (pg_Spec pg), cc_Port = pgs_Port (pg_Spec pg), cc_Database = database,
    cc_Username = pgs_SuperuserUsername (pg_Spec pg), cc_Password = password\<rparr>"
  let ?bad = "?cfg\<lparr>cc_Database := cc_Database ?cfg @ '' host='' @ evil\<rparr>"
  have "Connect d ?bad s2 = (r, s')"
    using assms(3-5,7) by (simp add: connectToDatabase_def Let_def)
  then obtain rc where "emits s2 s' [EvConnect (connStr ?bad) rc]"
    by (cases r) (auto dest: emits_Connect_Inl emits_Connect_Inr)
  moreover have "parse (connStr ?bad) = Some ((config_settings ?cfg)(''host'' \<mapsto> evil))"
    by (rule connStr_redirected [OF assms(1,6,2)])
  ultimately show ?thesis
    by (intro exI [of _ "connStr ?bad"] exI [of _ rc] exI [of _ "(config_settings ?cfg)(''host'' \<mapsto> evil)"] conjI)
      (simp_all add: config_settings_def)
qed

theorem database_name_redirects_witness:
  "\<exists>r s1 s' dsn rc m.
     connectToDatabase ref_deps ''team'' sample_ref (''app'' @ '' host='' @ ''mallory'') sample_start = (r, s') \<and>
     emits s1 s' [EvConnect dsn rc] \<and> ref_dsn dsn = Some m \<and> m ''host'' = Some ''mallory'' \<and> m ''password'' = Some ''root''"
proof -
  let ?key = "\<lparr>nn_Namespace = ''infra'', nn_Name = ''pg''\<rparr>"
  obtain s1 where s1: "Get_PostgreSQL ref_deps ?key sample_start = (Inr sample_PostgreSQL, s1)"
    and e1: "ext s1 = ext sample_start"
    by (simp add: call_defs ref_get_def sample_start_def sample_world_def)
  obtain s2 where s2: "Get_Secret ref_deps ?key s1 = (Inr (sample_secret ''root''), s2)"
    and e2: "ext s2 = ext sample_start"
    using e1 by (simp add: call_defs ref_get_def sample_start_def sample_world_def sample_secrets_def)
  have ref: "(if ref_Namespace sample_ref = [] then ''team'' else ref_Namespace sample_ref) = ''infra''"
    "ref_Name sample_ref = ''pg''" "skr_Name (pgs_SuperuserSecretKeyRef (pg_Spec sample_PostgreSQL)) = ''pg''"
    "secret_Data (sample_secret ''root'') (skr_Key (pgs_SuperuserSecretKeyRef (pg_Spec sample_PostgreSQL))) = Some ''root''"
    by (simp_all add: sample_ref_def sample_PostgreSQL_def sample_secret_def)
  have plain: "plain_config \<lparr>cc_Host = pgs_Host (pg_Spec sample_PostgreSQL), cc_Port = pgs_Port (pg_Spec sample_PostgreSQL),
      cc_Database = ''app'', cc_Username = pgs_SuperuserUsername (pg_Spec sample_PostgreSQL), cc_Password = ''root''\<rparr>"
    using sample_plain by (simp add: sample_config_def sample_PostgreSQL_def plain_config_def)
  have mallory: "plain_value ''mallory''"
    by (simp add: plain_value_def plain_char_def is_space_def byte_def sq_def backslash_def)
  obtain r s' where c: "connectToDatabase ref_deps ''team'' sample_ref (''app'' @ '' host='' @ ''mallory'') sample_start = (r, s')"
    by (cases "connectToDatabase ref_deps ''team'' sample_ref (''app'' @ '' host='' @ ''mallory'') sample_start")
  from database_name_redirects [OF ref_dsn_reader mallory, of ref_deps sample_ref "''team''" sample_start
      sample_PostgreSQL s1 "sample_secret ''root''" s2 "''root''" "''app''" r s', unfolded ref(1-3),
      OF s1 s2 ref(4) plain c] c show ?thesis by blast
qed

text \<open>\<open>connectToDatabase\<close> is \<open>connectToPostgres\<close> with the database of the instance overridden: the
same result, and the same effect on the world, as if the \<open>PostgreSQL\<close> resource named that database.\<close>

theorem connectToDatabase_overrides:
  "map_prod (\<lambda>r. r) ext (connectToDatabase d namespace ref database s) =
   map_prod (\<lambda>r. r) ext (connectToPostgres (d\<lparr>k8s_Get_PostgreSQL := \<lambda>key w. case k8s_Get_PostgreSQL d key w of
       (Inl err, w) \<Rightarrow> (Inl err, w)
     | (Inr pg, w) \<Rightarrow> (Inr (pg\<lparr>pg_Spec := (pg_Spec pg)\<lparr>pgs_Database := database\<rparr>\<rparr>), w)\<rparr>) namespace ref s)"
  by (auto simp: connectToDatabase_def connectToPostgres_def Let_def call_defs Connect_def fmt_q_def
    split: prod.splits sum.splits option.splits)

text \<open>C26: Every call of a resolution is known, with its result. The instance is read in the namespace of the
reference, or in that of the resource when the reference names none; then the secret the instance names
is read in the same namespace; then one connection is tried, with the host, port and user of the
instance, the password the secret holds under the key of the instance, and the instance's database, or
the one asked for. Each of the four ways to fail ends the calls with its own error.\<close>

theorem resolution_exact:
  "(\<exists>evs. emits s (snd (connectToPostgres d namespace ref s)) evs \<and>
      resolution own_database namespace ref (fst (connectToPostgres d namespace ref s)) evs) \<and>
   (\<exists>evs. emits s (snd (connectToDatabase d namespace ref database s)) evs \<and>
      resolution (\<lambda>_. database) namespace ref (fst (connectToDatabase d namespace ref database s)) evs)"
  using connectToPostgres_calls [OF prod.collapse [symmetric]] connectToDatabase_calls [OF prod.collapse [symmetric]]
  by blast

section \<open>Intervals\<close>

text \<open>A requeue comes after the requeue interval of the resource, or 30 seconds, plus a jitter of less
than five seconds, as long as the interval leaves five seconds to the range of a duration.\<close>

lemma requeue_bounds:
  assumes "i = (case RequeueInterval tmpl of None \<Rightarrow> 30 * time_Second | Some i \<Rightarrow> i)"
    and "sint i + 5000000000 \<le> 2 ^ 63" "requeueResult d tmpl s = (res, s')"
  shows "sint i \<le> sint (RequeueAfter res) \<and> sint (RequeueAfter res) < sint i + 5000000000"
proof -
  have "addJitter d i s = (RequeueAfter res, s')"
    using assms(1,3) unfolding requeueResult_def Let_def defaultRequeueInterval_def by (auto split: prod.splits)
  from addJitter_bounds [OF this assms(2)] show ?thesis by blast
qed

text \<open>A retry after an error comes after the retry interval of the resource, or five seconds, plus a
jitter of less than five seconds, as long as the interval leaves five seconds to the range of a
duration.\<close>

lemma retry_bounds:
  assumes "i = (case RetryInterval tmpl of None \<Rightarrow> 5 * time_Second | Some i \<Rightarrow> i)"
    and "sint i + 5000000000 \<le> 2 ^ 63" "retryResult d tmpl s = (res, s')"
  shows "sint i \<le> sint (RequeueAfter res) \<and> sint (RequeueAfter res) < sint i + 5000000000"
proof -
  have "addJitter d i s = (RequeueAfter res, s')"
    using assms(1,3) unfolding retryResult_def Let_def defaultRetryInterval_def by (auto split: prod.splits)
  from addJitter_bounds [OF this assms(2)] show ?thesis by blast
qed

text \<open>C27: A requeue comes after the requeue interval of the resource, or 30 seconds, and a retry after an
error comes after its retry interval, or five seconds, each plus a jitter of less than five seconds, as
long as the interval leaves five seconds to the range of a duration.\<close>

theorem intervals_bounded:
  assumes "i = (case RequeueInterval tmpl of None \<Rightarrow> 30 * time_Second | Some i \<Rightarrow> i) \<and> requeueResult d tmpl s = (res, s') \<or>
      i = (case RetryInterval tmpl of None \<Rightarrow> 5 * time_Second | Some i \<Rightarrow> i) \<and> retryResult d tmpl s = (res, s')"
    and "sint i + 5000000000 \<le> 2 ^ 63"
  shows "sint i \<le> sint (RequeueAfter res) \<and> sint (RequeueAfter res) < sint i + 5000000000"
  using assms(1)
proof
  assume "i = (case RequeueInterval tmpl of None \<Rightarrow> 30 * time_Second | Some i \<Rightarrow> i) \<and> requeueResult d tmpl s = (res, s')"
  then show ?thesis using requeue_bounds [OF _ assms(2)] by blast
next
  assume "i = (case RetryInterval tmpl of None \<Rightarrow> 5 * time_Second | Some i \<Rightarrow> i) \<and> retryResult d tmpl s = (res, s')"
  then show ?thesis using retry_bounds [OF _ assms(2)] by blast
qed

theorem intervals_bounded_witness:
  "\<exists>res s' res2 s2. requeueResult ref_deps (sample_tmpl CleanupPolicyDelete) sample_start = (res, s') \<and>
     30000000000 \<le> sint (RequeueAfter res) \<and> sint (RequeueAfter res) < 35000000000 \<and>
     retryResult ref_deps (sample_tmpl CleanupPolicyDelete) sample_start = (res2, s2) \<and>
     5000000000 \<le> sint (RequeueAfter res2) \<and> sint (RequeueAfter res2) < 10000000000"
proof -
  obtain res s' where r: "requeueResult ref_deps (sample_tmpl CleanupPolicyDelete) sample_start = (res, s')"
    by (cases "requeueResult ref_deps (sample_tmpl CleanupPolicyDelete) sample_start")
  obtain res2 s2 where r2: "retryResult ref_deps (sample_tmpl CleanupPolicyDelete) sample_start = (res2, s2)"
    by (cases "retryResult ref_deps (sample_tmpl CleanupPolicyDelete) sample_start")
  have i: "sint (30 * time_Second) = 30000000000" "sint (5 * time_Second) = 5000000000" by (simp_all add: time_Second_def)
  have d: "30 * time_Second = (case RequeueInterval (sample_tmpl CleanupPolicyDelete) of None \<Rightarrow> 30 * time_Second | Some i \<Rightarrow> i)"
    "5 * time_Second = (case RetryInterval (sample_tmpl CleanupPolicyDelete) of None \<Rightarrow> 5 * time_Second | Some i \<Rightarrow> i)"
    by (simp_all add: sample_tmpl_def)
  from intervals_bounded [OF disjI1 [OF conjI [OF d(1) r]]] intervals_bounded [OF disjI2 [OF conjI [OF d(2) r2]]] r r2
  show ?thesis by (simp add: i)
qed

text \<open>For an interval nearer to the largest duration than the jitter drawn the sum wraps around: the
result is negative, which asks for no requeue.\<close>

theorem result_overflow:
  assumes "RequeueInterval tmpl = Some i" "rand_draw d (ext s) = (draw, w)"
    and "2 ^ 63 \<le> sint i + int (draw mod 5000000000)" "requeueResult d tmpl s = (res, s')"
  shows "sint (RequeueAfter res) < 0"
proof -
  let ?j = "Int64N maxRequeueJitter draw"
  have j: "unat ?j = draw mod 5000000000" by (simp add: unat_Int64N interval_values)
  have "unat ?j < 5000000000" unfolding j by simp
  also have "(5000000000 :: nat) < 2 ^ 63" by simp
  finally have j1: "unat ?j < 2 ^ 63" .
  have res: "RequeueAfter res = i + ?j"
    using assms(1,2,4) by (auto simp: requeueResult_def addJitter_def silent_def split: prod.splits)
  have sj: "sint ?j = int (unat ?j)" using j1 by (rule sint_eq_unat)
  have ge: "2 ^ 63 \<le> sint i + sint ?j" using assms(3) unfolding sj j .
  have "sint i < 2 ^ 63" using sint_lt [of i] by simp
  moreover have "sint ?j < 2 ^ 63" using sint_lt [of ?j] by simp
  ultimately have lt: "sint i + sint ?j < 2 ^ 64" by simp
  have "sint (i + ?j) = signed_take_bit 63 (sint i + sint ?j)" by (simp add: sint_word_ariths)
  also have "\<dots> = sint i + sint ?j - 2 ^ 64"
  proof -
    have "signed_take_bit 63 (sint i + sint ?j) = signed_take_bit 63 (sint i + sint ?j - 2 ^ 64)"
      by (simp add: signed_take_bit_eq_iff_take_bit_eq take_bit_eq_mod)
    also have "\<dots> = sint i + sint ?j - 2 ^ 64"
      using ge lt by (intro signed_take_bit_int_eq_self) simp_all
    finally show ?thesis .
  qed
  finally show ?thesis using lt unfolding res by simp
qed

theorem result_overflow_witness:
  "\<exists>res s'. requeueResult (ref_deps\<lparr>rand_draw := \<lambda>w. (1, w)\<rparr>)
       ((sample_tmpl CleanupPolicyDelete)\<lparr>RequeueInterval := Some 0x7FFFFFFFFFFFFFFF\<rparr>) sample_start = (res, s') \<and>
     sint (RequeueAfter res) < 0"
proof -
  let ?d = "ref_deps\<lparr>rand_draw := \<lambda>w. (1, w)\<rparr>"
  let ?t = "(sample_tmpl CleanupPolicyDelete)\<lparr>RequeueInterval := Some 0x7FFFFFFFFFFFFFFF\<rparr>"
  obtain res s' where r: "requeueResult ?d ?t sample_start = (res, s')"
    by (cases "requeueResult ?d ?t sample_start")
  from result_overflow [OF _ _ _ r, of "0x7FFFFFFFFFFFFFFF" 1 "ext sample_start"] r show ?thesis by simp
qed

end
