(* ===== verification/SqlResource.thy ===== *)
theory SqlResource
  imports Helpers
begin

text \<open>
  The contract the controllers of \<open>PostgreSQLDatabase\<close>, \<open>PostgreSQLUser\<close> and \<open>PostgreSQLGrant\<close>
  share. The locale's parameters are the operations such a controller is built from; its
  assumptions are how the reconciliation composes them and which calls each makes. Inside, the
  complete list of the traces of a reconciliation and of a deletion is derived once; each
  controller's theory interprets the locale on its own definitions.
\<close>

lemma case_outcome:
  "(case (case p of (Some err, s) \<Rightarrow> (Some (f err), s) | (None, s) \<Rightarrow> (None, s)) of
      (Some msg, s) \<Rightarrow> F msg s | (None, s) \<Rightarrow> G s)
   = (case p of (Some err, s) \<Rightarrow> F (f err) s | (None, s) \<Rightarrow> G s)"
  "(case (case q of (Inl err, s) \<Rightarrow> (Some (f err), s) | (Inr x, s) \<Rightarrow> H x s) of
      (Some msg, s) \<Rightarrow> F msg s | (None, s) \<Rightarrow> G s)
   = (case q of (Inl err, s) \<Rightarrow> F (f err) s
      | (Inr x, s) \<Rightarrow> (case H x s of (Some msg, s) \<Rightarrow> F msg s | (None, s) \<Rightarrow> G s))"
  by (simp_all split: prod.splits option.splits sum.splits)

locale sql_resource =
  fixes d :: "'w deps"
    and kind :: object_kind
    and object :: "'o \<Rightarrow> client_object"
    and meta :: "'o \<Rightarrow> ObjectMeta"
    and tmpl :: "'o \<Rightarrow> SQLTemplate"
    and conditions :: "(Condition list \<Rightarrow> Condition list) \<Rightarrow> 'o \<Rightarrow> 'o"
    and add_finalizer :: "'o \<Rightarrow> 'o"
    and remove_finalizer :: "'o \<Rightarrow> 'o"
    and get :: "NamespacedName \<Rightarrow> 'w world \<Rightarrow> (gerror + 'o) \<times> 'w world"
    and update :: "'o \<Rightarrow> 'w world \<Rightarrow> (gerror + 'o) \<times> 'w world"
    and connect :: "'o \<Rightarrow> 'w world \<Rightarrow> (gerror + Client) \<times> 'w world"
    and apply_sql :: "'o \<Rightarrow> Client \<Rightarrow> 'w world \<Rightarrow> string option \<times> 'w world"
    and cleanup_sql :: "'o \<Rightarrow> Client \<Rightarrow> 'w world \<Rightarrow> gerror option \<times> 'w world"
    and ready_message :: "'o \<Rightarrow> 'o \<Rightarrow> string"
    and resolved :: "'o \<Rightarrow> gerror + Client \<Rightarrow> event list \<Rightarrow> bool"
    and applied :: "'o \<Rightarrow> pgx_conn \<Rightarrow> event list \<Rightarrow> bool"
    and cleaned :: "'o \<Rightarrow> pgx_conn \<Rightarrow> event list \<Rightarrow> bool"
    and patch :: "'o \<Rightarrow> string \<Rightarrow> string \<Rightarrow> string \<Rightarrow> 'w world \<Rightarrow> 'o \<times> 'w world"
    and remove_and_update :: "'o \<Rightarrow> 'w world \<Rightarrow> (Result \<times> gerror option) \<times> 'w world"
    and ready :: "'o \<Rightarrow> 'o \<Rightarrow> 'w world \<Rightarrow> (Result \<times> gerror option) \<times> 'w world"
    and handle_deletion :: "'o \<Rightarrow> 'w world \<Rightarrow> (Result \<times> gerror option) \<times> 'w world"
    and reconcile :: "NamespacedName \<Rightarrow> 'w world \<Rightarrow> (Result \<times> gerror option) \<times> 'w world"
  assumes own_kind: "kind \<noteq> PostgreSQL_kind" "kind \<noteq> Secret_kind"
    and get_emits: "get key s = (rg, s') \<Longrightarrow>
      emits s s' [EvGet kind key (map_Inr (\<lambda>x. Fetched_object (object x)) rg)]"
    and update_emits: "update x s = (rg, s') \<Longrightarrow> emits s s' [EvUpdate (object x) (map_Inr object rg)]"
    and connect_resolves: "connect x s = (rc, s') \<Longrightarrow> \<exists>evs. emits s s' evs \<and> resolved x rc evs"
    and resolved_events: "resolved x rc evs \<Longrightarrow> resolve_events rc evs"
    and apply_emits: "apply_sql x c s = (ra, s') \<Longrightarrow>
      \<exists>evs. emits s s' evs \<and> list_all (\<lambda>e. sql_on (conn c) e \<or> reads_secret e) evs \<and>
        (ra = None \<longrightarrow> applied x (conn c) evs)"
    and cleanup_emits: "cleanup_sql x c s = (re, s') \<Longrightarrow>
      \<exists>evs. emits s s' evs \<and> list_all (sql_on (conn c)) evs \<and> (re = None \<longrightarrow> cleaned x (conn c) evs)"
    and patch_emits: "patch x status reason message s = (x', s') \<Longrightarrow>
      \<exists>ev. emits s s' [ev] \<and>
        condition_patch d object conditions x (om_Generation (meta x)) status reason message ev"
    and remove_and_update_eq: "remove_and_update x s =
      (case update (remove_finalizer x) s of
         (Inl err, s) \<Rightarrow> ((no_Result, Some err), s)
       | (Inr _, s) \<Rightarrow> ((no_Result, None), s))"
    and ready_eq: "ready x0 x s =
      (case patch x ConditionTrue ReasonSucceeded (ready_message x0 x) s of
         (_, s) \<Rightarrow> (case requeueResult d (tmpl x) s of (res, s) \<Rightarrow> ((res, None), s)))"
    and handle_deletion_eq: "handle_deletion x s =
      (if \<not> ContainsFinalizer d (meta x) FinalizerName then ((no_Result, None), s)
       else if CleanupPolicy (tmpl x) = CleanupPolicyDelete then
         (case connect x s of
            (Inl err, s) \<Rightarrow>
              if IsNotFound d err then remove_and_update x s
              else ((\<lparr>RequeueAfter = defaultRetryInterval\<rparr>, None), s)
          | (Inr c, s) \<Rightarrow>
              defer_Close d c (\<lambda>s. case cleanup_sql x c s of
                  (Some err, s) \<Rightarrow> ((\<lparr>RequeueAfter = defaultRetryInterval\<rparr>, None), s)
                | (None, s) \<Rightarrow> remove_and_update x s) s)
       else remove_and_update x s)"
    and reconcile_eq: "reconcile key s =
      (case get key s of
         (Inl err, s) \<Rightarrow> if IsNotFound d err then ((no_Result, None), s) else ((no_Result, Some err), s)
       | (Inr x, s) \<Rightarrow>
           if \<not> Time_IsZero d (om_DeletionTimestamp (meta x)) then handle_deletion x s
           else (case connect x s of
             (Inl err, s) \<Rightarrow>
               (case patch x ConditionFalse ReasonFailed (''Failed to connect to PostgreSQL: '' @ Error err) s of
                  (_, s) \<Rightarrow> (case retryResult d (tmpl x) s of (res, s) \<Rightarrow> ((res, None), s)))
           | (Inr c, s) \<Rightarrow>
               defer_Close d c (\<lambda>s. case apply_sql x c s of
                   (Some msg, s) \<Rightarrow>
                     (case patch x ConditionFalse ReasonFailed msg s of
                        (_, s) \<Rightarrow> (case retryResult d (tmpl x) s of (res, s) \<Rightarrow> ((res, None), s)))
                 | (None, s) \<Rightarrow>
                     if \<not> ContainsFinalizer d (meta x) FinalizerName then
                       (case update (add_finalizer x) s of
                          (Inl err, s) \<Rightarrow> ((no_Result, Some err), s)
                        | (Inr x', s) \<Rightarrow> ready x x' s)
                     else ready x x s) s))"
begin

text \<open>The reading of an object, and of none.\<close>

abbreviation got :: "NamespacedName \<Rightarrow> 'o \<Rightarrow> event" where
  "got key x \<equiv> EvGet kind key (Inr (Fetched_object (object x)))"

lemma connect_emits:
  assumes "connect x s = (r, s')"
  obtains evs where "emits s s' evs" "resolved x r evs"
  using connect_resolves [OF assms] by blast

lemma remove_and_update_emits:
  assumes "remove_and_update x s = (r, s')"
  obtains e where "emits s s' [EvUpdate (object (remove_finalizer x)) e]" "r = (no_Result, left_of e)"
  using assms update_emits [of "remove_finalizer x" s] that
  by (fastforce simp: remove_and_update_eq split: prod.splits sum.splits)

lemma ready_emits:
  assumes "ready x0 x s = (r, s')"
  obtains ev s1 where "emits s s' [ev]" "snd r = None"
    "condition_patch d object conditions x (om_Generation (meta x)) ConditionTrue ReasonSucceeded
       (ready_message x0 x) ev"
    "requeueResult d (tmpl x) s1 = (fst r, s')"
proof -
  obtain x' s1 where p: "patch x ConditionTrue ReasonSucceeded (ready_message x0 x) s = (x', s1)"
    by (cases "patch x ConditionTrue ReasonSucceeded (ready_message x0 x) s")
  obtain res s2 where q: "requeueResult d (tmpl x) s1 = (res, s2)"
    by (cases "requeueResult d (tmpl x) s1")
  from assms p q have r: "r = (res, None)" "s' = s2" by (simp_all add: ready_eq)
  from patch_emits [OF p] obtain ev where ev: "emits s s1 [ev]"
    "condition_patch d object conditions x (om_Generation (meta x)) ConditionTrue ReasonSucceeded
       (ready_message x0 x) ev" by blast
  from emits_trans [OF ev(1) emits_results(1) [OF q]] have "emits s s2 [ev]" by simp
  with that ev(2) q r show ?thesis by simp
qed

text \<open>The body a failed step shares: report the failure, then the retry interval.\<close>

lemma fail_emits:
  assumes "(case patch x ConditionFalse ReasonFailed msg s of
      (_, s) \<Rightarrow> (case retryResult d (tmpl x) s of (res, s) \<Rightarrow> ((res, None), s))) = (r, s')"
  obtains ev s1 where "emits s s' [ev]" "snd r = None"
    "condition_patch d object conditions x (om_Generation (meta x)) ConditionFalse ReasonFailed msg ev"
    "retryResult d (tmpl x) s1 = (fst r, s')"
proof -
  obtain x' s1 where p: "patch x ConditionFalse ReasonFailed msg s = (x', s1)"
    by (cases "patch x ConditionFalse ReasonFailed msg s")
  obtain res s2 where q: "retryResult d (tmpl x) s1 = (res, s2)"
    by (cases "retryResult d (tmpl x) s1")
  from assms p q have r: "r = (res, None)" "s' = s2" by simp_all
  from patch_emits [OF p] obtain ev where ev: "emits s s1 [ev]"
    "condition_patch d object conditions x (om_Generation (meta x)) ConditionFalse ReasonFailed msg ev"
    by blast
  from emits_trans [OF ev(1) emits_results(2) [OF q]] have "emits s s2 [ev]" by simp
  with that ev(2) q r show ?thesis by simp
qed

text \<open>The part of a deletion that runs on an open connection.\<close>

lemma cleanup_cases:
  assumes "defer_Close d c (\<lambda>s. case cleanup_sql x c s of
      (Some err, s) \<Rightarrow> ((\<lparr>RequeueAfter = defaultRetryInterval\<rparr>, None), s)
    | (None, s) \<Rightarrow> remove_and_update x s) s = (r, s')"
  obtains (failed) levs ce where "list_all (sql_on (conn c)) levs" "emits s s' (levs @ [EvClose (conn c) ce])"
      "r = (\<lparr>RequeueAfter = defaultRetryInterval\<rparr>, None)"
  | (finished) levs e ce where "list_all (sql_on (conn c)) levs" "cleaned x (conn c) levs"
      "emits s s' (levs @ [EvUpdate (object (remove_finalizer x)) e, EvClose (conn c) ce])"
      "r = (no_Result, left_of e)"
proof -
  obtain s2 ce where body: "(case cleanup_sql x c s of
      (Some err, s) \<Rightarrow> ((\<lparr>RequeueAfter = defaultRetryInterval\<rparr>, None), s)
    | (None, s) \<Rightarrow> remove_and_update x s) = (r, s2)" and cl: "emits s2 s' [EvClose (conn c) ce]"
    using assms by (rule emits_defer_Close)
  obtain rl s1 where cs: "cleanup_sql x c s = (rl, s1)" by (cases "cleanup_sql x c s")
  from cleanup_emits [OF cs] obtain levs where l: "emits s s1 levs" "list_all (sql_on (conn c)) levs"
    "rl = None \<longrightarrow> cleaned x (conn c) levs" by blast
  show ?thesis
  proof (cases rl)
    case (Some err)
    with body cs have "s2 = s1" "r = (\<lparr>RequeueAfter = defaultRetryInterval\<rparr>, None)" by simp_all
    with failed l(2) emits_trans [OF l(1)] cl show ?thesis by blast
  next
    case None
    with body cs have "remove_and_update x s1 = (r, s2)" by simp
    then obtain e where u: "emits s1 s2 [EvUpdate (object (remove_finalizer x)) e]" "r = (no_Result, left_of e)"
      by (rule remove_and_update_emits)
    have "emits s s' (levs @ [EvUpdate (object (remove_finalizer x)) e, EvClose (conn c) ce])"
      using emits_trans [OF l(1) emits_trans [OF u(1) cl]] by simp
    with finished l None u(2) show ?thesis by blast
  qed
qed

lemma deletion_cases:
  assumes del: "handle_deletion x s = (r, s')"
  obtains
    (no_finalizer) "\<not> ContainsFinalizer d (meta x) FinalizerName" "r = (no_Result, None)" "s' = s"
  | (kept) e where "ContainsFinalizer d (meta x) FinalizerName" "CleanupPolicy (tmpl x) \<noteq> CleanupPolicyDelete"
      "emits s s' [EvUpdate (object (remove_finalizer x)) e]" "r = (no_Result, left_of e)"
  | (gone) err cevs e where "ContainsFinalizer d (meta x) FinalizerName" "CleanupPolicy (tmpl x) = CleanupPolicyDelete"
      "resolved x (Inl err) cevs" "IsNotFound d err"
      "emits s s' (cevs @ [EvUpdate (object (remove_finalizer x)) e])" "r = (no_Result, left_of e)"
  | (unreachable) err cevs where "ContainsFinalizer d (meta x) FinalizerName"
      "CleanupPolicy (tmpl x) = CleanupPolicyDelete" "resolved x (Inl err) cevs" "\<not> IsNotFound d err"
      "emits s s' cevs" "r = (\<lparr>RequeueAfter = defaultRetryInterval\<rparr>, None)"
  | (cleanup_failed) c cevs levs ce where "ContainsFinalizer d (meta x) FinalizerName"
      "CleanupPolicy (tmpl x) = CleanupPolicyDelete" "resolved x (Inr c) cevs"
      "list_all (sql_on (conn c)) levs" "emits s s' (cevs @ levs @ [EvClose (conn c) ce])"
      "r = (\<lparr>RequeueAfter = defaultRetryInterval\<rparr>, None)"
  | (cleaned_up) c cevs levs e ce where "ContainsFinalizer d (meta x) FinalizerName"
      "CleanupPolicy (tmpl x) = CleanupPolicyDelete" "resolved x (Inr c) cevs"
      "list_all (sql_on (conn c)) levs" "cleaned x (conn c) levs"
      "emits s s' (cevs @ levs @ [EvUpdate (object (remove_finalizer x)) e, EvClose (conn c) ce])"
      "r = (no_Result, left_of e)"
proof (cases "ContainsFinalizer d (meta x) FinalizerName")
  case False
  with del have "r = (no_Result, None)" "s' = s" by (simp_all add: handle_deletion_eq)
  with no_finalizer False show ?thesis by blast
next
  case has: True
  show ?thesis
  proof (cases "CleanupPolicy (tmpl x) = CleanupPolicyDelete")
    case False
    with has del have "remove_and_update x s = (r, s')" by (simp add: handle_deletion_eq)
    then show ?thesis by (rule remove_and_update_emits) (rule kept [OF has False])
  next
    case pol: True
    obtain rc s1 where con: "connect x s = (rc, s1)" by (cases "connect x s")
    obtain cevs where c1: "emits s s1 cevs" and c2: "resolved x rc cevs"
      using connect_emits [OF con] by blast
    show ?thesis
    proof (cases rc)
      case (Inl err)
      show ?thesis
      proof (cases "IsNotFound d err")
        case True
        with has pol con Inl del have "remove_and_update x s1 = (r, s')"
          by (simp add: handle_deletion_eq)
        then obtain e where "emits s1 s' [EvUpdate (object (remove_finalizer x)) e]" "r = (no_Result, left_of e)"
          by (rule remove_and_update_emits)
        with gone [OF has pol] c2 True Inl emits_trans [OF c1] show ?thesis by blast
      next
        case False
        with has pol con Inl del have "s' = s1" "r = (\<lparr>RequeueAfter = defaultRetryInterval\<rparr>, None)"
          by (simp_all add: handle_deletion_eq)
        with unreachable [OF has pol] c1 c2 False Inl show ?thesis by blast
      qed
    next
      case (Inr c)
      with has pol con del have "defer_Close d c (\<lambda>s. case cleanup_sql x c s of
          (Some err, s) \<Rightarrow> ((\<lparr>RequeueAfter = defaultRetryInterval\<rparr>, None), s)
        | (None, s) \<Rightarrow> remove_and_update x s) s1 = (r, s')"
        by (simp add: handle_deletion_eq)
      then show ?thesis
        by (cases rule: cleanup_cases)
          (use cleanup_failed [OF has pol] cleaned_up [OF has pol] c2 Inr emits_trans [OF c1] in blast)+
    qed
  qed
qed

text \<open>The part of a reconciliation that runs on an open connection.\<close>

lemma apply_cases:
  assumes "defer_Close d c (\<lambda>s. case apply_sql x c s of
      (Some msg, s) \<Rightarrow>
        (case patch x ConditionFalse ReasonFailed msg s of
           (_, s) \<Rightarrow> (case retryResult d (tmpl x) s of (res, s) \<Rightarrow> ((res, None), s)))
    | (None, s) \<Rightarrow>
        if \<not> ContainsFinalizer d (meta x) FinalizerName then
          (case update (add_finalizer x) s of
             (Inl err, s) \<Rightarrow> ((no_Result, Some err), s)
           | (Inr x', s) \<Rightarrow> ready x x' s)
        else ready x x s) s = (r, s')"
  obtains (failed) levs msg ev s1 s2 ce where "list_all (\<lambda>e. sql_on (conn c) e \<or> reads_secret e) levs"
      "condition_patch d object conditions x (om_Generation (meta x)) ConditionFalse ReasonFailed msg ev"
      "emits s s' (levs @ [ev, EvClose (conn c) ce])" "snd r = None" "retryResult d (tmpl x) s1 = (fst r, s2)"
  | (update_failed) levs e ce where "list_all (\<lambda>e. sql_on (conn c) e \<or> reads_secret e) levs" "applied x (conn c) levs"
      "\<not> ContainsFinalizer d (meta x) FinalizerName"
      "emits s s' (levs @ [EvUpdate (object (add_finalizer x)) (Inl e), EvClose (conn c) ce])"
      "r = (no_Result, Some e)"
  | (added) levs x' ev s1 s2 ce where "list_all (\<lambda>e. sql_on (conn c) e \<or> reads_secret e) levs" "applied x (conn c) levs"
      "\<not> ContainsFinalizer d (meta x) FinalizerName"
      "condition_patch d object conditions x' (om_Generation (meta x')) ConditionTrue ReasonSucceeded
         (ready_message x x') ev"
      "emits s s' (levs @ [EvUpdate (object (add_finalizer x)) (Inr (object x')), ev, EvClose (conn c) ce])"
      "snd r = None" "requeueResult d (tmpl x') s1 = (fst r, s2)"
  | (present) levs ev s1 s2 ce where "list_all (\<lambda>e. sql_on (conn c) e \<or> reads_secret e) levs" "applied x (conn c) levs"
      "ContainsFinalizer d (meta x) FinalizerName"
      "condition_patch d object conditions x (om_Generation (meta x)) ConditionTrue ReasonSucceeded
         (ready_message x x) ev"
      "emits s s' (levs @ [ev, EvClose (conn c) ce])"
      "snd r = None" "requeueResult d (tmpl x) s1 = (fst r, s2)"
proof -
  obtain ra s1 where ap: "apply_sql x c s = (ra, s1)" by (cases "apply_sql x c s")
  from apply_emits [OF ap] obtain levs where l: "emits s s1 levs"
    "list_all (\<lambda>e. sql_on (conn c) e \<or> reads_secret e) levs" "ra = None \<longrightarrow> applied x (conn c) levs" by blast
  obtain s2 ce where body: "(case (ra, s1) of
      (Some msg, s) \<Rightarrow>
        (case patch x ConditionFalse ReasonFailed msg s of
           (_, s) \<Rightarrow> (case retryResult d (tmpl x) s of (res, s) \<Rightarrow> ((res, None), s)))
    | (None, s) \<Rightarrow>
        if \<not> ContainsFinalizer d (meta x) FinalizerName then
          (case update (add_finalizer x) s of
             (Inl err, s) \<Rightarrow> ((no_Result, Some err), s)
           | (Inr x', s) \<Rightarrow> ready x x' s)
        else ready x x s) = (r, s2)" and cl: "emits s2 s' [EvClose (conn c) ce]"
    using assms by (rule emits_defer_Close) (simp add: ap)
  show ?thesis
  proof (cases ra)
    case (Some msg)
    with body show ?thesis
      by (auto elim!: fail_emits intro!: failed [OF l(2)] dest: emits_trans [OF l(1) emits_trans [OF _ cl]])
  next
    case ra: None
    show ?thesis
    proof (cases "ContainsFinalizer d (meta x) FinalizerName")
      case True
      with body ra have "ready x x s1 = (r, s2)" by simp
      then show ?thesis
        using ra l True
        by (auto elim!: ready_emits intro!: present [OF l(2)] dest: emits_trans [OF l(1) emits_trans [OF _ cl]])
    next
      case no: False
      obtain ru s3 where up: "update (add_finalizer x) s1 = (ru, s3)" by (cases "update (add_finalizer x) s1")
      note u = update_emits [OF up]
      show ?thesis
      proof (cases ru)
        case (Inl e)
        with body ra no up have "r = (no_Result, Some e)" "s2 = s3" by simp_all
        with Inl u cl have "emits s s' (levs @ [EvUpdate (object (add_finalizer x)) (Inl e), EvClose (conn c) ce])"
          using emits_trans [OF l(1) emits_trans [OF u]] by fastforce
        with \<open>r = (no_Result, Some e)\<close> l ra no show ?thesis by (intro update_failed) auto
      next
        case (Inr x')
        with body ra no up have "ready x x' s3 = (r, s2)" by simp
        then show ?thesis
        proof (rule ready_emits)
          fix ev s4
          assume ev: "emits s3 s2 [ev]"
          have "emits s s' (levs @ [EvUpdate (object (add_finalizer x)) (Inr (object x')), ev, EvClose (conn c) ce])"
            using emits_trans [OF l(1) emits_trans [OF u emits_trans [OF ev cl]]] Inr by simp
          then show ?thesis if "snd r = None" "requeueResult d (tmpl x') s4 = (fst r, s2)"
            "condition_patch d object conditions x' (om_Generation (meta x')) ConditionTrue ReasonSucceeded
               (ready_message x x') ev"
            using that l ra no by (intro added) auto
        qed
      qed
    qed
  qed
qed

text \<open>The list of all reconciliations, up to the two parts above.\<close>

lemma reconcile_cases:
  assumes rec: "reconcile key s = (r, s')"
  obtains
    (not_found) err where "emits s s' [EvGet kind key (Inl err)]" "IsNotFound d err" "r = (no_Result, None)"
  | (get_error) err where "emits s s' [EvGet kind key (Inl err)]" "\<not> IsNotFound d err" "r = (no_Result, Some err)"
  | (deleting) x s1 where "get key s = (Inr x, s1)" "emits s s1 [got key x]"
      "\<not> Time_IsZero d (om_DeletionTimestamp (meta x))" "handle_deletion x s1 = (r, s')"
  | (unreachable) x s1 err cevs ev s2 s3 where "get key s = (Inr x, s1)"
      "Time_IsZero d (om_DeletionTimestamp (meta x))" "resolved x (Inl err) cevs"
      "condition_patch d object conditions x (om_Generation (meta x)) ConditionFalse ReasonFailed
         (''Failed to connect to PostgreSQL: '' @ Error err) ev"
      "emits s s' (got key x # cevs @ [ev])" "snd r = None" "retryResult d (tmpl x) s2 = (fst r, s3)"
  | (connected) x s1 c cevs s2 where "get key s = (Inr x, s1)"
      "Time_IsZero d (om_DeletionTimestamp (meta x))" "resolved x (Inr c) cevs"
      "emits s s2 (got key x # cevs)"
      "defer_Close d c (\<lambda>s. case apply_sql x c s of
        (Some msg, s) \<Rightarrow>
          (case patch x ConditionFalse ReasonFailed msg s of
             (_, s) \<Rightarrow> (case retryResult d (tmpl x) s of (res, s) \<Rightarrow> ((res, None), s)))
      | (None, s) \<Rightarrow>
          if \<not> ContainsFinalizer d (meta x) FinalizerName then
            (case update (add_finalizer x) s of
               (Inl err, s) \<Rightarrow> ((no_Result, Some err), s)
             | (Inr x', s) \<Rightarrow> ready x x' s)
          else ready x x s) s2 = (r, s')"
proof -
  obtain rg s1 where g: "get key s = (rg, s1)" by (cases "get key s")
  note k = get_emits [OF g]
  show ?thesis
  proof (cases rg)
    case (Inl err)
    with rec g k not_found get_error show ?thesis
      by (cases "IsNotFound d err") (auto simp: reconcile_eq)
  next
    case (Inr x)
    show ?thesis
    proof (cases "Time_IsZero d (om_DeletionTimestamp (meta x))")
      case False
      with rec g Inr k deleting show ?thesis by (auto simp: reconcile_eq)
    next
      case live: True
      obtain rc s2 where con: "connect x s1 = (rc, s2)" by (cases "connect x s1")
      obtain cevs where c: "emits s1 s2 cevs" "resolved x rc cevs"
        using connect_emits [OF con] by blast
      have e: "emits s s2 (got key x # cevs)"
        using emits_trans [OF k c(1)] Inr by simp
      show ?thesis
      proof (cases rc)
        case (Inl err)
        with rec g \<open>rg = Inr x\<close> live con have
          "(case patch x ConditionFalse ReasonFailed (''Failed to connect to PostgreSQL: '' @ Error err) s2 of
             (_, s) \<Rightarrow> (case retryResult d (tmpl x) s of (res, s) \<Rightarrow> ((res, None), s))) = (r, s')"
          by (simp add: reconcile_eq)
        then show ?thesis
        proof (rule fail_emits)
          fix ev s3
          assume "emits s2 s' [ev]" and "snd r = None" and "retryResult d (tmpl x) s3 = (fst r, s')"
            and "condition_patch d object conditions x (om_Generation (meta x)) ConditionFalse ReasonFailed
              (''Failed to connect to PostgreSQL: '' @ Error err) ev"
          with emits_trans [OF e, of s' "[ev]"] g \<open>rg = Inr x\<close> c(2) Inl show ?thesis
            by (intro unreachable [where x = x, OF _ live]) simp_all
        qed
      next
        case (Inr cl)
        with rec g \<open>rg = Inr x\<close> live con show ?thesis
          by (intro connected [where x = x, OF _ live]) (use c e in \<open>simp_all add: reconcile_eq\<close>)
      qed
    qed
  qed
qed

end

end
