(* ===== verification/ResourceLaws.thy ===== *)
theory ResourceLaws
  imports SqlResource
begin

text \<open>
  What the shared contract guarantees of every reconciliation: connections are balanced, the
  finalizer is added and removed only when that is safe, the condition reports what happened, and
  the result carries exactly the errors and intervals it should. Each controller gets these facts
  from its interpretation of the contract.
\<close>

section \<open>Locating the one event of a class\<close>

lemma split_unique:
  assumes "a @ ev0 # b = pre @ ev # post" "P ev" "list_all (\<lambda>e. \<not> P e) a" "list_all (\<lambda>e. \<not> P e) b"
  shows "pre = a \<and> ev = ev0 \<and> post = b"
  using assms
proof (induction a arbitrary: pre)
  case Nil
  then show ?case by (cases pre) auto
next
  case (Cons x a)
  then show ?case by (cases pre) auto
qed

lemma split_none: "list_all (\<lambda>e. \<not> P e) (pre @ ev # post) \<Longrightarrow> \<not> P ev"
  by simp

lemma sql_or_get_kinds:
  "list_all (\<lambda>e. sql_on c e \<or> reads_secret e) evs \<Longrightarrow> list_all (\<lambda>e. \<not> is_update e) evs"
  "list_all (\<lambda>e. sql_on c e \<or> reads_secret e) evs \<Longrightarrow> list_all (\<lambda>e. \<not> is_patch e) evs"
  "list_all (sql_on c) evs \<Longrightarrow> list_all (\<lambda>e. sql_on c e \<or> reads_secret e) evs"
  by (induction evs) (auto elim: sql_on.elims reads_secret.elims)

lemma sql_kinds:
  "list_all (sql_on c) evs \<Longrightarrow> list_all (\<lambda>e. \<not> is_update e) evs"
  "list_all (sql_on c) evs \<Longrightarrow> list_all (\<lambda>e. \<not> is_patch e) evs"
  by (drule sql_or_get_kinds(3), simp add: sql_or_get_kinds)+

lemma resolve_kinds:
  "resolve_events r evs \<Longrightarrow> list_all (\<lambda>e. \<not> is_update e) evs"
  "resolve_events r evs \<Longrightarrow> list_all (\<lambda>e. \<not> is_patch e) evs"
  by (drule resolve_events_kinds, simp add: list_all_iff)+

lemmas event_kinds = sql_or_get_kinds(1,2) sql_kinds resolve_kinds

lemma patch_kinds:
  assumes "condition_patch d as_object conditions ob generation status reason message ev"
  shows "is_patch ev" "\<not> is_update ev" "\<not> is_pg ev"
  using assms by (auto simp: condition_patch_def)

section \<open>Connections\<close>

lemma conn_run_closed:
  assumes "resolve_events (Inr c) cevs" "list_all (\<lambda>e. sql_on (conn c) e \<or> reads_secret e) levs"
    and "list_all (\<lambda>e. \<not> is_pg e) mid"
  shows "conn_run os (cevs @ levs @ mid @ [EvClose (conn c) ce]) = Some os"
  using resolve_events_conn [OF assms(1), of os] conn_run_sql [OF assms(2), of "conn c # os"]
    conn_run_offline [OF assms(3), of "conn c # os"]
  by (simp add: conn_run_append)

lemma conn_run_opened:
  assumes "resolve_events (Inl err) cevs" "list_all (\<lambda>e. \<not> is_pg e) mid"
  shows "conn_run os (cevs @ mid) = Some os"
  using resolve_events_conn [OF assms(1), of os] conn_run_offline [OF assms(2), of os]
  by (simp add: conn_run_append)

context sql_resource
begin

lemmas trace_kinds = event_kinds resolve_kinds [OF resolved_events]

lemmas since_kinds = since_read_sql [OF _ own_kind(2)] since_read_sql [OF sql_or_get_kinds(3) own_kind(2)]
  resolve_events_since [OF resolved_events own_kind]

lemma deletion_balanced:
  assumes "handle_deletion x s = (r, s')" "emits s s' evs"
  shows "conn_run os evs = Some os"
  using assms(1)
proof (cases rule: deletion_cases)
  case no_finalizer
  with assms(2) emits_unique [OF assms(2), of "[]"] show ?thesis by (simp add: emits_refl)
next
  case (kept e)
  then show ?thesis using emits_unique [OF assms(2)] by fastforce
next
  case (gone err cevs e)
  with emits_unique [OF assms(2) this(5)] conn_run_opened [OF resolved_events [OF this(3)]]
  show ?thesis by simp
next
  case (unreachable err cevs)
  with emits_unique [OF assms(2) this(5)] conn_run_opened [OF resolved_events [OF this(3)], of "[]"] show ?thesis by simp
next
  case (cleanup_failed c cevs levs ce)
  with emits_unique [OF assms(2) this(5)] conn_run_closed [OF resolved_events [OF this(3)] sql_or_get_kinds(3) [OF this(4)], of "[]"]
  show ?thesis by simp
next
  case (cleaned_up c cevs levs e ce)
  with emits_unique [OF assms(2) this(6)]
    conn_run_closed [OF resolved_events [OF this(3)] sql_or_get_kinds(3) [OF this(4)], of "[EvUpdate (object (remove_finalizer x)) e]"]
  show ?thesis by simp
qed

lemma reconcile_balanced:
  assumes "reconcile key s = (r, s')" "emits s s' evs"
  shows "conn_run os evs = Some os"
  using assms(1)
proof (cases rule: reconcile_cases)
  case (not_found err)
  then show ?thesis using emits_unique [OF assms(2)] by fastforce
next
  case (get_error err)
  then show ?thesis using emits_unique [OF assms(2)] by fastforce
next
  case (deleting x s1)
  obtain evs' where e: "emits s1 s' evs'"
    using deleting(4) by (cases rule: deletion_cases) (use emits_refl in blast)+
  with emits_unique [OF assms(2) emits_trans [OF deleting(2) e]] deletion_balanced [OF deleting(4) e, of os]
  show ?thesis by simp
next
  case (unreachable x s1 err cevs ev s2 s3)
  with emits_unique [OF assms(2) this(5)] patch_kinds [OF this(4)]
    conn_run_opened [OF resolved_events [OF this(3)], of "[ev]"]
  show ?thesis by simp
next
  case (connected x s1 c cevs s2)
  note closed = conn_run_closed [OF resolved_events [OF connected(3)]]
  from connected(5) show ?thesis
  proof (cases rule: apply_cases)
    case (failed levs msg ev s3 s4 ce)
    with emits_unique [OF assms(2) emits_trans [OF connected(4) this(3)]]
      patch_kinds [OF this(2)] closed [OF this(1), of "[ev]"]
    show ?thesis by simp
  next
    case (update_failed levs e ce)
    with emits_unique [OF assms(2) emits_trans [OF connected(4) this(4)]]
      closed [OF this(1), of "[EvUpdate (object (add_finalizer x)) (Inl e)]"]
    show ?thesis by simp
  next
    case (added levs x' ev s3 s4 ce)
    with emits_unique [OF assms(2) emits_trans [OF connected(4) this(5)]]
      patch_kinds [OF this(4)]
      closed [OF this(1), of "[EvUpdate (object (add_finalizer x)) (Inr (object x')), ev]"]
    show ?thesis by simp
  next
    case (present levs ev s3 s4 ce)
    with emits_unique [OF assms(2) emits_trans [OF connected(4) this(5)]]
      patch_kinds [OF this(4)] closed [OF this(1), of "[ev]"]
    show ?thesis by simp
  qed
qed

end

section \<open>Updates: the finalizer\<close>

lemma one_update:
  assumes "emits s s' (a @ EvUpdate ob0 e0 # b)" "emits s s' (pre @ EvUpdate ob e # post)"
    and "list_all (\<lambda>ev. \<not> is_update ev) a" "list_all (\<lambda>ev. \<not> is_update ev) b"
  shows "pre = a \<and> ob = ob0 \<and> e = e0 \<and> post = b"
  using split_unique [of a "EvUpdate ob0 e0" b pre "EvUpdate ob e" post is_update]
    emits_unique [OF assms(1,2)] assms(3,4) by simp

lemma no_update:
  assumes "emits s s' evs" "emits s s' (pre @ EvUpdate ob e # post)" "list_all (\<lambda>ev. \<not> is_update ev) evs"
  shows False
  using emits_unique [OF assms(1,2)] assms(3) by simp

context sql_resource
begin

lemma deletion_updates:
  assumes "handle_deletion x s = (r, s')" "emits s s' (pre @ EvUpdate ob e # post)"
  shows "ContainsFinalizer d (meta x) FinalizerName \<and> ob = object (remove_finalizer x) \<and> r = (no_Result, left_of e) \<and>
    (CleanupPolicy (tmpl x) = CleanupPolicyDelete \<longrightarrow>
      (\<exists>err. resolved x (Inl err) pre \<and> IsNotFound d err) \<or>
      (\<exists>c cevs levs. pre = cevs @ levs \<and> resolved x (Inr c) cevs \<and> cleaned x (conn c) levs))"
  using assms(1)
proof (cases rule: deletion_cases)
  case no_finalizer
  then show ?thesis using no_update [OF emits_refl, of s' pre ob e post] assms(2) by simp
next
  case (kept e0)
  with one_update [of s s' "[]" _ e0 "[]"] assms(2) show ?thesis by fastforce
next
  case (gone err cevs e0)
  with one_update [OF this(5) assms(2)] trace_kinds show ?thesis by auto
next
  case (unreachable err cevs)
  with no_update [OF this(5) assms(2)] trace_kinds show ?thesis by auto
next
  case (cleanup_failed c cevs levs ce)
  with no_update [OF this(5) assms(2)] trace_kinds show ?thesis by auto
next
  case (cleaned_up c cevs levs e0 ce)
  with one_update [of s s' "cevs @ levs", OF _ assms(2)] trace_kinds show ?thesis by fastforce
qed

lemma reconcile_updates:
  assumes "reconcile key s = (r, s')" "emits s s' (pre @ EvUpdate ob e # post)"
  obtains
    (added) x s1 c cevs levs where "get key s = (Inr x, s1)" "Time_IsZero d (om_DeletionTimestamp (meta x))"
      "\<not> ContainsFinalizer d (meta x) FinalizerName" "ob = object (add_finalizer x)"
      "pre = got key x # cevs @ levs" "resolved x (Inr c) cevs" "applied x (conn c) levs"
      "snd r = left_of e" "list_all (since_read kind) (cevs @ levs)"
  | (removed) x s1 pre' where "get key s = (Inr x, s1)" "\<not> Time_IsZero d (om_DeletionTimestamp (meta x))"
      "handle_deletion x s1 = (r, s')" "emits s1 s' (pre' @ EvUpdate ob e # post)"
      "pre = got key x # pre'"
  using assms(1)
proof (cases rule: reconcile_cases)
  case (not_found err)
  with no_update [OF this(1) assms(2)] show ?thesis by simp
next
  case (get_error err)
  with no_update [OF this(1) assms(2)] show ?thesis by simp
next
  case (deleting x s1)
  obtain evs' where e: "emits s1 s' evs'"
    using deleting(4) by (cases rule: deletion_cases) (use emits_refl in blast)+
  from emits_unique [OF assms(2) emits_trans [OF deleting(2) e]]
  obtain pre' where "pre = got key x # pre'" "evs' = pre' @ EvUpdate ob e # post"
    by (cases pre) auto
  with e deleting removed show ?thesis by blast
next
  case (unreachable x s1 err cevs ev s2 s3)
  have "\<not> is_update ev" by (rule patch_kinds [OF unreachable(4)])
  with unreachable no_update [OF unreachable(5) assms(2)] trace_kinds show ?thesis by auto
next
  case (connected x s1 c cevs s2)
  have quiet: "list_all (\<lambda>ev. \<not> is_update ev) (got key x # cevs)"
    using connected(3) trace_kinds by auto
  from connected(5) show ?thesis
  proof (cases rule: apply_cases)
    case (failed levs msg ev s3 s4 ce)
    have "\<not> is_update ev" by (rule patch_kinds [OF failed(2)])
    with no_update [OF emits_trans [OF connected(4) failed(3)] assms(2)] quiet failed(1) trace_kinds
    show ?thesis by auto
  next
    case (update_failed levs e0 ce)
    from emits_trans [OF connected(4) this(4)]
    have "emits s s' ((got key x # cevs @ levs) @ EvUpdate (object (add_finalizer x)) (Inl e0) # [EvClose (conn c) ce])"
      by simp
    from one_update [OF this assms(2)] quiet update_failed trace_kinds since_kinds connected(3)
    show ?thesis by (intro added [OF connected(1,2) _ _ _ connected(3), of levs]) auto
  next
    case (added levs x' ev s3 s4 ce)
    have "\<not> is_update ev" by (rule patch_kinds [OF added(4)])
    from emits_trans [OF connected(4) added(5)]
    have "emits s s' ((got key x # cevs @ levs) @ EvUpdate (object (add_finalizer x)) (Inr (object x')) # [ev, EvClose (conn c) ce])"
      by simp
    from one_update [OF this assms(2)] quiet added \<open>\<not> is_update ev\<close> trace_kinds since_kinds connected(3)
    show ?thesis by (intro that(1) [OF connected(1,2) _ _ _ connected(3), of levs]) auto
  next
    case (present levs ev s3 s4 ce)
    have "\<not> is_update ev" by (rule patch_kinds [OF present(4)])
    with no_update [OF emits_trans [OF connected(4) present(5)] assms(2)] quiet present(1) trace_kinds
    show ?thesis by auto
  qed
qed

end

section \<open>Status patches and the interval of the result\<close>

lemma one_patch:
  assumes "emits s s' (a @ ev0 # b)" "emits s s' (pre @ ev # post)" "is_patch ev"
    and "list_all (\<lambda>ev. \<not> is_patch ev) a" "list_all (\<lambda>ev. \<not> is_patch ev) b"
  shows "pre = a \<and> ev = ev0 \<and> post = b"
  using split_unique [of a ev0 b pre ev post is_patch] emits_unique [OF assms(1,2)] assms(3-5) by simp

lemma no_patch:
  assumes "emits s s' evs" "emits s s' (pre @ ev # post)" "is_patch ev" "list_all (\<lambda>ev. \<not> is_patch ev) evs"
  shows False
  using emits_unique [OF assms(1,2)] assms(3,4) by simp

context sql_resource
begin

lemma deletion_no_patch:
  assumes "handle_deletion x s = (r, s')" "emits s s' evs"
  shows "list_all (\<lambda>ev. \<not> is_patch ev) evs"
  using assms(1)
proof (cases rule: deletion_cases)
  case no_finalizer
  with emits_unique [OF assms(2), of "[]"] show ?thesis by (simp add: emits_refl)
next
  case (kept e)
  with emits_unique [OF assms(2) this(3)] show ?thesis by simp
next
  case (gone err cevs e)
  with emits_unique [OF assms(2) this(5)] trace_kinds show ?thesis by simp
next
  case (unreachable err cevs)
  with emits_unique [OF assms(2) this(5)] trace_kinds show ?thesis by simp
next
  case (cleanup_failed c cevs levs ce)
  with emits_unique [OF assms(2) this(5)] trace_kinds show ?thesis by simp
next
  case (cleaned_up c cevs levs e ce)
  with emits_unique [OF assms(2) this(6)] trace_kinds show ?thesis by simp
qed

lemma reconcile_patches:
  assumes "reconcile key s = (r, s')" "emits s s' (pre @ ev # post)" "is_patch ev"
  obtains
    (failed) x s1 msg s2 s3 pre' where "get key s = (Inr x, s1)" "Time_IsZero d (om_DeletionTimestamp (meta x))"
      "pre = got key x # pre'"
      "condition_patch d object conditions x (om_Generation (meta x)) ConditionFalse ReasonFailed msg ev"
      "snd r = None" "retryResult d (tmpl x) s2 = (fst r, s3)" "list_all (since_read kind) pre'"
  | (succeeded) x s1 c cevs levs ups x' s2 s3 where "get key s = (Inr x, s1)"
      "Time_IsZero d (om_DeletionTimestamp (meta x))"
      "pre = got key x # cevs @ levs @ ups" "resolved x (Inr c) cevs" "applied x (conn c) levs"
      "if ContainsFinalizer d (meta x) FinalizerName then ups = [] \<and> x' = x
       else ups = [EvUpdate (object (add_finalizer x)) (Inr (object x'))]"
      "condition_patch d object conditions x' (om_Generation (meta x')) ConditionTrue ReasonSucceeded
         (ready_message x x') ev"
      "snd r = None" "requeueResult d (tmpl x') s2 = (fst r, s3)" "list_all (since_read kind) (cevs @ levs)"
  using assms(1)
proof (cases rule: reconcile_cases)
  case (not_found err)
  with no_patch [OF this(1) assms(2,3)] show ?thesis by simp
next
  case (get_error err)
  with no_patch [OF this(1) assms(2,3)] show ?thesis by simp
next
  case (deleting x s1)
  obtain evs' where e: "emits s1 s' evs'"
    using deleting(4) by (cases rule: deletion_cases) (use emits_refl in blast)+
  from no_patch [OF emits_trans [OF deleting(2) e] assms(2,3)] deletion_no_patch [OF deleting(4) e]
  show ?thesis by simp
next
  case (unreachable x s1 err cevs ev0 s2 s3)
  from unreachable(5) have "emits s s' ((got key x # cevs) @ ev0 # [])" by simp
  from one_patch [OF this assms(2,3)] unreachable trace_kinds since_kinds
  show ?thesis by (intro failed [OF unreachable(1,2) _ _ unreachable(6,7)]) auto
next
  case (connected x s1 c cevs s2)
  have quiet: "list_all (\<lambda>ev. \<not> is_patch ev) (got key x # cevs)"
    using connected(3) trace_kinds by auto
  from connected(5) show ?thesis
  proof (cases rule: apply_cases)
    case (failed levs msg ev0 s3 s4 ce)
    from emits_trans [OF connected(4) this(3)]
    have "emits s s' ((got key x # cevs @ levs) @ ev0 # [EvClose (conn c) ce])" by simp
    from one_patch [OF this assms(2,3)] quiet failed trace_kinds since_kinds connected(3)
    show ?thesis by (intro that(1) [OF connected(1,2) _ _ failed(4,5)]) auto
  next
    case (update_failed levs e0 ce)
    with no_patch [OF emits_trans [OF connected(4) update_failed(4)] assms(2,3)] quiet trace_kinds
    show ?thesis by auto
  next
    case (added levs x' ev0 s3 s4 ce)
    from emits_trans [OF connected(4) added(5)]
    have "emits s s' ((got key x # cevs @ levs @ [EvUpdate (object (add_finalizer x)) (Inr (object x'))]) @ ev0
        # [EvClose (conn c) ce])" by simp
    from one_patch [OF this assms(2,3)] quiet added trace_kinds since_kinds connected(3)
    show ?thesis
      by (intro succeeded [where x' = x' and levs = levs,
            OF connected(1,2) _ connected(3) _ _ _ added(6,7)]) auto
  next
    case (present levs ev0 s3 s4 ce)
    from emits_trans [OF connected(4) present(5)]
    have "emits s s' ((got key x # cevs @ levs) @ ev0 # [EvClose (conn c) ce])" by simp
    from one_patch [OF this assms(2,3)] quiet present trace_kinds since_kinds connected(3)
    show ?thesis
      by (intro succeeded [where x' = x and levs = levs,
            OF connected(1,2) _ connected(3) _ _ _ present(6,7)]) auto
  qed
qed

end

section \<open>Errors, and what a deletion leaves alone\<close>

context sql_resource
begin

lemma deletion_since:
  assumes "handle_deletion x s = (r, s')" "emits s s' (pre @ EvUpdate ob e # post)"
  shows "list_all (since_read kind) pre"
  using assms(1)
proof (cases rule: deletion_cases)
  case no_finalizer
  then show ?thesis using no_update [OF emits_refl, of s' pre ob e post] assms(2) by simp
next
  case (kept e0)
  with one_update [of s s' "[]" _ e0 "[]"] assms(2) show ?thesis by fastforce
next
  case (gone err cevs e0)
  with one_update [OF this(5) assms(2)] trace_kinds since_kinds show ?thesis by auto
next
  case (unreachable err cevs)
  with no_update [OF this(5) assms(2)] trace_kinds show ?thesis by auto
next
  case (cleanup_failed c cevs levs ce)
  with no_update [OF this(5) assms(2)] trace_kinds show ?thesis by auto
next
  case (cleaned_up c cevs levs e0 ce)
  with one_update [of s s' "cevs @ levs", OF _ assms(2)] trace_kinds since_kinds show ?thesis by fastforce
qed

lemma deletion_errors:
  assumes "handle_deletion x s = (r, s')" "emits s s' evs" "snd r = Some e"
  shows "r = (no_Result, Some e) \<and> EvUpdate (object (remove_finalizer x)) (Inl e) \<in> set evs"
  using assms(1)
proof (cases rule: deletion_cases)
  case (kept e0)
  with emits_unique [OF assms(2) this(3)] assms(3) show ?thesis by simp
next
  case (gone err cevs e0)
  with emits_unique [OF assms(2) this(5)] assms(3) show ?thesis by simp
next
  case (cleaned_up c cevs levs e0 ce)
  with emits_unique [OF assms(2) this(6)] assms(3) show ?thesis by simp
qed (use assms(3) in simp_all)

lemma reconcile_errors:
  assumes "reconcile key s = (r, s')" "emits s s' evs" "snd r = Some e"
  shows "r = (no_Result, Some e) \<and>
    (evs = [EvGet kind key (Inl e)] \<and> \<not> IsNotFound d e \<or> (\<exists>ob. EvUpdate ob (Inl e) \<in> set evs))"
  using assms(1)
proof (cases rule: reconcile_cases)
  case (get_error err)
  with emits_unique [OF assms(2) this(1)] assms(3) show ?thesis by simp
next
  case (deleting x s1)
  obtain evs' where e: "emits s1 s' evs'"
    using deleting(4) by (cases rule: deletion_cases) (use emits_refl in blast)+
  with deletion_errors [OF deleting(4) e assms(3)] emits_unique [OF assms(2) emits_trans [OF deleting(2) e]]
  show ?thesis by auto
next
  case (connected x s1 c cevs s2)
  from connected(5) show ?thesis
  proof (cases rule: apply_cases)
    case (update_failed levs e0 ce)
    with emits_unique [OF assms(2) emits_trans [OF connected(4) update_failed(4)]] assms(3)
    show ?thesis by auto
  qed (use assms(3) in simp_all)
qed (use assms(3) in simp_all)

text \<open>A resource whose policy is not \<open>Delete\<close> goes without any traffic to the server.\<close>

lemma deletion_offline:
  assumes "handle_deletion x s = (r, s')" "emits s s' evs" "CleanupPolicy (tmpl x) \<noteq> CleanupPolicyDelete"
  shows "evs = [] \<or> (\<exists>e. evs = [EvUpdate (object (remove_finalizer x)) e])"
  using assms(1)
proof (cases rule: deletion_cases)
  case no_finalizer
  with emits_unique [OF assms(2), of "[]"] show ?thesis by (simp add: emits_refl)
next
  case (kept e)
  with emits_unique [OF assms(2) this(3)] show ?thesis by simp
qed (use assms(3) in simp_all)

text \<open>
  How the deletion of an object with the finalizer ends: one update without the finalizer, whose error is
  the result; or no update, and a retry after the default interval.
\<close>

lemma deletion_ends:
  assumes "handle_deletion x s = (r, s')" "emits s s' evs" "ContainsFinalizer d (meta x) FinalizerName"
  shows "(\<exists>pre e post. evs = pre @ EvUpdate (object (remove_finalizer x)) e # post \<and>
       list_all (\<lambda>ev. \<not> is_update ev) (pre @ post) \<and> r = (no_Result, left_of e)) \<or>
    list_all (\<lambda>ev. \<not> is_update ev) evs \<and> r = (\<lparr>RequeueAfter = defaultRetryInterval\<rparr>, None)"
  using assms(1)
proof (cases rule: deletion_cases)
  case (kept e)
  with emits_unique [OF assms(2) this(3)]
  show ?thesis by (intro disjI1 exI [of _ "[]"] exI [of _ e] exI [of _ "[]"]) simp
next
  case (gone err cevs e)
  with emits_unique [OF assms(2) this(5)] trace_kinds
  show ?thesis by (intro disjI1 exI [of _ cevs] exI [of _ e] exI [of _ "[]"]) auto
next
  case (unreachable err cevs)
  with emits_unique [OF assms(2) this(5)] trace_kinds show ?thesis by auto
next
  case (cleanup_failed c cevs levs ce)
  with emits_unique [OF assms(2) this(5)] trace_kinds show ?thesis by auto
next
  case (cleaned_up c cevs levs e ce)
  with emits_unique [OF assms(2) this(6)] trace_kinds
  show ?thesis by (intro disjI1 exI [of _ "cevs @ levs"] exI [of _ e] exI [of _ "[EvClose (conn c) ce]"]) auto
qed (use assms(3) in simp)

lemma reconcile_gone:
  assumes "get key s = (Inl err, s1)" "IsNotFound d err"
  shows "reconcile key s = ((no_Result, None), s1)"
  using assms by (simp add: reconcile_eq)

lemma reconcile_emits_some:
  assumes "reconcile key s = (r, s')"
  obtains evs where "emits s s' evs"
  using assms
proof (cases rule: reconcile_cases)
  case (deleting x s1)
  obtain evs' where e: "emits s1 s' evs'"
    using deleting(4) by (cases rule: deletion_cases) (use emits_refl in blast)+
  show ?thesis by (rule that [OF emits_trans [OF deleting(2) e]])
next
  case (connected x s1 c cevs s2)
  from connected(5) show ?thesis
    by (cases rule: apply_cases) (rule that [OF emits_trans [OF connected(4)]], assumption)+
qed (rule that, assumption)+

text \<open>
  A reconciliation that reports anything but a failure: the steps it went through, with their
  states, up to the success of the SQL, and what remains after it.
\<close>

lemma patch_when_unreachable:
  assumes "get key s = (Inr x, s1)" "Time_IsZero d (om_DeletionTimestamp (meta x))" "connect x s1 = (Inl err, s2)"
    and "reconcile key s = (r, s')" "emits s s' (pre @ ev # post)" "is_patch ev"
  shows "condition_patch d object conditions x (om_Generation (meta x)) ConditionFalse ReasonFailed
    (''Failed to connect to PostgreSQL: '' @ Error err) ev"
proof -
  have k: "emits s s1 [got key x]" using get_emits [OF assms(1)] by simp
  obtain cevs where c: "emits s1 s2 cevs" "resolved x (Inl err) cevs"
    using connect_emits [OF assms(3)] by blast
  from assms(1-4) have "(case patch x ConditionFalse ReasonFailed (''Failed to connect to PostgreSQL: '' @ Error err) s2 of
      (_, s) \<Rightarrow> (case retryResult d (tmpl x) s of (res, s) \<Rightarrow> ((res, None), s))) = (r, s')"
    by (simp add: reconcile_eq)
  then obtain ev0 where ev0: "emits s2 s' [ev0]"
    "condition_patch d object conditions x (om_Generation (meta x)) ConditionFalse ReasonFailed
      (''Failed to connect to PostgreSQL: '' @ Error err) ev0" by (rule fail_emits)
  have "emits s s' ((got key x # cevs) @ ev0 # [])"
    using emits_trans [OF k emits_trans [OF c(1) ev0(1)]] by simp
  from one_patch [OF this assms(5,6)] c(2) trace_kinds ev0(2) show ?thesis by auto
qed

lemma patch_when_failed:
  assumes "get key s = (Inr x, s1)" "Time_IsZero d (om_DeletionTimestamp (meta x))" "connect x s1 = (Inr c, s2)"
    and "apply_sql x c s2 = (Some msg, s3)"
    and "reconcile key s = (r, s')" "emits s s' (pre @ ev # post)" "is_patch ev"
  shows "condition_patch d object conditions x (om_Generation (meta x)) ConditionFalse ReasonFailed msg ev"
proof -
  have k: "emits s s1 [got key x]" using get_emits [OF assms(1)] by simp
  obtain cevs where c: "emits s1 s2 cevs" "resolved x (Inr c) cevs"
    using connect_emits [OF assms(3)] by blast
  obtain levs where l: "emits s2 s3 levs" "list_all (\<lambda>e. sql_on (conn c) e \<or> reads_secret e) levs"
    using apply_emits [OF assms(4)] by blast
  obtain s4 ce where body: "(case apply_sql x c s2 of
       (Some msg, s) \<Rightarrow> (case patch x ConditionFalse ReasonFailed msg s of
          (_, s) \<Rightarrow> (case retryResult d (tmpl x) s of (res, s) \<Rightarrow> ((res, None), s)))
     | (None, s) \<Rightarrow> if \<not> ContainsFinalizer d (meta x) FinalizerName then
           (case update (add_finalizer x) s of (Inl err, s) \<Rightarrow> ((no_Result, Some err), s) | (Inr x', s) \<Rightarrow> ready x x' s)
         else ready x x s) = (r, s4)"
    and cl: "emits s4 s' [EvClose (conn c) ce]"
    using assms(1-3,5) by (simp add: reconcile_eq) (elim emits_defer_Close, blast)
  from body assms(4) obtain ev0 where ev0: "emits s3 s4 [ev0]"
    "condition_patch d object conditions x (om_Generation (meta x)) ConditionFalse ReasonFailed msg ev0"
    by (auto elim: fail_emits)
  have "emits s s' ((got key x # cevs @ levs) @ ev0 # [EvClose (conn c) ce])"
    using emits_trans [OF k emits_trans [OF c(1) emits_trans [OF l(1) emits_trans [OF ev0(1) cl]]]] by simp
  from one_patch [OF this assms(6,7)] c(2) l(2) trace_kinds ev0(2) show ?thesis by auto
qed

lemma ready_run:
  assumes rec: "reconcile key s = (r, s')" "emits s s' (pre @ ev # post)" "is_patch ev"
    and ok: "\<And>x msg. \<not> condition_patch d object conditions x (om_Generation (meta x)) ConditionFalse ReasonFailed msg ev"
  obtains x s1 c s2 s3 s4 ce where "get key s = (Inr x, s1)" "connect x s1 = (Inr c, s2)" "apply_sql x c s2 = (None, s3)"
    "(if \<not> ContainsFinalizer d (meta x) FinalizerName then
        (case update (add_finalizer x) s3 of (Inl err, s) \<Rightarrow> ((no_Result, Some err), s) | (Inr x', s) \<Rightarrow> ready x x' s)
      else ready x x s3) = (r, s4)" "Close d c s4 = (ce, s')"
proof -
  from rec ok obtain x s1 where x: "get key s = (Inr x, s1)" "Time_IsZero d (om_DeletionTimestamp (meta x))"
    by (cases rule: reconcile_patches) auto
  obtain rc s2 where c: "connect x s1 = (rc, s2)" by (cases "connect x s1")
  with patch_when_unreachable [OF x _ rec] ok obtain cl where cl: "rc = Inr cl" by (cases rc) auto
  obtain ra s3 where a: "apply_sql x cl s2 = (ra, s3)" by (cases "apply_sql x cl s2")
  with patch_when_failed [OF x _ _ rec] ok c cl have ra: "ra = None" by (cases ra) auto
  from rec(1) x c cl have "defer_Close d cl (\<lambda>s. case apply_sql x cl s of
       (Some msg, s) \<Rightarrow> (case patch x ConditionFalse ReasonFailed msg s of
          (_, s) \<Rightarrow> (case retryResult d (tmpl x) s of (res, s) \<Rightarrow> ((res, None), s)))
     | (None, s) \<Rightarrow> if \<not> ContainsFinalizer d (meta x) FinalizerName then
           (case update (add_finalizer x) s of (Inl err, s) \<Rightarrow> ((no_Result, Some err), s) | (Inr x', s) \<Rightarrow> ready x x' s)
         else ready x x s) s2 = (r, s')"
    by (simp add: reconcile_eq)
  then show ?thesis
    by (rule emits_defer_Close) (rule that [OF x(1) _ _ _ ], use c cl a ra in simp_all)
qed

text \<open>Progress: when every call that can fail succeeds, the object is reported ready and comes back later.\<close>

lemma progress:
  assumes "get key s = (Inr x, s1)" "Time_IsZero d (om_DeletionTimestamp (meta x))" "connect x s1 = (Inr c, s2)"
    and "apply_sql x c s2 = (None, s3)"
    and "ContainsFinalizer d (meta x) FinalizerName \<or> (\<exists>y s4. update (add_finalizer x) s3 = (Inr y, s4))"
    and "reconcile key s = (r, s')"
  obtains pre ev post y s4 s5 where "emits s s' (pre @ ev # post)" "snd r = None"
    "condition_patch d object conditions y (om_Generation (meta y)) ConditionTrue ReasonSucceeded (ready_message x y) ev"
    "requeueResult d (tmpl y) s4 = (fst r, s5)"
proof -
  obtain y s4 where y: "(if \<not> ContainsFinalizer d (meta x) FinalizerName then
      (case update (add_finalizer x) s3 of (Inl err, s) \<Rightarrow> ((no_Result, Some err), s) | (Inr x', s) \<Rightarrow> ready x x' s)
    else ready x x s3) = ready x y s4" "\<exists>uevs. emits s3 s4 uevs"
  proof (cases "ContainsFinalizer d (meta x) FinalizerName")
    case True
    then show ?thesis using that [of x s3] emits_refl by auto
  next
    case False
    with assms(5) obtain z s4 where z: "update (add_finalizer x) s3 = (Inr z, s4)" by blast
    with False update_emits [OF z] show ?thesis using that [of z s4] by auto
  qed
  obtain r' s5 where rd: "ready x y s4 = (r', s5)" by (cases "ready x y s4")
  obtain ce s6 where cl: "Close d c s5 = (ce, s6)" by (cases "Close d c s5")
  have rec: "r = r'" "s' = s6"
    using assms(1-4,6) y(1) rd cl by (simp_all add: reconcile_eq defer_Close_def)
  obtain gevs where "emits s s1 gevs" using get_emits [OF assms(1)] by blast
  moreover obtain cevs where "emits s1 s2 cevs" using connect_emits [OF assms(3)] by blast
  moreover obtain levs where "emits s2 s3 levs" using apply_emits [OF assms(4)] by blast
  moreover obtain uevs where "emits s3 s4 uevs" using y(2) by blast
  ultimately have e: "emits s s4 (gevs @ cevs @ levs @ uevs)" by (simp add: emits_def)
  from rd show ?thesis
  proof (rule ready_emits)
    fix ev s7
    assume ev: "emits s4 s5 [ev]" "snd r' = None" "requeueResult d (tmpl y) s7 = (fst r', s5)"
      "condition_patch d object conditions y (om_Generation (meta y)) ConditionTrue ReasonSucceeded (ready_message x y) ev"
    have "emits s s' ((gevs @ cevs @ levs @ uevs) @ ev # [EvClose (conn c) ce])"
      using emits_trans [OF e emits_trans [OF ev(1) emits_Close [OF cl]]] rec by simp
    moreover have "snd r = None" "requeueResult d (tmpl y) s7 = (fst r, s5)" using ev rec by simp_all
    ultimately show ?thesis using ev(4) by (intro that)
  qed
qed

text \<open>
  A property of the state that holds when the SQL has been tried holds at the end, if updates, patches,
  the clock, the random source and closing keep it. \<open>Q\<close> is what is known of the object at hand.
\<close>

lemma reconcile_keeps:
  assumes run: "get key s = (Inr x, s1)" "Time_IsZero d (om_DeletionTimestamp (meta x))" "connect x s1 = (rc, s2)"
      "reconcile key s = (r, s')"
    and tried: "\<And>err. rc = Inl err \<Longrightarrow> I s2" "\<And>c ra s3. rc = Inr c \<Longrightarrow> apply_sql x c s2 = (ra, s3) \<Longrightarrow> I s3" "Q x"
    and keeps: "\<And>c s3 ru s'. rc = Inr c \<Longrightarrow> apply_sql x c s2 = (None, s3) \<Longrightarrow> update (add_finalizer x) s3 = (ru, s') \<Longrightarrow> I s' \<and> (\<forall>y. ru = Inr y \<longrightarrow> Q y)"
      "\<And>y status reason msg s y' s'. I s \<Longrightarrow> Q y \<Longrightarrow> patch y status reason msg s = (y', s') \<Longrightarrow> I s'"
      "\<And>t s res s'. I s \<Longrightarrow> requeueResult d t s = (res, s') \<Longrightarrow> I s'"
      "\<And>t s res s'. I s \<Longrightarrow> retryResult d t s = (res, s') \<Longrightarrow> I s'"
      "\<And>c s ce s'. I s \<Longrightarrow> Close d c s = (ce, s') \<Longrightarrow> I s'"
  shows "I s'"
proof -
  have fails: "I s5" if "I s4" "(case patch x ConditionFalse ReasonFailed msg s4 of
      (_, s) \<Rightarrow> (case retryResult d (tmpl x) s of (res, s) \<Rightarrow> ((res, None), s))) = (r', s5)" for msg s4 r' s5
    using that keeps(4) [OF keeps(2) [OF that(1) tried(3)]] by (auto split: prod.splits)
  have succeeds: "I s5" if "I s4" "Q y" "ready x y s4 = (r', s5)" for y s4 r' s5
    using that keeps(3) [OF keeps(2) [OF that(1,2)]] by (auto simp: ready_eq split: prod.splits)
  show ?thesis
  proof (cases rc)
    case (Inl err)
    with run have "(case patch x ConditionFalse ReasonFailed (''Failed to connect to PostgreSQL: '' @ Error err) s2 of
        (_, s) \<Rightarrow> (case retryResult d (tmpl x) s of (res, s) \<Rightarrow> ((res, None), s))) = (r, s')"
      by (simp add: reconcile_eq)
    then show ?thesis by (rule fails [OF tried(1) [OF Inl]])
  next
    case (Inr c)
    obtain ra s3 where a: "apply_sql x c s2 = (ra, s3)" by (cases "apply_sql x c s2")
    note s3 = tried(2) [OF Inr a]
    obtain s4 ce where body: "(case (ra, s3) of
         (Some msg, s) \<Rightarrow> (case patch x ConditionFalse ReasonFailed msg s of
            (_, s) \<Rightarrow> (case retryResult d (tmpl x) s of (res, s) \<Rightarrow> ((res, None), s)))
       | (None, s) \<Rightarrow> if \<not> ContainsFinalizer d (meta x) FinalizerName then
             (case update (add_finalizer x) s of (Inl err, s) \<Rightarrow> ((no_Result, Some err), s) | (Inr x', s) \<Rightarrow> ready x x' s)
           else ready x x s) = (r, s4)"
      and cl: "Close d c s4 = (ce, s')"
      using run Inr by (simp add: reconcile_eq) (elim emits_defer_Close, simp add: a)
    have "I s4"
    proof (cases ra)
      case (Some msg)
      with body fails [OF s3] show ?thesis by simp
    next
      case None
      with body show ?thesis
        using succeeds [OF s3 tried(3)] keeps(1) [OF Inr a [unfolded None]] succeeds
        by (fastforce split: if_splits prod.splits sum.splits)
    qed
    with cl keeps(5) show ?thesis by blast
  qed
qed

text \<open>A deletion that cleans up on a connection and asks for no retry did clean up.\<close>

lemma deletion_finished:
  assumes "ContainsFinalizer d (meta x) FinalizerName" "CleanupPolicy (tmpl x) = CleanupPolicyDelete"
    and "connect x s = (Inr c, s1)" "handle_deletion x s = (r, s')" "fst r = no_Result"
  obtains s2 rg s3 ce where "cleanup_sql x c s1 = (None, s2)" "update (remove_finalizer x) s2 = (rg, s3)"
    "Close d c s3 = (ce, s')"
proof -
  obtain rc s2 where drop: "cleanup_sql x c s1 = (rc, s2)" by (cases "cleanup_sql x c s1")
  have "defer_Close d c (\<lambda>s. case cleanup_sql x c s of
      (Some err, s) \<Rightarrow> ((\<lparr>RequeueAfter = defaultRetryInterval\<rparr>, None), s)
    | (None, s) \<Rightarrow> remove_and_update x s) s1 = (r, s')"
    using assms(1-4) by (simp add: handle_deletion_eq)
  then obtain s3 ce where body: "(case (rc, s2) of
      (Some err, s) \<Rightarrow> ((\<lparr>RequeueAfter = defaultRetryInterval\<rparr>, None), s)
    | (None, s) \<Rightarrow> remove_and_update x s) = (r, s3)" "Close d c s3 = (ce, s')"
    by (rule emits_defer_Close) (simp add: drop)
  have rc: "rc = None"
    using body(1) assms(5) by (cases rc) (auto simp: no_Result_def defaultRetryInterval_def time_Second_def)
  obtain rg s4 where up: "update (remove_finalizer x) s2 = (rg, s4)" by (cases "update (remove_finalizer x) s2")
  with body(1) rc have "s4 = s3" by (auto simp: remove_and_update_eq split: sum.splits)
  with that drop rc up body(2) show ?thesis by blast
qed

text \<open>Only objects of the resource's own kind are written.\<close>

lemma writes_own_kind:
  assumes "reconcile key s = (r, s')" "emits s s' evs"
  shows "EvUpdate ob e \<in> set evs \<Longrightarrow> \<exists>x. ob = object x"
    "EvPatch orig ob pe \<in> set evs \<Longrightarrow> (\<exists>x. orig = object x) \<and> (\<exists>x. ob = object x)"
proof -
  show "\<exists>x. ob = object x" if m: "EvUpdate ob e \<in> set evs"
  proof -
    obtain pre post where "evs = pre @ EvUpdate ob e # post" using split_list [OF m] by blast
    with assms(2) have "emits s s' (pre @ EvUpdate ob e # post)" by simp
    with assms(1) show ?thesis
      by (cases rule: reconcile_updates) (use deletion_updates in blast)+
  qed
  show "(\<exists>x. orig = object x) \<and> (\<exists>x. ob = object x)" if m: "EvPatch orig ob pe \<in> set evs"
  proof -
    obtain pre post where "evs = pre @ EvPatch orig ob pe # post" using split_list [OF m] by blast
    with assms(2) have "emits s s' (pre @ EvPatch orig ob pe # post)" "is_patch (EvPatch orig ob pe)" by simp_all
    with assms(1) show ?thesis
      by (cases rule: reconcile_patches) (auto simp: condition_patch_def)
  qed
qed

end

end
