(* ===== verification/CtrlPostgreSQL.thy ===== *)
theory CtrlPostgreSQL
  imports ResourceLaws
begin

text \<open>
  \<open>internal/controller/postgresql_controller.go\<close>: one reconciliation of a \<open>PostgreSQL\<close> resource,
  which reads the superuser password, connects, pings and reports the outcome as the condition
  \<open>Ready\<close>.
\<close>

text \<open>The argument list all calls of \<open>patchCondition\<close> in this controller share.\<close>

definition pg_patch ::
  "'w deps \<Rightarrow> PostgreSQL \<Rightarrow> string \<Rightarrow> string \<Rightarrow> string \<Rightarrow> 'w world \<Rightarrow> PostgreSQL \<times> 'w world" where
  "pg_patch d pg = patchCondition d PostgreSQL_object pg_conditions pg (om_Generation (pg_ObjectMeta pg))"

text \<open>The rest of \<open>Reconcile\<close> once the connection is open.\<close>

definition pg_session ::
  "'w deps \<Rightarrow> PostgreSQL \<Rightarrow> Client \<Rightarrow> 'w world \<Rightarrow> (Result \<times> gerror option) \<times> 'w world" where
  "pg_session d pg pgClient s =
     (case Ping d pgClient s of
        (Some err, s) \<Rightarrow>
          (case pg_patch d pg ConditionFalse ReasonFailed (''Ping failed: '' @ Error err) s of
             (_, s) \<Rightarrow> ((\<lparr>RequeueAfter = defaultRequeueInterval\<rparr>, None), s))
      | (None, s) \<Rightarrow>
          (case pg_patch d pg ConditionTrue ReasonSucceeded ''Connected to PostgreSQL'' s of
             (_, s) \<Rightarrow>
               (case addJitter d defaultRequeueInterval s of
                  (i, s) \<Rightarrow> ((\<lparr>RequeueAfter = i\<rparr>, None), s))))"

definition Reconcile_PostgreSQL ::
  "'w deps \<Rightarrow> NamespacedName \<Rightarrow> 'w world \<Rightarrow> (Result \<times> gerror option) \<times> 'w world" where
  "Reconcile_PostgreSQL d req s =
     (case Get_PostgreSQL d req s of
        (Inl err, s) \<Rightarrow> if IsNotFound d err then ((no_Result, None), s) else ((no_Result, Some err), s)
      | (Inr pg, s) \<Rightarrow>
     (case getSecretValue d (om_Namespace (pg_ObjectMeta pg)) (pgs_SuperuserSecretKeyRef (pg_Spec pg)) s of
        (Inl err, s) \<Rightarrow>
          (case pg_patch d pg ConditionFalse ReasonFailed (''Failed to read superuser secret: '' @ Error err) s of
             (_, s) \<Rightarrow> ((\<lparr>RequeueAfter = defaultRequeueInterval\<rparr>, None), s))
      | (Inr password, s) \<Rightarrow>
     (case Connect d \<lparr>cc_Host = pgs_Host (pg_Spec pg), cc_Port = pgs_Port (pg_Spec pg),
                      cc_Database = pgs_Database (pg_Spec pg),
                      cc_Username = pgs_SuperuserUsername (pg_Spec pg), cc_Password = password\<rparr> s of
        (Inl err, s) \<Rightarrow>
          (case pg_patch d pg ConditionFalse ReasonFailed (''Failed to connect: '' @ Error err) s of
             (_, s) \<Rightarrow> ((\<lparr>RequeueAfter = defaultRequeueInterval\<rparr>, None), s))
      | (Inr pgClient, s) \<Rightarrow>
          defer_Close d pgClient (pg_session d pg pgClient) s)))"

section \<open>The calls made\<close>

definition pg_secret_key :: "PostgreSQL \<Rightarrow> NamespacedName" where
  "pg_secret_key pg = \<lparr>nn_Namespace = om_Namespace (pg_ObjectMeta pg),
     nn_Name = skr_Name (pgs_SuperuserSecretKeyRef (pg_Spec pg))\<rparr>"

abbreviation pg_config :: "PostgreSQL \<Rightarrow> string \<Rightarrow> ConnectConfig" where
  "pg_config pg password \<equiv> superuser_config pg (own_database pg) password"

lemmas pg_config_def = superuser_config_def own_database_def

abbreviation pg_patched :: "'w deps \<Rightarrow> PostgreSQL \<Rightarrow> string \<Rightarrow> string \<Rightarrow> string \<Rightarrow> event \<Rightarrow> bool" where
  "pg_patched d pg \<equiv> condition_patch d PostgreSQL_object pg_conditions pg (om_Generation (pg_ObjectMeta pg))"

lemma pg_patch_emits:
  assumes "pg_patch d pg status reason message s = (pg', s')"
  obtains ev where "emits s s' [ev]" "pg_patched d pg status reason message ev"
  using assms unfolding pg_patch_def by (rule patchCondition_emits)

lemma pg_failed_emits:
  assumes "(case pg_patch d pg ConditionFalse ReasonFailed msg s of
      (_, s) \<Rightarrow> ((\<lparr>RequeueAfter = defaultRequeueInterval\<rparr>, None), s)) = (r, s')"
  obtains ev where "emits s s' [ev]" "pg_patched d pg ConditionFalse ReasonFailed msg ev"
    "r = (\<lparr>RequeueAfter = defaultRequeueInterval\<rparr>, None)"
  using assms by (cases "pg_patch d pg ConditionFalse ReasonFailed msg s") (auto elim: pg_patch_emits)

text \<open>The part that runs on the open connection.\<close>

lemma pg_session_cases:
  assumes "defer_Close d c (pg_session d pg c) s = (r, s')"
  obtains
    (failed) e msg ev ce where "emits s s' [EvPing (conn c) (Some e), ev, EvClose (conn c) ce]"
      "pg_patched d pg ConditionFalse ReasonFailed msg ev" "r = (\<lparr>RequeueAfter = defaultRequeueInterval\<rparr>, None)"
  | (connected) ev ce s2 s3 where "emits s s' [EvPing (conn c) None, ev, EvClose (conn c) ce]"
      "pg_patched d pg ConditionTrue ReasonSucceeded ''Connected to PostgreSQL'' ev"
      "snd r = None" "addJitter d defaultRequeueInterval s2 = (RequeueAfter (fst r), s3)"
proof -
  obtain re s1 where pi: "Ping d c s = (re, s1)" by (cases "Ping d c s")
  note e1 = emits_Ping [OF pi]
  obtain s5 ce where body: "pg_session d pg c s = (r, s5)" and cl: "emits s5 s' [EvClose (conn c) ce]"
    using assms by (rule emits_defer_Close)
  note body = body [unfolded pg_session_def pi]
  show ?thesis
  proof (cases re)
    case (Some err)
    then show ?thesis
      using body by (auto elim!: pg_failed_emits intro!: failed dest: emits_trans [OF e1 emits_trans [OF _ cl]])
  next
    case None
    obtain pg' s6 where pp: "pg_patch d pg ConditionTrue ReasonSucceeded ''Connected to PostgreSQL'' s1 = (pg', s6)"
      by (cases "pg_patch d pg ConditionTrue ReasonSucceeded ''Connected to PostgreSQL'' s1")
    obtain i s7 where j: "addJitter d defaultRequeueInterval s6 = (i, s7)"
      by (cases "addJitter d defaultRequeueInterval s6")
    from body None pp j have r: "r = (\<lparr>RequeueAfter = i\<rparr>, None)" "s5 = s7" by auto
    from pp obtain ev where ev: "emits s1 s6 [ev]"
      "pg_patched d pg ConditionTrue ReasonSucceeded ''Connected to PostgreSQL'' ev" by (rule pg_patch_emits)
    from emits_trans [OF e1 emits_trans [OF ev(1) emits_trans [OF emits_addJitter [OF j]]]] cl r None
    have "emits s s' [EvPing (conn c) None, ev, EvClose (conn c) ce]" by fastforce
    with ev(2) r j show ?thesis by (intro connected) auto
  qed
qed

text \<open>The calls before the report, with those after it: the three ways to fail, and success.\<close>

inductive pg_attempt :: "PostgreSQL \<Rightarrow> bool \<Rightarrow> event list \<Rightarrow> event list \<Rightarrow> bool" for pg where
  no_secret: "secret_read (pgs_SuperuserSecretKeyRef (pg_Spec pg)) (Inl err) f \<Longrightarrow>
    pg_attempt pg False [EvGet Secret_kind (pg_secret_key pg) f] []"
| no_connection: "secret_read (pgs_SuperuserSecretKeyRef (pg_Spec pg)) (Inr password) f \<Longrightarrow>
    pg_attempt pg False [EvGet Secret_kind (pg_secret_key pg) f,
      EvConnect (connStr (pg_config pg password)) (Inl e)] []"
| no_ping: "secret_read (pgs_SuperuserSecretKeyRef (pg_Spec pg)) (Inr password) f \<Longrightarrow>
    pg_attempt pg False [EvGet Secret_kind (pg_secret_key pg) f,
      EvConnect (connStr (pg_config pg password)) (Inr c), EvPing c (Some e)] [EvClose c ce]"
| reached: "secret_read (pgs_SuperuserSecretKeyRef (pg_Spec pg)) (Inr password) f \<Longrightarrow>
    pg_attempt pg True [EvGet Secret_kind (pg_secret_key pg) f,
      EvConnect (connStr (pg_config pg password)) (Inr c), EvPing c None] [EvClose c ce]"

lemma Reconcile_PostgreSQL_cases:
  assumes rec: "Reconcile_PostgreSQL d req s = (r, s')"
  obtains
    (not_found) err where "emits s s' [EvGet PostgreSQL_kind req (Inl err)]" "IsNotFound d err" "r = (no_Result, None)"
  | (get_error) err where "emits s s' [EvGet PostgreSQL_kind req (Inl err)]" "\<not> IsNotFound d err"
      "r = (no_Result, Some err)"
  | (failed) pg s1 evs msg ev closing where "Get_PostgreSQL d req s = (Inr pg, s1)" "pg_attempt pg False evs closing"
      "emits s s' (got_instance req pg # evs @ ev # closing)"
      "pg_patched d pg ConditionFalse ReasonFailed msg ev"
      "r = (\<lparr>RequeueAfter = defaultRequeueInterval\<rparr>, None)"
  | (connected) pg s1 evs ev closing s2 s3 where "Get_PostgreSQL d req s = (Inr pg, s1)"
      "pg_attempt pg True evs closing" "emits s s' (got_instance req pg # evs @ ev # closing)"
      "pg_patched d pg ConditionTrue ReasonSucceeded ''Connected to PostgreSQL'' ev"
      "snd r = None" "addJitter d defaultRequeueInterval s2 = (RequeueAfter (fst r), s3)"
proof -
  obtain rg s1 where g: "Get_PostgreSQL d req s = (rg, s1)" by (cases "Get_PostgreSQL d req s")
  note e1 = emits_calls(6) [OF g]
  consider (missing) err where "rg = Inl err" | (there) pg where "rg = Inr pg" by (cases rg) auto
  then show ?thesis
  proof cases
    case missing
    with rec g e1 not_found get_error show ?thesis
      by (cases "IsNotFound d err") (auto simp: Reconcile_PostgreSQL_def)
  next
    case there
    note get = g [unfolded there]
    let ?ref = "pgs_SuperuserSecretKeyRef (pg_Spec pg)"
    obtain rp s2 where p: "getSecretValue d (om_Namespace (pg_ObjectMeta pg)) ?ref s1 = (rp, s2)"
      by (cases "getSecretValue d (om_Namespace (pg_ObjectMeta pg)) ?ref s1")
    obtain f where e2: "emits s1 s2 [EvGet Secret_kind (pg_secret_key pg) f]" and read: "secret_read ?ref rp f"
      using getSecretValue_emits [OF p] unfolding pg_secret_key_def by blast
    have e12: "emits s s2 [got_instance req pg, EvGet Secret_kind (pg_secret_key pg) f]"
      using emits_trans [OF e1 e2] there by simp
    show ?thesis
    proof (cases rp)
      case (Inl err)
      with rec get p obtain ev where ev: "emits s2 s' [ev]"
        "pg_patched d pg ConditionFalse ReasonFailed (''Failed to read superuser secret: '' @ Error err) ev"
        "r = (\<lparr>RequeueAfter = defaultRequeueInterval\<rparr>, None)"
        by (auto simp: Reconcile_PostgreSQL_def elim!: pg_failed_emits)
      from failed [OF get pg_attempt.no_secret [OF read [unfolded Inl]] _ ev(2,3)] emits_trans [OF e12 ev(1)] show ?thesis by simp
    next
      case (Inr password)
      note held = read [unfolded Inr]
      obtain rc s3 where c: "Connect d (pg_config pg password) s2 = (rc, s3)"
        by (cases "Connect d (pg_config pg password) s2")
      show ?thesis
      proof (cases rc)
        case (Inl err)
        with emits_Connect_Inl c obtain e' where
          e3: "emits s2 s3 [EvConnect (connStr (pg_config pg password)) (Inl e')]" by blast
        from Inl rec get p \<open>rp = Inr password\<close> c obtain ev where ev: "emits s3 s' [ev]"
          "pg_patched d pg ConditionFalse ReasonFailed (''Failed to connect: '' @ Error err) ev"
          "r = (\<lparr>RequeueAfter = defaultRequeueInterval\<rparr>, None)"
          by (auto simp: Reconcile_PostgreSQL_def pg_config_def elim!: pg_failed_emits)
        from failed [OF get pg_attempt.no_connection [OF held] _ ev(2,3)] emits_trans [OF e12 emits_trans [OF e3 ev(1)]]
          show ?thesis by simp
      next
        case (Inr cl)
        with emits_Connect_Inr c have e3: "emits s2 s3 [EvConnect (connStr (pg_config pg password)) (Inr (conn cl))]"
          by blast
        note e13 = emits_trans [OF e12 emits_trans [OF e3]]
        have "defer_Close d cl (pg_session d pg cl) s3 = (r, s')"
          using rec get p \<open>rp = Inr password\<close> c Inr by (simp add: Reconcile_PostgreSQL_def pg_config_def)
        then show ?thesis
        proof (cases rule: pg_session_cases)
          case (failed e' msg ev ce)
          from that(3) [OF get pg_attempt.no_ping [OF held] _ failed(2,3)] e13 [OF failed(1)]
          show ?thesis by simp
        next
          case (connected ev ce s4 s5)
          from that(4) [OF get pg_attempt.reached [OF held] _ connected(2-4)] e13 [OF connected(1)]
          show ?thesis by simp
        qed
      qed
    qed
  qed
qed

lemma pg_attempt_events:
  "pg_attempt pg ok evs closing \<Longrightarrow> list_all (\<lambda>e. \<not> is_update e \<and> \<not> is_patch e) (evs @ closing)"
  by (induction rule: pg_attempt.induct) auto

lemma pg_attempt_conns:
  "pg_attempt pg ok evs closing \<Longrightarrow> \<not> is_pg ev \<Longrightarrow> conn_run os (evs @ ev # closing) = Some os"
  by (induction rule: pg_attempt.induct) (auto simp: conn_step_offline)

lemma pg_patched_kinds:
  assumes "pg_patched d pg status reason message ev"
  shows "is_patch ev" "\<not> is_update ev" "\<not> is_pg ev"
  using assms by (auto simp: condition_patch_def)

lemma Reconcile_PostgreSQL_traces:
  assumes "Reconcile_PostgreSQL d req s = (r, s')"
  obtains evs where "emits s s' evs" "conn_run os evs = Some os" "list_all (\<lambda>e. \<not> is_update e) evs"
  using assms
proof (cases rule: Reconcile_PostgreSQL_cases)
  case (failed pg s1 evs msg ev closing)
  with that [OF failed(3)] pg_attempt_conns [OF failed(2), of ev os] pg_attempt_events [OF failed(2)]
    pg_patched_kinds [OF failed(4)] show ?thesis by (auto simp: list_all_iff)
next
  case (connected pg s1 evs ev closing s2 s3)
  with that [OF connected(3)] pg_attempt_conns [OF connected(2), of ev os] pg_attempt_events [OF connected(2)]
    pg_patched_kinds [OF connected(4)] show ?thesis by (auto simp: list_all_iff)
qed (use that in auto)

lemma Reconcile_PostgreSQL_patches:
  assumes "Reconcile_PostgreSQL d req s = (r, s')" "emits s s' (pre @ ev # post)" "is_patch ev"
  obtains
    (failed) pg s1 evs msg where "Get_PostgreSQL d req s = (Inr pg, s1)" "pg_attempt pg False evs post"
      "pre = got_instance req pg # evs" "pg_patched d pg ConditionFalse ReasonFailed msg ev"
      "r = (\<lparr>RequeueAfter = defaultRequeueInterval\<rparr>, None)"
  | (connected) pg s1 evs s2 s3 where "Get_PostgreSQL d req s = (Inr pg, s1)" "pg_attempt pg True evs post"
      "pre = got_instance req pg # evs"
      "pg_patched d pg ConditionTrue ReasonSucceeded ''Connected to PostgreSQL'' ev"
      "snd r = None" "addJitter d defaultRequeueInterval s2 = (RequeueAfter (fst r), s3)"
  using assms(1)
proof (cases rule: Reconcile_PostgreSQL_cases)
  case (not_found err)
  with assms(2,3) show ?thesis using emits_unique [OF assms(2) not_found(1)] by (cases pre) auto
next
  case (get_error err)
  with assms(2,3) show ?thesis using emits_unique [OF assms(2) get_error(1)] by (cases pre) auto
next
  case (failed pg s1 evs msg ev0 closing)
  have "emits s s' ((got_instance req pg # evs) @ ev0 # closing)" using failed(3) by simp
  from one_patch [OF this assms(2,3)] pg_attempt_events [OF failed(2)] that(1) failed
  show ?thesis by (auto simp: list_all_iff)
next
  case (connected pg s1 evs ev0 closing s2 s3)
  have "emits s s' ((got_instance req pg # evs) @ ev0 # closing)" using connected(3) by simp
  from one_patch [OF this assms(2,3)] pg_attempt_events [OF connected(2)] that(2) connected
  show ?thesis by (auto simp: list_all_iff)
qed

end
