(* ===== verification/CtrlDatabase.thy ===== *)
theory CtrlDatabase
  imports ResourceLaws SqlDatabase
begin

text \<open>
  \<open>internal/controller/postgresqldatabase_controller.go\<close>: one reconciliation of a
  \<open>PostgreSQLDatabase\<close> and the handling of its deletion.
\<close>

definition db_patch ::
  "'w deps \<Rightarrow> PostgreSQLDatabase \<Rightarrow> string \<Rightarrow> string \<Rightarrow> string \<Rightarrow> 'w world \<Rightarrow> PostgreSQLDatabase \<times> 'w world" where
  "db_patch d db = patchCondition d Database_object db_conditions db (om_Generation (db_ObjectMeta db))"

text \<open>\<open>controllerutil.AddFinalizer(db, FinalizerName)\<close> and its counterpart, which change \<open>db\<close>.\<close>

definition db_add_finalizer :: "'w deps \<Rightarrow> PostgreSQLDatabase \<Rightarrow> PostgreSQLDatabase" where
  "db_add_finalizer d db = db\<lparr>db_ObjectMeta := AddFinalizer d (db_ObjectMeta db) FinalizerName\<rparr>"

definition db_remove_finalizer :: "'w deps \<Rightarrow> PostgreSQLDatabase \<Rightarrow> PostgreSQLDatabase" where
  "db_remove_finalizer d db = db\<lparr>db_ObjectMeta := RemoveFinalizer d (db_ObjectMeta db) FinalizerName\<rparr>"

definition db_remove_and_update ::
  "'w deps \<Rightarrow> PostgreSQLDatabase \<Rightarrow> 'w world \<Rightarrow> (Result \<times> gerror option) \<times> 'w world" where
  "db_remove_and_update d db s =
     (case Update_Database d (db_remove_finalizer d db) s of
        (Inl err, s) \<Rightarrow> ((no_Result, Some err), s)
      | (Inr _, s) \<Rightarrow> ((no_Result, None), s))"

definition handleDeletion_Database ::
  "'w deps \<Rightarrow> PostgreSQLDatabase \<Rightarrow> 'w world \<Rightarrow> (Result \<times> gerror option) \<times> 'w world" where
  "handleDeletion_Database d db s =
     (if \<not> ContainsFinalizer d (db_ObjectMeta db) FinalizerName then ((no_Result, None), s)
      else if CleanupPolicy (dbs_SQLTemplate (db_Spec db)) = CleanupPolicyDelete then
        (case connectToPostgres d (om_Namespace (db_ObjectMeta db)) (dbs_PostgresRef (db_Spec db)) s of
           (Inl err, s) \<Rightarrow>
             if IsNotFound d err then db_remove_and_update d db s
             else ((\<lparr>RequeueAfter = defaultRetryInterval\<rparr>, None), s)
         | (Inr pgClient, s) \<Rightarrow>
             defer_Close d pgClient (\<lambda>s.
               case DropDatabase d pgClient (DatabaseName db) s of
                 (Some err, s) \<Rightarrow> ((\<lparr>RequeueAfter = defaultRetryInterval\<rparr>, None), s)
               | (None, s) \<Rightarrow> db_remove_and_update d db s) s)
      else db_remove_and_update d db s)"

text \<open>The end of a successful reconciliation: report \<open>Ready\<close>, then the requeue interval.\<close>

definition db_ready ::
  "'w deps \<Rightarrow> PostgreSQLDatabase \<Rightarrow> string \<Rightarrow> 'w world \<Rightarrow> (Result \<times> gerror option) \<times> 'w world" where
  "db_ready d db dbName s =
     (case db_patch d db ConditionTrue ReasonSucceeded (''Database '' @ fmt_q d dbName @ '' exists'') s of
        (_, s) \<Rightarrow> (case requeueResult d (dbs_SQLTemplate (db_Spec db)) s of (res, s) \<Rightarrow> ((res, None), s)))"

definition Reconcile_Database ::
  "'w deps \<Rightarrow> NamespacedName \<Rightarrow> 'w world \<Rightarrow> (Result \<times> gerror option) \<times> 'w world" where
  "Reconcile_Database d req s =
     (case Get_Database d req s of
        (Inl err, s) \<Rightarrow> if IsNotFound d err then ((no_Result, None), s) else ((no_Result, Some err), s)
      | (Inr db, s) \<Rightarrow>
          if \<not> Time_IsZero d (om_DeletionTimestamp (db_ObjectMeta db)) then handleDeletion_Database d db s
          else
     (case connectToPostgres d (om_Namespace (db_ObjectMeta db)) (dbs_PostgresRef (db_Spec db)) s of
        (Inl err, s) \<Rightarrow>
          (case db_patch d db ConditionFalse ReasonFailed (''Failed to connect to PostgreSQL: '' @ Error err) s of
             (_, s) \<Rightarrow> (case retryResult d (dbs_SQLTemplate (db_Spec db)) s of (res, s) \<Rightarrow> ((res, None), s)))
      | (Inr pgClient, s) \<Rightarrow>
          defer_Close d pgClient (\<lambda>s.
            let dbName = DatabaseName db in
            case CreateDatabase d pgClient dbName s of
              (Some err, s) \<Rightarrow>
                (case db_patch d db ConditionFalse ReasonFailed (''Failed to create database: '' @ Error err) s of
                   (_, s) \<Rightarrow> (case retryResult d (dbs_SQLTemplate (db_Spec db)) s of (res, s) \<Rightarrow> ((res, None), s)))
            | (None, s) \<Rightarrow>
                if \<not> ContainsFinalizer d (db_ObjectMeta db) FinalizerName then
                  (case Update_Database d (db_add_finalizer d db) s of
                     (Inl err, s) \<Rightarrow> ((no_Result, Some err), s)
                   | (Inr db, s) \<Rightarrow> db_ready d db dbName s)
                else db_ready d db dbName s) s))"

section \<open>The shared contract\<close>

text \<open>The calls that resolve the instance of a resource.\<close>

definition resolved_Database :: "PostgreSQLDatabase \<Rightarrow> gerror + Client \<Rightarrow> event list \<Rightarrow> bool" where
  "resolved_Database db = resolution own_database (om_Namespace (db_ObjectMeta db)) (dbs_PostgresRef (db_Spec db))"

text \<open>The step of a reconciliation on the connection, with the message of its failure.\<close>

definition db_apply :: "'w deps \<Rightarrow> PostgreSQLDatabase \<Rightarrow> Client \<Rightarrow> 'w world \<Rightarrow> string option \<times> 'w world" where
  "db_apply d db c s =
     (case CreateDatabase d c (DatabaseName db) s of
        (Some err, s) \<Rightarrow> (Some (''Failed to create database: '' @ Error err), s)
      | (None, s) \<Rightarrow> (None, s))"

interpretation dbr: sql_resource d Database_kind Database_object db_ObjectMeta "\<lambda>db. dbs_SQLTemplate (db_Spec db)"
    db_conditions "db_add_finalizer d" "db_remove_finalizer d" "Get_Database d" "Update_Database d"
    "\<lambda>db. connectToPostgres d (om_Namespace (db_ObjectMeta db)) (dbs_PostgresRef (db_Spec db))"
    "db_apply d" "\<lambda>db c. DropDatabase d c (DatabaseName db)"
    "\<lambda>db _. ''Database '' @ fmt_q d (DatabaseName db) @ '' exists''"
    resolved_Database "\<lambda>db c. database_ensured d c (DatabaseName db)" "\<lambda>db c. database_removed d c (DatabaseName db)"
    "db_patch d" "db_remove_and_update d" "\<lambda>db x. db_ready d x (DatabaseName db)"
    "handleDeletion_Database d" "Reconcile_Database d"
  for d :: "'w deps"
proof
  fix db c s ra s'
  assume "db_apply d db c s = (ra, s')"
  then obtain r where "CreateDatabase d c (DatabaseName db) s = (r, s')" "ra = None \<longleftrightarrow> r = None"
    by (auto simp: db_apply_def split: go_splits)
  then show "\<exists>evs. emits s s' evs \<and> list_all (\<lambda>e. sql_on (conn c) e \<or> reads_secret e) evs \<and>
      (ra = None \<longrightarrow> database_ensured d (conn c) (DatabaseName db) evs)"
    by (auto elim!: CreateDatabase_emits simp: list_all_iff)
next
  fix db c s re s'
  assume "DropDatabase d c (DatabaseName db) s = (re, s')"
  then show "\<exists>evs. emits s s' evs \<and> list_all (sql_on (conn c)) evs \<and>
      (re = None \<longrightarrow> database_removed d (conn c) (DatabaseName db) evs)"
    by (blast elim!: DropDatabase_emits)
next
  fix db status reason message s db' s'
  assume "db_patch d db status reason message s = (db', s')"
  then show "\<exists>ev. emits s s' [ev] \<and> condition_patch d Database_object db_conditions db
      (om_Generation (db_ObjectMeta db)) status reason message ev"
    unfolding db_patch_def by (blast elim: patchCondition_emits)
next
  fix db :: PostgreSQLDatabase and s rc s'
  assume "connectToPostgres d (om_Namespace (db_ObjectMeta db)) (dbs_PostgresRef (db_Spec db)) s = (rc, s')"
  then show "\<exists>evs. emits s s' evs \<and> resolved_Database db rc evs"
    unfolding resolved_Database_def by (rule connectToPostgres_calls)
next
  fix db :: PostgreSQLDatabase and rc evs
  show "resolved_Database db rc evs \<Longrightarrow> resolve_events rc evs"
    unfolding resolved_Database_def by (rule resolution_events)
qed (auto simp: db_remove_and_update_def db_ready_def handleDeletion_Database_def
     Reconcile_Database_def db_apply_def Let_def case_outcome dest: emits_calls
     split: prod.splits sum.splits)

end
