(* ===== verification/CtrlUser.thy ===== *)
theory CtrlUser
  imports ResourceLaws SqlUser
begin

text \<open>
  \<open>internal/controller/postgresqluser_controller.go\<close>: one reconciliation of a
  \<open>PostgreSQLUser\<close> and the handling of its deletion.
\<close>

definition user_patch ::
  "'w deps \<Rightarrow> PostgreSQLUser \<Rightarrow> string \<Rightarrow> string \<Rightarrow> string \<Rightarrow> 'w world \<Rightarrow> PostgreSQLUser \<times> 'w world" where
  "user_patch d user = patchCondition d User_object user_conditions user (om_Generation (user_ObjectMeta user))"

text \<open>\<open>controllerutil.AddFinalizer(user, FinalizerName)\<close> and its counterpart, which change \<open>user\<close>.\<close>

definition user_add_finalizer :: "'w deps \<Rightarrow> PostgreSQLUser \<Rightarrow> PostgreSQLUser" where
  "user_add_finalizer d user = user\<lparr>user_ObjectMeta := AddFinalizer d (user_ObjectMeta user) FinalizerName\<rparr>"

definition user_remove_finalizer :: "'w deps \<Rightarrow> PostgreSQLUser \<Rightarrow> PostgreSQLUser" where
  "user_remove_finalizer d user = user\<lparr>user_ObjectMeta := RemoveFinalizer d (user_ObjectMeta user) FinalizerName\<rparr>"

definition user_remove_and_update ::
  "'w deps \<Rightarrow> PostgreSQLUser \<Rightarrow> 'w world \<Rightarrow> (Result \<times> gerror option) \<times> 'w world" where
  "user_remove_and_update d user s =
     (case Update_User d (user_remove_finalizer d user) s of
        (Inl err, s) \<Rightarrow> ((no_Result, Some err), s)
      | (Inr _, s) \<Rightarrow> ((no_Result, None), s))"

definition handleDeletion_User ::
  "'w deps \<Rightarrow> PostgreSQLUser \<Rightarrow> 'w world \<Rightarrow> (Result \<times> gerror option) \<times> 'w world" where
  "handleDeletion_User d user s =
     (if \<not> ContainsFinalizer d (user_ObjectMeta user) FinalizerName then ((no_Result, None), s)
      else if CleanupPolicy (us_SQLTemplate (user_Spec user)) = CleanupPolicyDelete then
        (case connectToPostgres d (om_Namespace (user_ObjectMeta user)) (us_PostgresRef (user_Spec user)) s of
           (Inl err, s) \<Rightarrow>
             if IsNotFound d err then user_remove_and_update d user s
             else ((\<lparr>RequeueAfter = defaultRetryInterval\<rparr>, None), s)
         | (Inr pgClient, s) \<Rightarrow>
             defer_Close d pgClient (\<lambda>s.
               case DropRole d pgClient (RoleName user) s of
                 (Some err, s) \<Rightarrow> ((\<lparr>RequeueAfter = defaultRetryInterval\<rparr>, None), s)
               | (None, s) \<Rightarrow> user_remove_and_update d user s) s)
      else user_remove_and_update d user s)"

text \<open>The end of a successful reconciliation: report \<open>Ready\<close>, then the requeue interval.\<close>

definition user_ready ::
  "'w deps \<Rightarrow> PostgreSQLUser \<Rightarrow> string \<Rightarrow> 'w world \<Rightarrow> (Result \<times> gerror option) \<times> 'w world" where
  "user_ready d user roleName s =
     (case user_patch d user ConditionTrue ReasonSucceeded (''Role '' @ fmt_q d roleName @ '' exists'') s of
        (_, s) \<Rightarrow> (case requeueResult d (us_SQLTemplate (user_Spec user)) s of (res, s) \<Rightarrow> ((res, None), s)))"

definition Reconcile_User ::
  "'w deps \<Rightarrow> NamespacedName \<Rightarrow> 'w world \<Rightarrow> (Result \<times> gerror option) \<times> 'w world" where
  "Reconcile_User d req s =
     (case Get_User d req s of
        (Inl err, s) \<Rightarrow> if IsNotFound d err then ((no_Result, None), s) else ((no_Result, Some err), s)
      | (Inr user, s) \<Rightarrow>
          if \<not> Time_IsZero d (om_DeletionTimestamp (user_ObjectMeta user)) then handleDeletion_User d user s
          else
     (case connectToPostgres d (om_Namespace (user_ObjectMeta user)) (us_PostgresRef (user_Spec user)) s of
        (Inl err, s) \<Rightarrow>
          (case user_patch d user ConditionFalse ReasonFailed (''Failed to connect to PostgreSQL: '' @ Error err) s of
             (_, s) \<Rightarrow> (case retryResult d (us_SQLTemplate (user_Spec user)) s of (res, s) \<Rightarrow> ((res, None), s)))
      | (Inr pgClient, s) \<Rightarrow>
          defer_Close d pgClient (\<lambda>s.
            case getSecretValue d (om_Namespace (user_ObjectMeta user)) (us_PasswordSecretKeyRef (user_Spec user)) s of
              (Inl err, s) \<Rightarrow>
                (case user_patch d user ConditionFalse ReasonFailed (''Failed to read password secret: '' @ Error err) s of
                   (_, s) \<Rightarrow> (case retryResult d (us_SQLTemplate (user_Spec user)) s of (res, s) \<Rightarrow> ((res, None), s)))
            | (Inr password, s) \<Rightarrow>
            (let roleName = RoleName user in
             case CreateOrUpdateRole d pgClient roleName password s of
              (Some err, s) \<Rightarrow>
                (case user_patch d user ConditionFalse ReasonFailed (''Failed to create/update role: '' @ Error err) s of
                   (_, s) \<Rightarrow> (case retryResult d (us_SQLTemplate (user_Spec user)) s of (res, s) \<Rightarrow> ((res, None), s)))
            | (None, s) \<Rightarrow>
                if \<not> ContainsFinalizer d (user_ObjectMeta user) FinalizerName then
                  (case Update_User d (user_add_finalizer d user) s of
                     (Inl err, s) \<Rightarrow> ((no_Result, Some err), s)
                   | (Inr user, s) \<Rightarrow> user_ready d user roleName s)
                else user_ready d user roleName s)) s))"

section \<open>The shared contract\<close>

text \<open>The calls that resolve the instance of a resource.\<close>

definition resolved_User :: "PostgreSQLUser \<Rightarrow> gerror + Client \<Rightarrow> event list \<Rightarrow> bool" where
  "resolved_User user = resolution own_database (om_Namespace (user_ObjectMeta user)) (us_PostgresRef (user_Spec user))"

text \<open>
  The steps of a reconciliation on the connection, with the message of a failure: the password
  is read, then the role is ensured. A run that succeeds is one read of the secret and a
  successful run of \<open>CreateOrUpdateRole\<close> with the password the secret holds under the key.
\<close>

definition user_apply :: "'w deps \<Rightarrow> PostgreSQLUser \<Rightarrow> Client \<Rightarrow> 'w world \<Rightarrow> string option \<times> 'w world" where
  "user_apply d user c s =
     (case getSecretValue d (om_Namespace (user_ObjectMeta user)) (us_PasswordSecretKeyRef (user_Spec user)) s of
        (Inl err, s) \<Rightarrow> (Some (''Failed to read password secret: '' @ Error err), s)
      | (Inr password, s) \<Rightarrow>
          (case CreateOrUpdateRole d c (RoleName user) password s of
             (Some err, s) \<Rightarrow> (Some (''Failed to create/update role: '' @ Error err), s)
           | (None, s) \<Rightarrow> (None, s)))"

definition password_key :: "PostgreSQLUser \<Rightarrow> NamespacedName" where
  "password_key user = \<lparr>nn_Namespace = om_Namespace (user_ObjectMeta user),
     nn_Name = skr_Name (us_PasswordSecretKeyRef (user_Spec user))\<rparr>"

definition user_applied :: "'w deps \<Rightarrow> PostgreSQLUser \<Rightarrow> pgx_conn \<Rightarrow> event list \<Rightarrow> bool" where
  "user_applied d user c evs \<longleftrightarrow>
     (\<exists>secret password evs'. evs = EvGet Secret_kind (password_key user) (Inr (Fetched_Secret secret)) # evs' \<and>
        secret_Data secret (skr_Key (us_PasswordSecretKeyRef (user_Spec user))) = Some password \<and>
        role_ensured d c (RoleName user) password evs')"

lemma user_apply_emits:
  assumes "user_apply d user c s = (ra, s')"
  shows "\<exists>evs. emits s s' evs \<and> list_all (\<lambda>e. sql_on (conn c) e \<or> reads_secret e) evs \<and>
    (ra = None \<longrightarrow> user_applied d user (conn c) evs)"
proof -
  let ?ref = "us_PasswordSecretKeyRef (user_Spec user)"
  obtain rp s1 where g: "getSecretValue d (om_Namespace (user_ObjectMeta user)) ?ref s = (rp, s1)"
    by (cases "getSecretValue d (om_Namespace (user_ObjectMeta user)) ?ref s")
  obtain e where e: "emits s s1 [EvGet Secret_kind (password_key user) e]" "secret_read ?ref rp e"
    using getSecretValue_emits [OF g] unfolding password_key_def by blast
  show ?thesis
  proof (cases rp)
    case (Inl err)
    with assms g e show ?thesis by (auto simp: user_apply_def)
  next
    case (Inr password)
    obtain rr s2 where r: "CreateOrUpdateRole d c (RoleName user) password s1 = (rr, s2)"
      by (cases "CreateOrUpdateRole d c (RoleName user) password s1")
    with assms g Inr have ra: "s' = s2" "ra = None \<longleftrightarrow> rr = None"
      by (auto simp: user_apply_def split: option.splits)
    from r obtain evs where evs: "emits s1 s2 evs" "list_all (sql_on (conn c)) evs"
      "rr = None \<longleftrightarrow> role_ensured d (conn c) (RoleName user) password evs"
      by (rule CreateOrUpdateRole_emits)
    show ?thesis
    proof (intro exI conjI)
      show "emits s s' ([EvGet Secret_kind (password_key user) e] @ evs)"
        using emits_trans [OF e(1) evs(1)] ra by simp
    qed (use e Inr evs ra in \<open>auto simp: user_applied_def list_all_iff\<close>)
  qed
qed

interpretation ur: sql_resource d User_kind User_object user_ObjectMeta "\<lambda>user. us_SQLTemplate (user_Spec user)"
    user_conditions "user_add_finalizer d" "user_remove_finalizer d" "Get_User d" "Update_User d"
    "\<lambda>user. connectToPostgres d (om_Namespace (user_ObjectMeta user)) (us_PostgresRef (user_Spec user))"
    "user_apply d" "\<lambda>user c. DropRole d c (RoleName user)"
    "\<lambda>user _. ''Role '' @ fmt_q d (RoleName user) @ '' exists''"
    resolved_User "user_applied d" "\<lambda>user c. role_removed d c (RoleName user)"
    "user_patch d" "user_remove_and_update d" "\<lambda>user x. user_ready d x (RoleName user)"
    "handleDeletion_User d" "Reconcile_User d"
  for d :: "'w deps"
proof
  fix user c s ra s'
  assume "user_apply d user c s = (ra, s')"
  then show "\<exists>evs. emits s s' evs \<and> list_all (\<lambda>e. sql_on (conn c) e \<or> reads_secret e) evs \<and>
      (ra = None \<longrightarrow> user_applied d user (conn c) evs)"
    by (rule user_apply_emits)
next
  fix user c s re s'
  assume "DropRole d c (RoleName user) s = (re, s')"
  then show "\<exists>evs. emits s s' evs \<and> list_all (sql_on (conn c)) evs \<and>
      (re = None \<longrightarrow> role_removed d (conn c) (RoleName user) evs)"
    by (blast elim!: DropRole_emits)
next
  fix user status reason message s user' s'
  assume "user_patch d user status reason message s = (user', s')"
  then show "\<exists>ev. emits s s' [ev] \<and> condition_patch d User_object user_conditions user
      (om_Generation (user_ObjectMeta user)) status reason message ev"
    unfolding user_patch_def by (blast elim: patchCondition_emits)
next
  fix user :: PostgreSQLUser and s rc s'
  assume "connectToPostgres d (om_Namespace (user_ObjectMeta user)) (us_PostgresRef (user_Spec user)) s = (rc, s')"
  then show "\<exists>evs. emits s s' evs \<and> resolved_User user rc evs"
    unfolding resolved_User_def by (rule connectToPostgres_calls)
next
  fix user :: PostgreSQLUser and rc evs
  show "resolved_User user rc evs \<Longrightarrow> resolve_events rc evs"
    unfolding resolved_User_def by (rule resolution_events)
qed (unfold Reconcile_User_def user_apply_def Let_def case_outcome,
   auto simp: user_remove_and_update_def user_ready_def
     handleDeletion_User_def dest: emits_calls)

end
