(* ===== verification/CtrlGrant.thy ===== *)
theory CtrlGrant
  imports ResourceLaws SqlGrant
begin

text \<open>
  \<open>internal/controller/postgresqlgrant_controller.go\<close>: one reconciliation of a
  \<open>PostgreSQLGrant\<close> and the handling of its deletion.
\<close>

definition grant_patch ::
  "'w deps \<Rightarrow> PostgreSQLGrant \<Rightarrow> string \<Rightarrow> string \<Rightarrow> string \<Rightarrow> 'w world \<Rightarrow> PostgreSQLGrant \<times> 'w world" where
  "grant_patch d grant = patchCondition d Grant_object grant_conditions grant (om_Generation (grant_ObjectMeta grant))"

definition grant_opts :: "PostgreSQLGrant \<Rightarrow> GrantOpts" where
  "grant_opts grant = \<lparr>go_Privileges = gs_Privileges (grant_Spec grant),
     go_Database = gs_Database (grant_Spec grant), go_Schema = gs_Schema (grant_Spec grant),
     go_Role = gs_Role (grant_Spec grant)\<rparr>"

text \<open>\<open>controllerutil.AddFinalizer(grant, FinalizerName)\<close> and its counterpart, which change \<open>grant\<close>.\<close>

definition grant_add_finalizer :: "'w deps \<Rightarrow> PostgreSQLGrant \<Rightarrow> PostgreSQLGrant" where
  "grant_add_finalizer d grant = grant\<lparr>grant_ObjectMeta := AddFinalizer d (grant_ObjectMeta grant) FinalizerName\<rparr>"

definition grant_remove_finalizer :: "'w deps \<Rightarrow> PostgreSQLGrant \<Rightarrow> PostgreSQLGrant" where
  "grant_remove_finalizer d grant = grant\<lparr>grant_ObjectMeta := RemoveFinalizer d (grant_ObjectMeta grant) FinalizerName\<rparr>"

definition grant_remove_and_update ::
  "'w deps \<Rightarrow> PostgreSQLGrant \<Rightarrow> 'w world \<Rightarrow> (Result \<times> gerror option) \<times> 'w world" where
  "grant_remove_and_update d grant s =
     (case Update_Grant d (grant_remove_finalizer d grant) s of
        (Inl err, s) \<Rightarrow> ((no_Result, Some err), s)
      | (Inr _, s) \<Rightarrow> ((no_Result, None), s))"

definition handleDeletion_Grant ::
  "'w deps \<Rightarrow> PostgreSQLGrant \<Rightarrow> 'w world \<Rightarrow> (Result \<times> gerror option) \<times> 'w world" where
  "handleDeletion_Grant d grant s =
     (if \<not> ContainsFinalizer d (grant_ObjectMeta grant) FinalizerName then ((no_Result, None), s)
      else if CleanupPolicy (gs_SQLTemplate (grant_Spec grant)) = CleanupPolicyDelete then
        (case connectToDatabase d (om_Namespace (grant_ObjectMeta grant)) (gs_PostgresRef (grant_Spec grant))
             (gs_Database (grant_Spec grant)) s of
           (Inl err, s) \<Rightarrow>
             if IsNotFound d err then grant_remove_and_update d grant s
             else ((\<lparr>RequeueAfter = defaultRetryInterval\<rparr>, None), s)
         | (Inr pgClient, s) \<Rightarrow>
             defer_Close d pgClient (\<lambda>s.
               case RevokePrivileges d pgClient (grant_opts grant) s of
                 (Some err, s) \<Rightarrow> ((\<lparr>RequeueAfter = defaultRetryInterval\<rparr>, None), s)
               | (None, s) \<Rightarrow> grant_remove_and_update d grant s) s)
      else grant_remove_and_update d grant s)"

text \<open>The end of a successful reconciliation: report \<open>Ready\<close>, then the requeue interval.\<close>

definition grant_ready ::
  "'w deps \<Rightarrow> PostgreSQLGrant \<Rightarrow> 'w world \<Rightarrow> (Result \<times> gerror option) \<times> 'w world" where
  "grant_ready d grant s =
     (case grant_patch d grant ConditionTrue ReasonSucceeded (''Privileges granted on '' @ fmt_q d (gs_Database (grant_Spec grant))
            @ '' to '' @ fmt_q d (gs_Role (grant_Spec grant))) s of
        (_, s) \<Rightarrow> (case requeueResult d (gs_SQLTemplate (grant_Spec grant)) s of (res, s) \<Rightarrow> ((res, None), s)))"

definition Reconcile_Grant ::
  "'w deps \<Rightarrow> NamespacedName \<Rightarrow> 'w world \<Rightarrow> (Result \<times> gerror option) \<times> 'w world" where
  "Reconcile_Grant d req s =
     (case Get_Grant d req s of
        (Inl err, s) \<Rightarrow> if IsNotFound d err then ((no_Result, None), s) else ((no_Result, Some err), s)
      | (Inr grant, s) \<Rightarrow>
          if \<not> Time_IsZero d (om_DeletionTimestamp (grant_ObjectMeta grant)) then handleDeletion_Grant d grant s
          else
     (case connectToDatabase d (om_Namespace (grant_ObjectMeta grant)) (gs_PostgresRef (grant_Spec grant))
             (gs_Database (grant_Spec grant)) s of
        (Inl err, s) \<Rightarrow>
          (case grant_patch d grant ConditionFalse ReasonFailed (''Failed to connect to PostgreSQL: '' @ Error err) s of
             (_, s) \<Rightarrow> (case retryResult d (gs_SQLTemplate (grant_Spec grant)) s of (res, s) \<Rightarrow> ((res, None), s)))
      | (Inr pgClient, s) \<Rightarrow>
          defer_Close d pgClient (\<lambda>s.
            case GrantPrivileges d pgClient (grant_opts grant) s of
              (Some err, s) \<Rightarrow>
                (case grant_patch d grant ConditionFalse ReasonFailed (''Failed to grant privileges: '' @ Error err) s of
                   (_, s) \<Rightarrow> (case retryResult d (gs_SQLTemplate (grant_Spec grant)) s of (res, s) \<Rightarrow> ((res, None), s)))
            | (None, s) \<Rightarrow>
                if \<not> ContainsFinalizer d (grant_ObjectMeta grant) FinalizerName then
                  (case Update_Grant d (grant_add_finalizer d grant) s of
                     (Inl err, s) \<Rightarrow> ((no_Result, Some err), s)
                   | (Inr grant, s) \<Rightarrow> grant_ready d grant s)
                else grant_ready d grant s) s))"

section \<open>The shared contract\<close>

text \<open>The calls that resolve the instance of a resource.\<close>

definition resolved_Grant :: "PostgreSQLGrant \<Rightarrow> gerror + Client \<Rightarrow> event list \<Rightarrow> bool" where
  "resolved_Grant grant = resolution (\<lambda>_. gs_Database (grant_Spec grant)) (om_Namespace (grant_ObjectMeta grant)) (gs_PostgresRef (grant_Spec grant))"

definition grant_apply :: "'w deps \<Rightarrow> PostgreSQLGrant \<Rightarrow> Client \<Rightarrow> 'w world \<Rightarrow> string option \<times> 'w world" where
  "grant_apply d grant c s =
     (case GrantPrivileges d c (grant_opts grant) s of
        (Some err, s) \<Rightarrow> (Some (''Failed to grant privileges: '' @ Error err), s)
      | (None, s) \<Rightarrow> (None, s))"

interpretation gr: sql_resource d Grant_kind Grant_object grant_ObjectMeta "\<lambda>grant. gs_SQLTemplate (grant_Spec grant)"
    grant_conditions "grant_add_finalizer d" "grant_remove_finalizer d" "Get_Grant d" "Update_Grant d"
    "\<lambda>grant. connectToDatabase d (om_Namespace (grant_ObjectMeta grant)) (gs_PostgresRef (grant_Spec grant))
       (gs_Database (grant_Spec grant))"
    "grant_apply d" "\<lambda>grant c. RevokePrivileges d c (grant_opts grant)"
    "\<lambda>_ grant. ''Privileges granted on '' @ fmt_q d (gs_Database (grant_Spec grant))
       @ '' to '' @ fmt_q d (gs_Role (grant_Spec grant))"
    resolved_Grant "\<lambda>grant c. batch_ok c (grant_statements d (grant_opts grant))"
    "\<lambda>grant c. batch_ok c (revoke_statements d (grant_opts grant))"
    "grant_patch d" "grant_remove_and_update d" "\<lambda>_. grant_ready d"
    "handleDeletion_Grant d" "Reconcile_Grant d"
  for d :: "'w deps"
proof
  fix grant c s ra s'
  assume "grant_apply d grant c s = (ra, s')"
  then obtain r where "GrantPrivileges d c (grant_opts grant) s = (r, s')" "ra = None \<longleftrightarrow> r = None"
    by (auto simp: grant_apply_def split: go_splits)
  then show "\<exists>evs. emits s s' evs \<and> list_all (\<lambda>e. sql_on (conn c) e \<or> reads_secret e) evs \<and>
      (ra = None \<longrightarrow> batch_ok (conn c) (grant_statements d (grant_opts grant)) evs)"
    by (auto elim!: GrantPrivileges_emits simp: list_all_iff)
next
  fix grant c s re s'
  assume "RevokePrivileges d c (grant_opts grant) s = (re, s')"
  then show "\<exists>evs. emits s s' evs \<and> list_all (sql_on (conn c)) evs \<and>
      (re = None \<longrightarrow> batch_ok (conn c) (revoke_statements d (grant_opts grant)) evs)"
    by (auto elim!: RevokePrivileges_emits)
next
  fix grant status reason message s grant' s'
  assume "grant_patch d grant status reason message s = (grant', s')"
  then show "\<exists>ev. emits s s' [ev] \<and> condition_patch d Grant_object grant_conditions grant
      (om_Generation (grant_ObjectMeta grant)) status reason message ev"
    unfolding grant_patch_def by (blast elim: patchCondition_emits)
next
  fix grant :: PostgreSQLGrant and s rc s'
  assume "connectToDatabase d (om_Namespace (grant_ObjectMeta grant)) (gs_PostgresRef (grant_Spec grant))
    (gs_Database (grant_Spec grant)) s = (rc, s')"
  then show "\<exists>evs. emits s s' evs \<and> resolved_Grant grant rc evs"
    unfolding resolved_Grant_def by (rule connectToDatabase_calls)
next
  fix grant :: PostgreSQLGrant and rc evs
  show "resolved_Grant grant rc evs \<Longrightarrow> resolve_events rc evs"
    unfolding resolved_Grant_def by (rule resolution_events)
qed (auto simp: grant_remove_and_update_def grant_ready_def
     handleDeletion_Grant_def Reconcile_Grant_def grant_apply_def Let_def case_outcome dest: emits_calls
     split: prod.splits sum.splits)

end
