(* ===== verification/Operator.thy ===== *)
theory Operator
  imports CtrlPostgreSQL CtrlDatabase CtrlUser CtrlGrant
begin

text \<open>
  The four controllers together: one request of the work queue, and the runs of the operator as a
  step relation in which reconciliations alternate with arbitrary changes of the outside world.
  (Within a reconciliation the outside world changes at every call; reconciliations of different
  controllers are ordered one after the other; \<open>Workers\<close> lets them interleave.) The invariants of such runs are about the record
  of all calls made.
\<close>

section \<open>One request\<close>

fun Reconcile :: "'w deps \<Rightarrow> object_kind \<Rightarrow> NamespacedName \<Rightarrow> 'w world \<Rightarrow> (Result \<times> gerror option) \<times> 'w world" where
  "Reconcile d PostgreSQL_kind req s = Reconcile_PostgreSQL d req s"
| "Reconcile d Database_kind req s = Reconcile_Database d req s"
| "Reconcile d User_kind req s = Reconcile_User d req s"
| "Reconcile d Grant_kind req s = Reconcile_Grant d req s"
| "Reconcile d Secret_kind req s = ((no_Result, None), s)"

text \<open>What the controllers have in common, by the kind of the object.\<close>

fun with_finalizer :: "'w deps \<Rightarrow> client_object \<Rightarrow> client_object" where
  "with_finalizer d (PostgreSQL_object pg) = PostgreSQL_object pg"
| "with_finalizer d (Database_object db) = Database_object (db_add_finalizer d db)"
| "with_finalizer d (User_object user) = User_object (user_add_finalizer d user)"
| "with_finalizer d (Grant_object grant) = Grant_object (grant_add_finalizer d grant)"

fun without_finalizer :: "'w deps \<Rightarrow> client_object \<Rightarrow> client_object" where
  "without_finalizer d (PostgreSQL_object pg) = PostgreSQL_object pg"
| "without_finalizer d (Database_object db) = Database_object (db_remove_finalizer d db)"
| "without_finalizer d (User_object user) = User_object (user_remove_finalizer d user)"
| "without_finalizer d (Grant_object grant) = Grant_object (grant_remove_finalizer d grant)"

fun cleanup_policy :: "client_object \<Rightarrow> CleanupPolicy" where
  "cleanup_policy (PostgreSQL_object pg) = CleanupPolicySkip"
| "cleanup_policy (Database_object db) = CleanupPolicy (dbs_SQLTemplate (db_Spec db))"
| "cleanup_policy (User_object user) = CleanupPolicy (us_SQLTemplate (user_Spec user))"
| "cleanup_policy (Grant_object grant) = CleanupPolicy (gs_SQLTemplate (grant_Spec grant))"

text \<open>The calls that resolve the connection an object asks for, with their result.\<close>

fun resolved_for :: "client_object \<Rightarrow> gerror + Client \<Rightarrow> event list \<Rightarrow> bool" where
  "resolved_for (PostgreSQL_object pg) rc evs = False"
| "resolved_for (Database_object db) rc evs = resolved_Database db rc evs"
| "resolved_for (User_object user) rc evs = resolved_User user rc evs"
| "resolved_for (Grant_object grant) rc evs = resolved_Grant grant rc evs"

text \<open>The reading of an object under its kind.\<close>

definition fetched :: "NamespacedName \<Rightarrow> client_object \<Rightarrow> event" where
  "fetched key x = EvGet (kind_of x) key (Inr (Fetched_object x))"

text \<open>A successful run of the SQL that puts the object in place, and of the SQL that removes it.\<close>

fun sql_applied :: "'w deps \<Rightarrow> client_object \<Rightarrow> pgx_conn \<Rightarrow> event list \<Rightarrow> bool" where
  "sql_applied d (PostgreSQL_object pg) c evs = False"
| "sql_applied d (Database_object db) c evs = database_ensured d c (DatabaseName db) evs"
| "sql_applied d (User_object user) c evs = user_applied d user c evs"
| "sql_applied d (Grant_object grant) c evs = batch_ok c (grant_statements d (grant_opts grant)) evs"

fun sql_cleaned :: "'w deps \<Rightarrow> client_object \<Rightarrow> pgx_conn \<Rightarrow> event list \<Rightarrow> bool" where
  "sql_cleaned d (PostgreSQL_object pg) c evs = False"
| "sql_cleaned d (Database_object db) c evs = database_removed d c (DatabaseName db) evs"
| "sql_cleaned d (User_object user) c evs = role_removed d c (RoleName user) evs"
| "sql_cleaned d (Grant_object grant) c evs = batch_ok c (revoke_statements d (grant_opts grant)) evs"

text \<open>
  The calls of a request up to an update of \<open>ob\<close>, and what they must be for the update to be
  allowed. The first call fetched the object \<open>x\<close>. The finalizer is added to \<open>x\<close> when it is live and its
  SQL succeeded on the connection resolved for it; the finalizer is removed from \<open>x\<close> when it is under
  deletion and its cleanup succeeded on that connection, or without cleanup if the policy is not
  \<open>Delete\<close> or the connection could not be resolved because of an error \<open>IsNotFound\<close> accepts.
\<close>

definition add_allowed :: "'w deps \<Rightarrow> client_object \<Rightarrow> event list \<Rightarrow> bool" where
  "add_allowed d ob evs \<longleftrightarrow>
     (\<exists>x key c cevs levs. ob = with_finalizer d x \<and> Time_IsZero d (om_DeletionTimestamp (object_meta x)) \<and>
        \<not> ContainsFinalizer d (object_meta x) FinalizerName \<and>
        evs = fetched key x # cevs @ levs \<and> resolved_for x (Inr c) cevs \<and> sql_applied d x (conn c) levs)"

definition remove_allowed :: "'w deps \<Rightarrow> client_object \<Rightarrow> event list \<Rightarrow> bool" where
  "remove_allowed d ob evs \<longleftrightarrow>
     (\<exists>x key evs'. ob = without_finalizer d x \<and> \<not> Time_IsZero d (om_DeletionTimestamp (object_meta x)) \<and>
        ContainsFinalizer d (object_meta x) FinalizerName \<and> evs = fetched key x # evs' \<and>
        (cleanup_policy x = CleanupPolicyDelete \<longrightarrow>
          (\<exists>err. resolved_for x (Inl err) evs' \<and> IsNotFound d err) \<or>
          (\<exists>c cevs levs. evs' = cevs @ levs \<and> resolved_for x (Inr c) cevs \<and> sql_cleaned d x (conn c) levs)))"

lemma updates_Database:
  assumes "Reconcile_Database d req s = (r, s')" "emits s s' (pre @ EvUpdate ob e # post)"
  shows "(add_allowed d ob pre \<or> remove_allowed d ob pre) \<and> snd r = left_of e"
  using assms
proof (cases rule: dbr.reconcile_updates)
  case (added x s1 c cevs levs)
  then have "add_allowed d ob pre"
    unfolding add_allowed_def fetched_def by (intro exI [of _ "Database_object x"]) fastforce
  with added show ?thesis by simp
next
  case (removed x s1 pre')
  from dbr.deletion_updates [OF removed(3,4)] have "remove_allowed d ob pre"
    unfolding remove_allowed_def fetched_def using removed(2,5) by (intro exI [of _ "Database_object x"]) auto
  with dbr.deletion_updates [OF removed(3,4)] show ?thesis by simp
qed

lemma updates_User:
  assumes "Reconcile_User d req s = (r, s')" "emits s s' (pre @ EvUpdate ob e # post)"
  shows "(add_allowed d ob pre \<or> remove_allowed d ob pre) \<and> snd r = left_of e"
  using assms
proof (cases rule: ur.reconcile_updates)
  case (added x s1 c cevs levs)
  then have "add_allowed d ob pre"
    unfolding add_allowed_def fetched_def by (intro exI [of _ "User_object x"]) fastforce
  with added show ?thesis by simp
next
  case (removed x s1 pre')
  from ur.deletion_updates [OF removed(3,4)] have "remove_allowed d ob pre"
    unfolding remove_allowed_def fetched_def using removed(2,5) by (intro exI [of _ "User_object x"]) auto
  with ur.deletion_updates [OF removed(3,4)] show ?thesis by simp
qed

lemma updates_Grant:
  assumes "Reconcile_Grant d req s = (r, s')" "emits s s' (pre @ EvUpdate ob e # post)"
  shows "(add_allowed d ob pre \<or> remove_allowed d ob pre) \<and> snd r = left_of e"
  using assms
proof (cases rule: gr.reconcile_updates)
  case (added x s1 c cevs levs)
  then have "add_allowed d ob pre"
    unfolding add_allowed_def fetched_def by (intro exI [of _ "Grant_object x"]) fastforce
  with added show ?thesis by simp
next
  case (removed x s1 pre')
  from gr.deletion_updates [OF removed(3,4)] have "remove_allowed d ob pre"
    unfolding remove_allowed_def fetched_def using removed(2,5) by (intro exI [of _ "Grant_object x"]) auto
  with gr.deletion_updates [OF removed(3,4)] show ?thesis by simp
qed

section \<open>Reports\<close>

text \<open>
  The status of the first condition of a type, and what is relied on of
  \<open>meta.SetStatusCondition\<close>: afterwards the condition of that type has the status set.
\<close>

definition cond_status :: "string \<Rightarrow> Condition list \<Rightarrow> string option" where
  "cond_status t cs = map_option cond_Status (find (\<lambda>c. cond_Type c = t) cs)"

definition sets_status :: "(Condition list \<Rightarrow> Condition \<Rightarrow> Condition list) \<Rightarrow> bool" where
  "sets_status f \<longleftrightarrow> (\<forall>cs c. cond_status (cond_Type c) (f cs c) = Some (cond_Status c))"

definition object_ready :: "client_object \<Rightarrow> bool" where
  "object_ready ob \<longleftrightarrow> cond_status ConditionTypeReady (object_conditions ob) = Some ConditionTrue"

definition ready_allowed :: "'w deps \<Rightarrow> client_object \<Rightarrow> event list \<Rightarrow> bool" where
  "ready_allowed d orig evs \<longleftrightarrow>
     (\<exists>x key c cevs levs ups. evs = fetched key x # cevs @ levs @ ups \<and>
        Time_IsZero d (om_DeletionTimestamp (object_meta x)) \<and> resolved_for x (Inr c) cevs \<and>
        sql_applied d x (conn c) levs \<and>
        (if ContainsFinalizer d (object_meta x) FinalizerName then ups = [] \<and> orig = x
         else ups = [EvUpdate (with_finalizer d x) (Inr orig)])) \<or>
     (\<exists>pg key evs' closing. orig = PostgreSQL_object pg \<and> evs = fetched key orig # evs' \<and>
        pg_attempt pg True evs' closing)"

lemma patched_conditions [simp]:
  "pgst_Conditions (pg_Status (pg_conditions f pg)) = f (pgst_Conditions (pg_Status pg))"
  "dbst_Conditions (db_Status (db_conditions f db)) = f (dbst_Conditions (db_Status db))"
  "ust_Conditions (user_Status (user_conditions f user)) = f (ust_Conditions (user_Status user))"
  "gst_Conditions (grant_Status (grant_conditions f grant)) = f (gst_Conditions (grant_Status grant))"
  by (simp_all add: conditions_defs)

lemma EvPatch_is_patch: "is_patch (EvPatch orig ob e)"
  by simp

lemma False_not_True: "ConditionFalse \<noteq> ConditionTrue"
  by (simp add: ConditionFalse_def ConditionTrue_def)

lemma patched_not_ready:
  assumes "sets_status (SetStatusCondition d)"
  shows "condition_patch d PostgreSQL_object pg_conditions pg g ConditionFalse reason msg (EvPatch orig ob e) \<Longrightarrow> \<not> object_ready ob"
    "condition_patch d Database_object db_conditions db g ConditionFalse reason msg (EvPatch orig ob e) \<Longrightarrow> \<not> object_ready ob"
    "condition_patch d User_object user_conditions user g ConditionFalse reason msg (EvPatch orig ob e) \<Longrightarrow> \<not> object_ready ob"
    "condition_patch d Grant_object grant_conditions grant g ConditionFalse reason msg (EvPatch orig ob e) \<Longrightarrow> \<not> object_ready ob"
proof -
  have "cond_status ConditionTypeReady (SetStatusCondition d cs c) \<noteq> Some ConditionTrue"
    if "cond_Type c = ConditionTypeReady" "cond_Status c = ConditionFalse" for cs c
    using assms that False_not_True unfolding sets_status_def by (metis option.inject)
  then show "condition_patch d PostgreSQL_object pg_conditions pg g ConditionFalse reason msg (EvPatch orig ob e) \<Longrightarrow> \<not> object_ready ob"
    "condition_patch d Database_object db_conditions db g ConditionFalse reason msg (EvPatch orig ob e) \<Longrightarrow> \<not> object_ready ob"
    "condition_patch d User_object user_conditions user g ConditionFalse reason msg (EvPatch orig ob e) \<Longrightarrow> \<not> object_ready ob"
    "condition_patch d Grant_object grant_conditions grant g ConditionFalse reason msg (EvPatch orig ob e) \<Longrightarrow> \<not> object_ready ob"
    by (auto simp: condition_patch_def object_ready_def)
qed

text \<open>A patch with the condition \<open>Ready\<close> set to true makes the object it sends \<open>Ready\<close>.\<close>

lemma patched_ready:
  assumes "sets_status (SetStatusCondition d)"
  shows
    "condition_patch d Database_object db_conditions db g ConditionTrue reason msg ev \<Longrightarrow> \<exists>orig ob e. ev = EvPatch orig ob e \<and> object_ready ob"
    "condition_patch d User_object user_conditions user g ConditionTrue reason msg ev \<Longrightarrow> \<exists>orig ob e. ev = EvPatch orig ob e \<and> object_ready ob"
    "condition_patch d Grant_object grant_conditions grant g ConditionTrue reason msg ev \<Longrightarrow> \<exists>orig ob e. ev = EvPatch orig ob e \<and> object_ready ob"
proof -
  have "cond_status ConditionTypeReady (SetStatusCondition d cs c) = Some ConditionTrue"
    if "cond_Type c = ConditionTypeReady" "cond_Status c = ConditionTrue" for cs c
    using assms that unfolding sets_status_def by metis
  then show
    "condition_patch d Database_object db_conditions db g ConditionTrue reason msg ev \<Longrightarrow> \<exists>orig ob e. ev = EvPatch orig ob e \<and> object_ready ob"
    "condition_patch d User_object user_conditions user g ConditionTrue reason msg ev \<Longrightarrow> \<exists>orig ob e. ev = EvPatch orig ob e \<and> object_ready ob"
    "condition_patch d Grant_object grant_conditions grant g ConditionTrue reason msg ev \<Longrightarrow> \<exists>orig ob e. ev = EvPatch orig ob e \<and> object_ready ob"
    by (auto simp: condition_patch_def object_ready_def)
qed

lemma patched_orig:
  "condition_patch d as_object conds x g status reason msg (EvPatch orig ob e) \<Longrightarrow> orig = as_object x"
  by (auto simp: condition_patch_def)

lemma patches_PostgreSQL:
  assumes "Reconcile_PostgreSQL d req s = (r, s')" "emits s s' (pre @ EvPatch orig ob e # post)"
    and "sets_status (SetStatusCondition d)" "object_ready ob"
  shows "ready_allowed d orig pre"
  using assms(1,2) EvPatch_is_patch
proof (cases rule: Reconcile_PostgreSQL_patches)
  case (failed pg s1 evs msg)
  with patched_not_ready(1) [OF assms(3)] assms(4) show ?thesis by blast
next
  case (connected pg s1 evs s2 s3)
  with patched_orig [OF connected(4)] show ?thesis unfolding ready_allowed_def fetched_def
    by (intro disjI2 exI [of _ pg]) auto
qed

lemma patches_Database:
  assumes "Reconcile_Database d req s = (r, s')" "emits s s' (pre @ EvPatch orig ob e # post)"
    and "sets_status (SetStatusCondition d)" "object_ready ob"
  shows "ready_allowed d orig pre"
  using assms(1,2) EvPatch_is_patch
proof (cases rule: dbr.reconcile_patches)
  case (failed x s1 msg s2 s3)
  with patched_not_ready(2) [OF assms(3)] assms(4) show ?thesis by blast
next
  case (succeeded x s1 c cevs levs ups x' s2 s3)
  with patched_orig [OF succeeded(7)] show ?thesis unfolding ready_allowed_def fetched_def
    by (intro disjI1 exI [of _ "Database_object x"] exI [of _ c]) (auto split: if_splits)
qed

lemma patches_User:
  assumes "Reconcile_User d req s = (r, s')" "emits s s' (pre @ EvPatch orig ob e # post)"
    and "sets_status (SetStatusCondition d)" "object_ready ob"
  shows "ready_allowed d orig pre"
  using assms(1,2) EvPatch_is_patch
proof (cases rule: ur.reconcile_patches)
  case (failed x s1 msg s2 s3)
  with patched_not_ready(3) [OF assms(3)] assms(4) show ?thesis by blast
next
  case (succeeded x s1 c cevs levs ups x' s2 s3)
  with patched_orig [OF succeeded(7)] show ?thesis unfolding ready_allowed_def fetched_def
    by (intro disjI1 exI [of _ "User_object x"] exI [of _ c]) (auto split: if_splits)
qed

lemma patches_Grant:
  assumes "Reconcile_Grant d req s = (r, s')" "emits s s' (pre @ EvPatch orig ob e # post)"
    and "sets_status (SetStatusCondition d)" "object_ready ob"
  shows "ready_allowed d orig pre"
  using assms(1,2) EvPatch_is_patch
proof (cases rule: gr.reconcile_patches)
  case (failed x s1 msg s2 s3)
  with patched_not_ready(4) [OF assms(3)] assms(4) show ?thesis by blast
next
  case (succeeded x s1 c cevs levs ups x' s2 s3)
  with patched_orig [OF succeeded(7)] show ?thesis unfolding ready_allowed_def fetched_def
    by (intro disjI1 exI [of _ "Grant_object x"] exI [of _ c]) (auto split: if_splits)
qed

section \<open>Every request\<close>

lemma Reconcile_emits:
  assumes "Reconcile d k req s = (r, s')"
  obtains evs where "emits s s' evs"
proof (cases k)
  case PostgreSQL_kind
  with assms that show ?thesis by (auto elim: Reconcile_PostgreSQL_traces)
next
  case Database_kind
  with assms that show ?thesis by (auto elim: dbr.reconcile_emits_some)
next
  case User_kind
  with assms that show ?thesis by (auto elim: ur.reconcile_emits_some)
next
  case Grant_kind
  with assms that show ?thesis by (auto elim: gr.reconcile_emits_some)
next
  case Secret_kind
  with assms that [of "[]"] show ?thesis by (simp add: emits_refl)
qed

lemma Reconcile_balanced:
  assumes "Reconcile d k req s = (r, s')" "emits s s' evs"
  shows "conn_run os evs = Some os"
proof (cases k)
  case PostgreSQL_kind
  with assms(1) have "Reconcile_PostgreSQL d req s = (r, s')" by simp
  then obtain evs' where "emits s s' evs'" "conn_run os evs' = Some os"
    by (rule Reconcile_PostgreSQL_traces)
  with emits_unique [OF assms(2)] show ?thesis by blast
next
  case Database_kind
  with assms show ?thesis by (auto intro: dbr.reconcile_balanced)
next
  case User_kind
  with assms show ?thesis by (auto intro: ur.reconcile_balanced)
next
  case Grant_kind
  with assms show ?thesis by (auto intro: gr.reconcile_balanced)
next
  case Secret_kind
  with assms emits_unique [OF assms(2), of "[]"] show ?thesis by (simp add: emits_refl)
qed

lemma Reconcile_updates:
  assumes "Reconcile d k req s = (r, s')" "emits s s' (pre @ EvUpdate ob e # post)"
  shows "(add_allowed d ob pre \<or> remove_allowed d ob pre) \<and> snd r = left_of e"
proof (cases k)
  case PostgreSQL_kind
  with assms(1) have "Reconcile_PostgreSQL d req s = (r, s')" by simp
  then obtain evs' where "emits s s' evs'" "list_all (\<lambda>e. \<not> is_update e) evs'"
    by (rule Reconcile_PostgreSQL_traces)
  with no_update [OF _ assms(2)] show ?thesis by blast
next
  case Database_kind
  with assms updates_Database show ?thesis by simp
next
  case User_kind
  with assms updates_User show ?thesis by simp
next
  case Grant_kind
  with assms updates_Grant show ?thesis by simp
next
  case Secret_kind
  with assms emits_unique [OF assms(2), of "[]"] show ?thesis by (simp add: emits_refl)
qed

lemma Reconcile_patches:
  assumes "Reconcile d k req s = (r, s')" "emits s s' (pre @ EvPatch orig ob e # post)"
    and "sets_status (SetStatusCondition d)" "object_ready ob"
  shows "ready_allowed d orig pre"
proof (cases k)
  case Secret_kind
  with assms emits_unique [OF assms(2), of "[]"] show ?thesis by (simp add: emits_refl)
qed (use assms patches_PostgreSQL patches_Database patches_User patches_Grant in simp_all)

text \<open>Errors: only a failed read of the object and a failed update reach the work queue.\<close>

lemma PostgreSQL_errors:
  assumes "Reconcile_PostgreSQL d req s = (r, s')" "emits s s' evs" "snd r = Some e"
  shows "r = (no_Result, Some e) \<and> evs = [EvGet PostgreSQL_kind req (Inl e)] \<and> \<not> IsNotFound d e"
  using assms(1)
proof (cases rule: Reconcile_PostgreSQL_cases)
  case (get_error err)
  with emits_unique [OF assms(2) this(1)] assms(3) show ?thesis by simp
qed (use assms(3) in simp_all)

lemma Reconcile_errors:
  assumes "Reconcile d k req s = (r, s')" "emits s s' evs" "snd r = Some e"
  shows "r = (no_Result, Some e) \<and>
    (evs = [EvGet k req (Inl e)] \<and> \<not> IsNotFound d e \<or> (\<exists>ob. EvUpdate ob (Inl e) \<in> set evs))"
proof (cases k)
  case PostgreSQL_kind
  with assms PostgreSQL_errors [of d req s r s' evs e] show ?thesis by simp
next
  case Database_kind
  with assms dbr.reconcile_errors [of d req s r s' evs e] show ?thesis by simp
next
  case User_kind
  with assms ur.reconcile_errors [of d req s r s' evs e] show ?thesis by simp
next
  case Grant_kind
  with assms gr.reconcile_errors [of d req s r s' evs e] show ?thesis by simp
next
  case Secret_kind
  with assms show ?thesis by auto
qed

section \<open>Deletions\<close>

fun handleDeletion :: "'w deps \<Rightarrow> client_object \<Rightarrow> 'w world \<Rightarrow> (Result \<times> gerror option) \<times> 'w world" where
  "handleDeletion d (PostgreSQL_object pg) s = ((no_Result, None), s)"
| "handleDeletion d (Database_object db) s = handleDeletion_Database d db s"
| "handleDeletion d (User_object user) s = handleDeletion_User d user s"
| "handleDeletion d (Grant_object grant) s = handleDeletion_Grant d grant s"

lemma handleDeletion_offline:
  assumes "handleDeletion d ob s = (r, s')" "emits s s' evs" "cleanup_policy ob \<noteq> CleanupPolicyDelete"
  shows "evs = [] \<or> (\<exists>e. evs = [EvUpdate (without_finalizer d ob) e])"
proof (cases ob)
  case (PostgreSQL_object pg)
  with assms emits_unique [OF assms(2), of "[]"] show ?thesis by (simp add: emits_refl)
next
  case (Database_object db)
  with assms dbr.deletion_offline [of d db s r s' evs] show ?thesis by simp
next
  case (User_object user)
  with assms ur.deletion_offline [of d user s r s' evs] show ?thesis by simp
next
  case (Grant_object grant)
  with assms gr.deletion_offline [of d grant s r s' evs] show ?thesis by simp
qed

lemma handleDeletion_ends:
  assumes "handleDeletion d ob s = (r, s')" "emits s s' evs" "ContainsFinalizer d (object_meta ob) FinalizerName"
    and "\<forall>pg. ob \<noteq> PostgreSQL_object pg"
  shows "(\<exists>pre e post. evs = pre @ EvUpdate (without_finalizer d ob) e # post \<and>
       list_all (\<lambda>ev. \<not> is_update ev) (pre @ post) \<and> r = (no_Result, left_of e)) \<or>
    list_all (\<lambda>ev. \<not> is_update ev) evs \<and> r = (\<lparr>RequeueAfter = defaultRetryInterval\<rparr>, None)"
proof (cases ob)
  case (Database_object db)
  with assms dbr.deletion_ends [of d db s r s' evs] show ?thesis by simp
next
  case (User_object user)
  with assms ur.deletion_ends [of d user s r s' evs] show ?thesis by simp
next
  case (Grant_object grant)
  with assms gr.deletion_ends [of d grant s r s' evs] show ?thesis by simp
qed (use assms(4) in simp)

section \<open>Runs\<close>

inductive op_step :: "'w deps \<Rightarrow> 'w world \<Rightarrow> 'w world \<Rightarrow> bool" for d where
  request: "Reconcile d k req s = (r, s') \<Longrightarrow> op_step d s s'"
| environment: "op_step d s (s\<lparr>ext := w\<rparr>)"

inductive reachable :: "'w deps \<Rightarrow> 'w world \<Rightarrow> bool" for d where
  start: "reachable d \<lparr>ext = w, trace = []\<rparr>"
| step: "reachable d s \<Longrightarrow> op_step d s s' \<Longrightarrow> reachable d s'"

inductive_cases op_stepE: "op_step d s s'"

text \<open>
  How a property of the calls of one request becomes an invariant of the runs: the trace is a
  sequence of complete requests.
\<close>

lemma reachable_induct_trace [consumes 1, case_names start request]:
  assumes "reachable d s" "P []"
    and "\<And>s k req r s' evs. P (trace s) \<Longrightarrow> Reconcile d k req s = (r, s') \<Longrightarrow> emits s s' evs \<Longrightarrow>
      P (trace s @ evs)"
  shows "P (trace s)"
  using assms(1)
proof (induction rule: reachable.induct)
  case (start w)
  show ?case using assms(2) by simp
next
  case (step s s')
  from step.hyps(2) show ?case
  proof (rule op_stepE)
    fix k req r
    assume request: "Reconcile d k req s = (r, s')"
    then obtain evs where e: "emits s s' evs" by (rule Reconcile_emits)
    with assms(3) [OF step.IH request e] show "P (trace s')" by (simp add: emits_def)
  next
    fix w
    assume "s' = s\<lparr>ext := w\<rparr>"
    with step.IH show "P (trace s')" by simp
  qed
qed

lemma reachable_connections: "reachable d s \<Longrightarrow> conn_run [] (trace s) = Some []"
  by (induction rule: reachable_induct_trace) (auto simp: conn_run_append dest: Reconcile_balanced)

lemma append_split:
  assumes "a @ b = pre @ ev # post"
  obtains (old) post' where "a = pre @ ev # post'" | (new) pre' where "pre = a @ pre'" "b = pre' @ ev # post"
proof -
  from assms consider us where "a = pre @ us" "us @ b = ev # post" | us where "pre = a @ us" "b = us @ ev # post"
    by (auto simp: append_eq_append_conv2)
  then show ?thesis
  proof cases
    case (1 us)
    then show ?thesis using old new [of "[]"] by (cases us) auto
  next
    case (2 us)
    then show ?thesis by (rule new)
  qed
qed

lemma reachable_updates:
  assumes "reachable d s" "trace s = pre @ EvUpdate ob e # post"
  shows "\<exists>past evs. pre = past @ evs \<and> (add_allowed d ob evs \<or> remove_allowed d ob evs)"
  using assms(1,2)
proof (induction arbitrary: post rule: reachable_induct_trace)
  case (request s k req r s' evs)
  from request.prems show ?case
  proof (cases rule: append_split)
    case (new pre')
    with Reconcile_updates [OF request.hyps(1)] request.hyps(2) show ?thesis by blast
  qed (use request.IH in blast)
qed simp

lemma reachable_reports:
  assumes "reachable d s" "sets_status (SetStatusCondition d)" "trace s = pre @ EvPatch orig ob e # post"
    and "object_ready ob"
  shows "\<exists>past evs. pre = past @ evs \<and> ready_allowed d orig evs"
  using assms(1,3)
proof (induction arbitrary: post rule: reachable_induct_trace)
  case (request s k req r s' evs)
  from request.prems show ?case
  proof (cases rule: append_split)
    case (new pre')
    with Reconcile_patches [OF request.hyps(1) _ assms(2,4)] request.hyps(2) show ?thesis by blast
  qed (use request.IH in blast)
qed simp

end
