(* ===== verification/EndToEnd.thy ===== *)
theory EndToEnd
  imports Operator RefWorld
begin

text \<open>
  From the report of a controller to the state of the cluster: an object reported \<open>Ready\<close> is there,
  and a deletion that removes the finalizer after a cleanup leaves the cluster without it.
\<close>

section \<open>The rest of a reconciliation leaves the cluster alone\<close>

text \<open>The API server, the clock, the random source and closing a connection do not change the cluster.\<close>

definition pg_isolated :: "'w deps \<Rightarrow> (pgx_conn \<Rightarrow> 'w \<Rightarrow> pg_state) \<Rightarrow> bool" where
  "pg_isolated d view \<longleftrightarrow>
     (\<forall>c c' w. view c (snd (pgx_Close d c' w)) = view c w) \<and>
     (\<forall>c w. view c (snd (metav1_Now d w)) = view c w) \<and>
     (\<forall>c w. view c (snd (rand_draw d w)) = view c w) \<and>
     (\<forall>c x w. view c (snd (k8s_Update_Database d x w)) = view c w) \<and>
     (\<forall>c x w. view c (snd (k8s_Update_User d x w)) = view c w) \<and>
     (\<forall>c x w. view c (snd (k8s_Update_Grant d x w)) = view c w) \<and>
     (\<forall>c x y w. view c (snd (k8s_Status_Patch d x y w)) = view c w)"

lemma isolated_calls:
  assumes "pg_isolated d view"
  shows "Close d cl s = (re, s') \<Longrightarrow> view c (ext s') = view c (ext s)"
    "Update_Database d db s = (rdb, s') \<Longrightarrow> view c (ext s') = view c (ext s)"
    "Update_User d u s = (ru, s') \<Longrightarrow> view c (ext s') = view c (ext s)"
    "Update_Grant d g s = (rg, s') \<Longrightarrow> view c (ext s') = view c (ext s)"
    "patchCondition d as_object conds ob gen status reason msg s = (ob', s') \<Longrightarrow> view c (ext s') = view c (ext s)"
    "requeueResult d t s = (res, s') \<Longrightarrow> view c (ext s') = view c (ext s)"
proof -
  note i = assms [unfolded pg_isolated_def]
  show "Close d cl s = (re, s') \<Longrightarrow> view c (ext s') = view c (ext s)"
    using i by (auto simp: Close_def call_defs split: prod.splits) (metis snd_conv)
  show "Update_Database d db s = (rdb, s') \<Longrightarrow> view c (ext s') = view c (ext s)"
    using i by (auto simp: call_defs split: prod.splits) (metis snd_conv)
  show "Update_User d u s = (ru, s') \<Longrightarrow> view c (ext s') = view c (ext s)"
    using i by (auto simp: call_defs split: prod.splits) (metis snd_conv)
  show "Update_Grant d g s = (rg, s') \<Longrightarrow> view c (ext s') = view c (ext s)"
    using i by (auto simp: call_defs split: prod.splits) (metis snd_conv)
  show "patchCondition d as_object conds ob gen status reason msg s = (ob', s') \<Longrightarrow> view c (ext s') = view c (ext s)"
    using i by (auto simp: patchCondition_def Let_def call_defs split: prod.splits) (metis snd_conv)
  show "requeueResult d t s = (res, s') \<Longrightarrow> view c (ext s') = view c (ext s)"
    using i by (auto simp: requeueResult_def addJitter_def Let_def call_defs split: prod.splits) (metis snd_conv)
qed

lemma ready_keeps:
  assumes "pg_isolated d view"
  shows "db_ready d db n s = (r, s') \<Longrightarrow> view c (ext s') = view c (ext s)"
    "user_ready d user n s = (r, s') \<Longrightarrow> view c (ext s') = view c (ext s)"
    "grant_ready d grant s = (r, s') \<Longrightarrow> view c (ext s') = view c (ext s)"
  by (auto simp: db_ready_def db_patch_def user_ready_def user_patch_def grant_ready_def grant_patch_def
    split: prod.splits dest!: isolated_calls(5,6) [OF assms, where c = c])

lemma ref_isolated: "pg_isolated ref_deps (\<lambda>c w. rw_pg w)"
proof -
  have "rw_pg (snd (ref_Status_Patch x y w)) = rw_pg w" for x y w by (cases y) simp_all
  then show ?thesis by (simp add: pg_isolated_def)
qed

section \<open>Reports and the cluster\<close>

text \<open>A report that is not the failure of any object of the kind.\<close>

lemma ready_not_failed:
  assumes "sets_status (SetStatusCondition d)" "object_ready ob"
  shows "\<not> condition_patch d Database_object db_conditions db g ConditionFalse reason msg (EvPatch orig ob e)"
    "\<not> condition_patch d User_object user_conditions user g ConditionFalse reason msg (EvPatch orig ob e)"
    "\<not> condition_patch d Grant_object grant_conditions grant g ConditionFalse reason msg (EvPatch orig ob e)"
  using patched_not_ready(2) [OF assms(1)] patched_not_ready(3) [OF assms(1)] patched_not_ready(4) [OF assms(1)]
    assms(2) by fast+

lemma database_ready_run:
  assumes "pg_isolated d view" "sets_status (SetStatusCondition d)"
    and "Reconcile_Database d req s = (r, s')" "emits s s' (pre @ EvPatch orig ob e # post)" "object_ready ob"
  obtains db s1 c s2 s3 where "Get_Database d req s = (Inr db, s1)"
    "connectToPostgres d (om_Namespace (db_ObjectMeta db)) (dbs_PostgresRef (db_Spec db)) s1 = (Inr c, s2)"
    "CreateDatabase d c (DatabaseName db) s2 = (None, s3)" "view (conn c) (ext s') = view (conn c) (ext s3)"
proof (rule dbr.ready_run [OF assms(3,4) EvPatch_is_patch ready_not_failed(1) [OF assms(2,5)]])
  fix db s1 c s2 s3 s4 ce
  assume a: "Get_Database d req s = (Inr db, s1)"
    "connectToPostgres d (om_Namespace (db_ObjectMeta db)) (dbs_PostgresRef (db_Spec db)) s1 = (Inr c, s2)"
    "db_apply d db c s2 = (None, s3)"
    "(if \<not> ContainsFinalizer d (db_ObjectMeta db) FinalizerName then
       (case Update_Database d (db_add_finalizer d db) s3 of
          (Inl err, s) \<Rightarrow> ((no_Result, Some err), s) | (Inr x', s) \<Rightarrow> db_ready d x' (DatabaseName db) s)
      else db_ready d db (DatabaseName db) s3) = (r, s4)"
    "Close d c s4 = (ce, s')"
  from a(3) have "CreateDatabase d c (DatabaseName db) s2 = (None, s3)"
    by (auto simp: db_apply_def split: prod.splits option.splits)
  moreover have "view (conn c) (ext s') = view (conn c) (ext s3)"
    using a(4) isolated_calls(1) [OF assms(1) a(5), of "conn c"]
    by (auto split: if_splits prod.splits sum.splits
      dest!: isolated_calls(2) [OF assms(1), where c = "conn c"] ready_keeps(1) [OF assms(1), where c = "conn c"])
  ultimately show ?thesis using a(1,2) that by blast
qed

lemma user_ready_run:
  assumes "pg_isolated d view" "sets_status (SetStatusCondition d)"
    and "Reconcile_User d req s = (r, s')" "emits s s' (pre @ EvPatch orig ob e # post)" "object_ready ob"
  obtains user s1 c s2 password s3 s4 where "Get_User d req s = (Inr user, s1)"
    "connectToPostgres d (om_Namespace (user_ObjectMeta user)) (us_PostgresRef (user_Spec user)) s1 = (Inr c, s2)"
    "getSecretValue d (om_Namespace (user_ObjectMeta user)) (us_PasswordSecretKeyRef (user_Spec user)) s2 = (Inr password, s3)"
    "CreateOrUpdateRole d c (RoleName user) password s3 = (None, s4)" "view (conn c) (ext s') = view (conn c) (ext s4)"
proof (rule ur.ready_run [OF assms(3,4) EvPatch_is_patch ready_not_failed(2) [OF assms(2,5)]])
  fix user s1 c s2 s4 s5 ce
  assume a: "Get_User d req s = (Inr user, s1)"
    "connectToPostgres d (om_Namespace (user_ObjectMeta user)) (us_PostgresRef (user_Spec user)) s1 = (Inr c, s2)"
    "user_apply d user c s2 = (None, s4)"
    "(if \<not> ContainsFinalizer d (user_ObjectMeta user) FinalizerName then
       (case Update_User d (user_add_finalizer d user) s4 of
          (Inl err, s) \<Rightarrow> ((no_Result, Some err), s) | (Inr x', s) \<Rightarrow> user_ready d x' (RoleName user) s)
      else user_ready d user (RoleName user) s4) = (r, s5)"
    "Close d c s5 = (ce, s')"
  from a(3) obtain password s3 where
    "getSecretValue d (om_Namespace (user_ObjectMeta user)) (us_PasswordSecretKeyRef (user_Spec user)) s2 = (Inr password, s3)"
    "CreateOrUpdateRole d c (RoleName user) password s3 = (None, s4)"
    by (auto simp: user_apply_def split: prod.splits sum.splits option.splits)
  moreover have "view (conn c) (ext s') = view (conn c) (ext s4)"
    using a(4) isolated_calls(1) [OF assms(1) a(5), of "conn c"]
    by (auto split: if_splits prod.splits sum.splits
      dest!: isolated_calls(3) [OF assms(1), where c = "conn c"] ready_keeps(2) [OF assms(1), where c = "conn c"])
  ultimately show ?thesis using a(1,2) that by blast
qed

lemma grant_ready_run:
  assumes "pg_isolated d view" "sets_status (SetStatusCondition d)"
    and "Reconcile_Grant d req s = (r, s')" "emits s s' (pre @ EvPatch orig ob e # post)" "object_ready ob"
  obtains grant s1 c s2 s3 where "Get_Grant d req s = (Inr grant, s1)"
    "connectToDatabase d (om_Namespace (grant_ObjectMeta grant)) (gs_PostgresRef (grant_Spec grant))
       (gs_Database (grant_Spec grant)) s1 = (Inr c, s2)"
    "GrantPrivileges d c (grant_opts grant) s2 = (None, s3)" "view (conn c) (ext s') = view (conn c) (ext s3)"
proof (rule gr.ready_run [OF assms(3,4) EvPatch_is_patch ready_not_failed(3) [OF assms(2,5)]])
  fix grant s1 c s2 s3 s4 ce
  assume a: "Get_Grant d req s = (Inr grant, s1)"
    "connectToDatabase d (om_Namespace (grant_ObjectMeta grant)) (gs_PostgresRef (grant_Spec grant))
       (gs_Database (grant_Spec grant)) s1 = (Inr c, s2)"
    "grant_apply d grant c s2 = (None, s3)"
    "(if \<not> ContainsFinalizer d (grant_ObjectMeta grant) FinalizerName then
       (case Update_Grant d (grant_add_finalizer d grant) s3 of
          (Inl err, s) \<Rightarrow> ((no_Result, Some err), s) | (Inr x', s) \<Rightarrow> grant_ready d x' s)
      else grant_ready d grant s3) = (r, s4)"
    "Close d c s4 = (ce, s')"
  from a(3) have "GrantPrivileges d c (grant_opts grant) s2 = (None, s3)"
    by (auto simp: grant_apply_def split: prod.splits option.splits)
  moreover have "view (conn c) (ext s') = view (conn c) (ext s3)"
    using a(4) isolated_calls(1) [OF assms(1) a(5), of "conn c"]
    by (auto split: if_splits prod.splits sum.splits
      dest!: isolated_calls(4) [OF assms(1), where c = "conn c"] ready_keeps(3) [OF assms(1), where c = "conn c"])
  ultimately show ?thesis using a(1,2) that by blast
qed

end
