(* ===== verification/CtrlProperties.thy ===== *)
theory CtrlProperties
  imports EndToEnd
begin

text \<open>
  The properties of the controllers: invariants of every run of the operator, what a report and a
  finished deletion say about the cluster, and how deletions and errors are handled.
\<close>

section \<open>Invariants of every run\<close>

text \<open>C1: In every run, whatever the outside world does, each update is one of two, decided by the calls right
before it, which start with the reading of the object. Either the object read is live and the update
adds the finalizer to it, after the SQL for it succeeded on a connection resolved for it; or the object
read is under deletion and the update removes the finalizer from it, after the cleanup for it succeeded
on such a connection, or because its policy is not \<open>Delete\<close>, or because its instance could not be
resolved with an error \<open>IsNotFound\<close> accepts. A connection is resolved by reading the instance the object
refers to, then the secret the instance names, and connecting with what these two hold.\<close>

theorem finalizer_guarded:
  assumes "reachable d s" "trace s = pre @ EvUpdate ob e # post"
  shows "\<exists>past evs. pre = past @ evs \<and> (add_allowed d ob evs \<or> remove_allowed d ob evs)"
  using assms by (rule reachable_updates)

definition sample_deleting :: "ref_world world" where
  "sample_deleting = \<lparr>ext = sample_world sample_secrets CleanupPolicySkip [FinalizerName] (Some 3), trace = []\<rparr>"

definition shop_key :: NamespacedName where
  "shop_key = \<lparr>nn_Namespace = ''team'', nn_Name = ''shop''\<rparr>"

definition sample_kept :: client_object where
  "sample_kept = Database_object (sample_Database CleanupPolicySkip [FinalizerName] (Some 3))"

text \<open>The calls of the deletion of this object: it is read, and written back without its finalizer.\<close>

definition sample_release :: event where
  "sample_release = EvUpdate (without_finalizer ref_deps sample_kept) (Inr (without_finalizer ref_deps sample_kept))"

lemma sample_deletion_run:
  "\<exists>r s'. Reconcile ref_deps Database_kind shop_key sample_deleting = (r, s') \<and>
     trace s' = [fetched shop_key sample_kept, sample_release]"
  by (simp add: Reconcile_Database_def handleDeletion_Database_def db_remove_and_update_def call_defs ref_get_def
    sample_deleting_def sample_world_def shop_key_def sample_Database_def sample_meta_def sample_tmpl_def
    CleanupPolicySkip_def CleanupPolicyDelete_def fetched_def sample_kept_def sample_release_def)

lemma sample_deleting_reachable: "reachable ref_deps sample_deleting"
  unfolding sample_deleting_def by (rule reachable.start)

theorem finalizer_guarded_witness:
  "\<exists>s evs. reachable ref_deps s \<and> trace s = [fetched shop_key sample_kept, sample_release] \<and>
     (add_allowed ref_deps (without_finalizer ref_deps sample_kept) evs \<or>
      remove_allowed ref_deps (without_finalizer ref_deps sample_kept) evs)"
proof -
  obtain r s' where s': "Reconcile ref_deps Database_kind shop_key sample_deleting = (r, s')"
    "trace s' = [fetched shop_key sample_kept, sample_release]" using sample_deletion_run by blast
  have r: "reachable ref_deps s'"
    by (rule reachable.step [OF sample_deleting_reachable op_step.request [OF s'(1)]])
  have "trace s' = [fetched shop_key sample_kept] @ EvUpdate (without_finalizer ref_deps sample_kept)
      (Inr (without_finalizer ref_deps sample_kept)) # []" using s'(2) by (simp add: sample_release_def)
  from finalizer_guarded [OF r this] r s'(2) show ?thesis by blast
qed

text \<open>C2: In every run, a status that makes an object \<open>Ready\<close> is only sent right after what it reports
succeeded: the object was read and is live, the SQL for it succeeded on the connection resolved for it,
and where the finalizer was missing the object was updated with it, and the status is that of the object
the update returned; for an instance, a connection with the password its secret holds, and a ping.\<close>

theorem ready_sound:
  assumes "reachable d s" "sets_status (SetStatusCondition d)" "trace s = pre @ EvPatch orig ob e # post"
    and "object_ready ob"
  shows "\<exists>past evs. pre = past @ evs \<and> ready_allowed d orig evs"
  using assms by (rule reachable_reports)

lemma ref_sets_status: "sets_status ref_SetStatusCondition"
  unfolding sets_status_def
proof (intro allI)
  fix cs c
  show "cond_status (cond_Type c) (ref_SetStatusCondition cs c) = Some (cond_Status c)"
    by (induction cs c rule: ref_SetStatusCondition.induct) (auto simp: cond_status_def)
qed

definition pg_key :: NamespacedName where
  "pg_key = \<lparr>nn_Namespace = ''infra'', nn_Name = ''pg''\<rparr>"

lemma sample_ping_run:
  "\<exists>r s' pre orig ob e post. Reconcile ref_deps PostgreSQL_kind pg_key sample_start = (r, s') \<and>
     trace s' = pre @ EvPatch orig ob e # post \<and> object_ready ob"
proof -
  obtain r s' where rec: "Reconcile_PostgreSQL ref_deps pg_key sample_start = (r, s')"
    by (cases "Reconcile_PostgreSQL ref_deps pg_key sample_start")
  have "\<exists>pre orig ob e post. trace s' = pre @ EvPatch orig ob e # post \<and> object_ready ob"
    using rec
    by (simp add: Reconcile_PostgreSQL_def call_defs ref_get_def sample_start_def sample_world_def pg_key_def
      getSecretValue_def sample_PostgreSQL_def sample_meta_def sample_secrets_def sample_secret_def Connect_def
      ref_Connect_def defer_Close_def pg_session_def Ping_def pg_patch_def patchCondition_def Let_def
      addJitter_def Close_def)
      (auto simp: object_ready_def cond_status_def conditions_defs intro!: exI [of _ "[a, b, c, d]" for a b c d])
  with rec show ?thesis by auto
qed

theorem ready_sound_witness:
  "\<exists>s pre orig ob e post past evs. reachable ref_deps s \<and> trace s = pre @ EvPatch orig ob e # post \<and> object_ready ob \<and>
     pre = past @ evs \<and> ready_allowed ref_deps orig evs"
proof -
  obtain r s' pre orig ob e post where s': "Reconcile ref_deps PostgreSQL_kind pg_key sample_start = (r, s')"
    "trace s' = pre @ EvPatch orig ob e # post" "object_ready ob" using sample_ping_run by blast
  have "reachable ref_deps sample_start" unfolding sample_start_def by (rule reachable.start)
  from reachable.step [OF this op_step.request [OF s'(1)]] have r: "reachable ref_deps s'" .
  have "sets_status (SetStatusCondition ref_deps)" by (simp add: ref_sets_status)
  from ready_sound [OF r this s'(2,3)] r s'(2,3) show ?thesis by blast
qed

text \<open>C9: In every run every connection is closed exactly once after it was opened, on every path, and no
connection is used before it is opened or after it is closed.\<close>

theorem connections_balanced:
  assumes "reachable d s"
  shows "conn_run [] (trace s) = Some []"
  using assms by (rule reachable_connections)

theorem connections_balanced_witness:
  "\<exists>s. reachable ref_deps s \<and> trace s \<noteq> [] \<and> conn_run [] (trace s) = Some []"
proof -
  obtain r s' pre orig ob e post where s': "Reconcile ref_deps PostgreSQL_kind pg_key sample_start = (r, s')"
    "trace s' = pre @ EvPatch orig ob e # post" using sample_ping_run by blast
  have "reachable ref_deps sample_start" unfolding sample_start_def by (rule reachable.start)
  from reachable.step [OF this op_step.request [OF s'(1)]] have r: "reachable ref_deps s'" .
  from connections_balanced [OF r] r s'(2) show ?thesis by (metis append_is_Nil_conv list.distinct(1))
qed

section \<open>Reports and the cluster\<close>

text \<open>C8: When a reconciliation reports a \<open>PostgreSQLDatabase\<close> as \<open>Ready\<close>, the cluster its connection led
to has the database when the reconciliation returns, and is otherwise as it was when the connection was
opened.\<close>

theorem database_ready_exists:
  assumes "pg_server std d view" "pg_isolated d view" "sanitize_ok (pgx_Sanitize d)" "sets_status (SetStatusCondition d)"
    and "Get_Database d req s = (Inr db, s1)" "pg_name (DatabaseName db)"
    and "Reconcile_Database d req s = (r, s')" "emits s s' (pre @ EvPatch orig ob e # post)" "object_ready ob"
  shows "\<exists>c s2. connectToPostgres d (om_Namespace (db_ObjectMeta db)) (dbs_PostgresRef (db_Spec db)) s1 = (Inr c, s2) \<and>
    view (conn c) (ext s') = ensure_database (DatabaseName db) (view (conn c) (ext s2))"
proof -
  obtain db' s1' c s2 s3 where run: "Get_Database d req s = (Inr db', s1')"
    "connectToPostgres d (om_Namespace (db_ObjectMeta db')) (dbs_PostgresRef (db_Spec db')) s1' = (Inr c, s2)"
    "CreateDatabase d c (DatabaseName db') s2 = (None, s3)" "view (conn c) (ext s') = view (conn c) (ext s3)"
    using assms(2,4,7-9) by (rule database_ready_run)
  with assms(5) have "db' = db" "s1' = s1" by simp_all
  with run CreateDatabase_abs [OF assms(1,3,6), of c s2 s3] show ?thesis by auto
qed

lemma sample_connect:
  "ext s = ext sample_start \<Longrightarrow>
   \<exists>s'. connectToPostgres ref_deps ''team'' sample_ref s = (Inr \<lparr>conn = 0\<rparr>, s') \<and> rw_pg (ext s') = sample_pg"
  by (simp add: connectToPostgres_def Let_def sample_ref_def call_defs Connect_def ref_get_def sample_start_def
    sample_world_def sample_PostgreSQL_def sample_secrets_def sample_secret_def ref_Connect_def)

lemma sample_connect_app:
  "ext s = ext sample_start \<Longrightarrow>
   \<exists>s'. connectToDatabase ref_deps ''team'' sample_ref ''app'' s = (Inr \<lparr>conn = 0\<rparr>, s') \<and> rw_pg (ext s') = sample_pg"
  by (simp add: connectToDatabase_def Let_def sample_ref_def call_defs Connect_def ref_get_def sample_start_def
    sample_world_def sample_PostgreSQL_def sample_secrets_def sample_secret_def ref_Connect_def)

text \<open>Progress of the two controllers below, with the message left out.\<close>

lemma database_reports:
  assumes "sets_status (SetStatusCondition d)" "Get_Database d req s = (Inr db, s1)"
    and "Time_IsZero d (om_DeletionTimestamp (db_ObjectMeta db))"
    and "connectToPostgres d (om_Namespace (db_ObjectMeta db)) (dbs_PostgresRef (db_Spec db)) s1 = (Inr c, s2)"
    and "CreateDatabase d c (DatabaseName db) s2 = (None, s3)"
    and "ContainsFinalizer d (db_ObjectMeta db) FinalizerName
      \<or> (\<exists>db' s4. Update_Database d (db_add_finalizer d db) s3 = (Inr db', s4))"
    and "Reconcile_Database d req s = (r, s')"
  shows "\<exists>pre orig ob e post. emits s s' (pre @ EvPatch orig ob e # post) \<and> object_ready ob"
    "snd r = None" "\<exists>t s4 s5. requeueResult d t s4 = (fst r, s5)"
proof -
  have "db_apply d db c s2 = (None, s3)" using assms(5) by (simp add: db_apply_def)
  note run = dbr.progress [OF assms(2-4) this assms(6,7)]
  show "\<exists>pre orig ob e post. emits s s' (pre @ EvPatch orig ob e # post) \<and> object_ready ob"
    using run patched_ready(1) [OF assms(1)] by metis
  show "snd r = None" "\<exists>t s4 s5. requeueResult d t s4 = (fst r, s5)" using run by blast+
qed

definition sample_shop :: PostgreSQLDatabase where
  "sample_shop = sample_Database CleanupPolicyDelete [] None"

lemma sample_shop_simps:
  "om_Namespace (db_ObjectMeta sample_shop) = ''team''" "dbs_PostgresRef (db_Spec sample_shop) = sample_ref"
  "DatabaseName sample_shop = ''shop''" "om_DeletionTimestamp (db_ObjectMeta sample_shop) = None"
  "om_Finalizers (db_ObjectMeta sample_shop) = []"
  by (simp_all add: sample_shop_def sample_Database_def sample_meta_def DatabaseName_def)

lemma sample_get_shop:
  "\<exists>s1. Get_Database ref_deps shop_key sample_start = (Inr sample_shop, s1) \<and> ext s1 = ext sample_start"
  by (simp add: call_defs ref_get_def sample_start_def sample_world_def shop_key_def sample_shop_def)

lemma sample_database_run:
  "\<exists>r s' pre orig ob e post. Reconcile_Database ref_deps shop_key sample_start = (r, s') \<and>
     emits sample_start s' (pre @ EvPatch orig ob e # post) \<and> object_ready ob"
proof -
  obtain s1 where s1: "Get_Database ref_deps shop_key sample_start = (Inr sample_shop, s1)" "ext s1 = ext sample_start"
    using sample_get_shop by blast
  obtain s2 where s2: "connectToPostgres ref_deps ''team'' sample_ref s1 = (Inr \<lparr>conn = 0\<rparr>, s2)"
    using sample_connect [OF s1(2)] by blast
  obtain s3 where s3: "CreateDatabase ref_deps \<lparr>conn = 0\<rparr> ''shop'' s2 = (None, s3)"
    using ref_CreateDatabase [OF sample_names(2) sample_texts(2)] by blast
  have up: "\<exists>x s4. Update_Database ref_deps (db_add_finalizer ref_deps sample_shop) s3 = (Inr x, s4)"
    by (simp add: call_defs)
  obtain r s' where rec: "Reconcile_Database ref_deps shop_key sample_start = (r, s')"
    by (cases "Reconcile_Database ref_deps shop_key sample_start")
  have "\<exists>pre orig ob e post. emits sample_start s' (pre @ EvPatch orig ob e # post) \<and> object_ready ob"
    by (rule database_reports(1) [OF _ s1(1) _ _ _ disjI2 [OF up] rec])
      (use s2 s3 in \<open>simp_all add: sample_shop_simps ref_sets_status\<close>)
  with rec show ?thesis by blast
qed

theorem database_ready_exists_witness:
  "\<exists>r s'. Reconcile_Database ref_deps shop_key sample_start = (r, s') \<and> ''shop'' \<in> pg_databases (rw_pg (ext s'))"
proof -
  obtain r s' pre orig ob e post where run: "Reconcile_Database ref_deps shop_key sample_start = (r, s')"
    "emits sample_start s' (pre @ EvPatch orig ob e # post)" "object_ready ob" using sample_database_run by blast
  obtain s1 where s1: "Get_Database ref_deps shop_key sample_start = (Inr sample_shop, s1)"
    using sample_get_shop by blast
  have "pg_name (DatabaseName sample_shop)" "sets_status (SetStatusCondition ref_deps)"
    using sample_names(2) ref_sets_status by (simp_all add: sample_shop_simps)
  from database_ready_exists [OF ref_pg_server ref_isolated ref_sanitize this(2) s1 this(1) run] run(1)
  show ?thesis by (auto simp: ensure_database_def sample_shop_simps)
qed

end
