(* ===== verification/ReadyProperties.thy ===== *)
theory ReadyProperties
  imports CtrlProperties
begin

text \<open>
  The properties of reports on roles and grants, and of progress: what the cluster holds when a
  controller reports \<open>Ready\<close>, and that a reconciliation whose calls succeed does report it.
\<close>

section \<open>Progress\<close>

text \<open>When the object is there and not under deletion, its instance can be connected to,
\<open>CreateDatabase\<close> succeeds and, where the finalizer is missing, the update of the object succeeds,
then the reconciliation sends a status that makes the object \<open>Ready\<close>, returns no error, and asks to be
called again after a requeue interval.\<close>

theorem database_progress:
  assumes "sets_status (SetStatusCondition d)" "Get_Database d req s = (Inr db, s1)"
    and "Time_IsZero d (om_DeletionTimestamp (db_ObjectMeta db))"
    and "connectToPostgres d (om_Namespace (db_ObjectMeta db)) (dbs_PostgresRef (db_Spec db)) s1 = (Inr c, s2)"
    and "CreateDatabase d c (DatabaseName db) s2 = (None, s3)"
    and "ContainsFinalizer d (db_ObjectMeta db) FinalizerName
      \<or> (\<exists>db' s4. Update_Database d (db_add_finalizer d db) s3 = (Inr db', s4))"
    and "Reconcile_Database d req s = (r, s')"
  shows "(\<exists>pre orig ob e post. emits s s' (pre @ EvPatch orig ob e # post) \<and> object_ready ob) \<and> snd r = None \<and>
    (\<exists>t s4 s5. requeueResult d t s4 = (fst r, s5))"
  using database_reports [OF assms] by blast

theorem database_progress_witness:
  "\<exists>r s' pre orig ob e post. Reconcile_Database ref_deps shop_key sample_start = (r, s') \<and>
     emits sample_start s' (pre @ EvPatch orig ob e # post) \<and> object_ready ob \<and> snd r = None"
proof -
  obtain s1 where s1: "Get_Database ref_deps shop_key sample_start = (Inr sample_shop, s1)" "ext s1 = ext sample_start"
    using sample_get_shop by blast
  obtain s2 where s2: "connectToPostgres ref_deps ''team'' sample_ref s1 = (Inr \<lparr>conn = 0\<rparr>, s2)"
    using sample_connect [OF s1(2)] by blast
  obtain s3 where s3: "CreateDatabase ref_deps \<lparr>conn = 0\<rparr> ''shop'' s2 = (None, s3)"
    using ref_CreateDatabase [OF sample_names(2) sample_texts(2)] by blast
  have up: "\<exists>x s4. Update_Database ref_deps (db_add_finalizer ref_deps sample_shop) s3 = (Inr x, s4)"
    by (simp add: call_defs)
  obtain r s' where rec: "Reconcile_Database ref_deps shop_key sample_start = (r, s')"
    by (cases "Reconcile_Database ref_deps shop_key sample_start")
  have "(\<exists>pre orig ob e post. emits sample_start s' (pre @ EvPatch orig ob e # post) \<and> object_ready ob) \<and>
      snd r = None \<and> (\<exists>t s4 s5. requeueResult ref_deps t s4 = (fst r, s5))"
    by (rule database_progress [OF _ s1(1) _ _ _ disjI2 [OF up] rec])
      (use s2 s3 in \<open>simp_all add: sample_shop_simps ref_sets_status\<close>)
  with rec show ?thesis by blast
qed

section \<open>Reports on roles and grants\<close>

text \<open>C10: When a reconciliation reports a \<open>PostgreSQLUser\<close> as \<open>Ready\<close>, the password was read from the
Secret in the namespace of the user, and the cluster has a login role of that name whose password is
what the server reads that password's literal as; nothing else of the cluster changed.\<close>

theorem user_ready_role:
  assumes "pg_server std d view" "pg_isolated d view" "sanitize_ok (pgx_Sanitize d)" "sets_status (SetStatusCondition d)"
    and "Get_User d req s = (Inr user, s1)" "pg_name (RoleName user)"
    and "Reconcile_User d req s = (r, s')" "emits s s' (pre @ EvPatch orig ob e # post)" "object_ready ob"
  shows "\<exists>c s2 password s3.
    connectToPostgres d (om_Namespace (user_ObjectMeta user)) (us_PostgresRef (user_Spec user)) s1 = (Inr c, s2) \<and>
    getSecretValue d (om_Namespace (user_ObjectMeta user)) (us_PasswordSecretKeyRef (user_Spec user)) s2 = (Inr password, s3) \<and>
    view (conn c) (ext s') = ensure_role (RoleName user) (stored_value std password) (view (conn c) (ext s3))"
proof -
  obtain user' s1' c s2 password s3 s4 where run: "Get_User d req s = (Inr user', s1')"
    "connectToPostgres d (om_Namespace (user_ObjectMeta user')) (us_PostgresRef (user_Spec user')) s1' = (Inr c, s2)"
    "getSecretValue d (om_Namespace (user_ObjectMeta user')) (us_PasswordSecretKeyRef (user_Spec user')) s2 = (Inr password, s3)"
    "CreateOrUpdateRole d c (RoleName user') password s3 = (None, s4)" "view (conn c) (ext s') = view (conn c) (ext s4)"
    using assms(2,4,7-9) by (rule user_ready_run)
  with assms(5) have "user' = user" "s1' = s1" by simp_all
  with run CreateOrUpdateRole_abs [OF assms(1,3,6), of c password s3 s4] show ?thesis by auto
qed

definition bob_key :: NamespacedName where
  "bob_key = \<lparr>nn_Namespace = ''team'', nn_Name = ''bob''\<rparr>"

definition sample_bob :: PostgreSQLUser where
  "sample_bob = sample_User CleanupPolicyDelete [] None"

lemma sample_bob_simps:
  "om_Namespace (user_ObjectMeta sample_bob) = ''team''" "us_PostgresRef (user_Spec sample_bob) = sample_ref"
  "RoleName sample_bob = ''bob''" "om_DeletionTimestamp (user_ObjectMeta sample_bob) = None"
  "om_Finalizers (user_ObjectMeta sample_bob) = []"
  "us_PasswordSecretKeyRef (user_Spec sample_bob) = \<lparr>skr_Name = ''bob'', skr_Key = ''password''\<rparr>"
  by (simp_all add: sample_bob_def sample_User_def sample_meta_def RoleName_def)

lemma sample_bob_run:
  "\<exists>s1 r s' pre orig ob e post. Get_User ref_deps bob_key sample_start = (Inr sample_bob, s1) \<and>
     Reconcile_User ref_deps bob_key sample_start = (r, s') \<and>
     emits sample_start s' (pre @ EvPatch orig ob e # post) \<and> object_ready ob \<and>
     (\<exists>c s2 s3. connectToPostgres ref_deps ''team'' sample_ref s1 = (Inr c, s2) \<and>
        getSecretValue ref_deps ''team'' \<lparr>skr_Name = ''bob'', skr_Key = ''password''\<rparr> s2 = (Inr ''secret'', s3))"
proof -
  obtain s1 where s1: "Get_User ref_deps bob_key sample_start = (Inr sample_bob, s1)" "ext s1 = ext sample_start"
    by (simp add: call_defs ref_get_def sample_start_def sample_world_def bob_key_def sample_bob_def)
  obtain s2 where s2: "connectToPostgres ref_deps ''team'' sample_ref s1 = (Inr \<lparr>conn = 0\<rparr>, s2)"
    "rw_Secret (ext s2) = sample_secrets"
    using s1(2) by (simp add: connectToPostgres_def Let_def sample_ref_def call_defs Connect_def ref_get_def
      sample_start_def sample_world_def sample_PostgreSQL_def sample_secrets_def sample_secret_def ref_Connect_def)
  obtain s3 where s3: "getSecretValue ref_deps ''team'' \<lparr>skr_Name = ''bob'', skr_Key = ''password''\<rparr> s2 = (Inr ''secret'', s3)"
    using s2(2) by (simp add: getSecretValue_def call_defs ref_get_def sample_secrets_def sample_secret_def)
  obtain s4 where s4: "CreateOrUpdateRole ref_deps \<lparr>conn = 0\<rparr> ''bob'' ''secret'' s3 = (None, s4)"
    using ref_CreateOrUpdateRole [OF sample_names(4) sample_texts(4,5)] by blast
  have ap: "user_apply ref_deps sample_bob \<lparr>conn = 0\<rparr> s2 = (None, s4)"
    using s3 s4 by (simp add: user_apply_def sample_bob_simps)
  have up: "\<exists>x s5. Update_User ref_deps (user_add_finalizer ref_deps sample_bob) s4 = (Inr x, s5)"
    by (simp add: call_defs)
  obtain r s' where rec: "Reconcile_User ref_deps bob_key sample_start = (r, s')"
    by (cases "Reconcile_User ref_deps bob_key sample_start")
  have t: "Time_IsZero ref_deps (om_DeletionTimestamp (user_ObjectMeta sample_bob))" by (simp add: sample_bob_simps)
  have c: "connectToPostgres ref_deps (om_Namespace (user_ObjectMeta sample_bob)) (us_PostgresRef (user_Spec sample_bob)) s1
      = (Inr \<lparr>conn = 0\<rparr>, s2)" using s2(1) by (simp add: sample_bob_simps)
  have "sets_status (SetStatusCondition ref_deps)" by (simp add: ref_sets_status)
  then have "\<exists>pre orig ob e post. emits sample_start s' (pre @ EvPatch orig ob e # post) \<and> object_ready ob"
    using ur.progress [OF s1(1) t c ap disjI2 [OF up] rec] patched_ready(2) by metis
  with s1(1) rec s2(1) s3 show ?thesis by blast
qed

theorem user_ready_role_witness:
  "\<exists>r s'. Reconcile_User ref_deps bob_key sample_start = (r, s') \<and> pg_roles (rw_pg (ext s')) ''bob'' = Some (True, ''secret'')"
proof -
  obtain s1 r s' pre orig ob e post c s2 s3 where run: "Get_User ref_deps bob_key sample_start = (Inr sample_bob, s1)"
    "Reconcile_User ref_deps bob_key sample_start = (r, s')" "emits sample_start s' (pre @ EvPatch orig ob e # post)"
    "object_ready ob" "connectToPostgres ref_deps ''team'' sample_ref s1 = (Inr c, s2)"
    "getSecretValue ref_deps ''team'' \<lparr>skr_Name = ''bob'', skr_Key = ''password''\<rparr> s2 = (Inr ''secret'', s3)"
    using sample_bob_run by blast
  have "pg_name (RoleName sample_bob)" "sets_status (SetStatusCondition ref_deps)"
    using sample_names(4) ref_sets_status by (simp_all add: sample_bob_simps)
  from user_ready_role [OF ref_pg_server ref_isolated ref_sanitize this(2) run(1) this(1) run(2-4)] run(2,5,6)
  show ?thesis by (auto simp: ensure_role_def sample_bob_simps stored_value_def backslash_def)
qed

text \<open>C11: When a reconciliation reports a \<open>PostgreSQLGrant\<close> as \<open>Ready\<close>, the database it connected to holds,
beside what it held when the connection was opened, the privileges of the grant on the database, on
the tables of the schema, for future tables of the schema, and \<open>CREATE\<close> and \<open>USAGE\<close> on the schema.\<close>

theorem grant_ready_granted:
  assumes "pg_server std d view" "pg_isolated d view" "sanitize_ok (pgx_Sanitize d)" "sets_status (SetStatusCondition d)"
    and "Get_Grant d req s = (Inr grant, s1)" "good_opts ps (grant_opts grant)"
    and "Reconcile_Grant d req s = (r, s')" "emits s s' (pre @ EvPatch orig ob e # post)" "object_ready ob"
  shows "\<exists>c s2. connectToDatabase d (om_Namespace (grant_ObjectMeta grant)) (gs_PostgresRef (grant_Spec grant))
      (gs_Database (grant_Spec grant)) s1 = (Inr c, s2) \<and>
    view (conn c) (ext s') = (view (conn c) (ext s2))\<lparr>pg_acl := pg_acl (view (conn c) (ext s2))
      \<union> granted_entries (grant_opts grant) (view (conn c) (ext s2)) \<union> {usage_entry (grant_opts grant)}\<rparr>"
proof -
  obtain grant' s1' c s2 s3 where run: "Get_Grant d req s = (Inr grant', s1')"
    "connectToDatabase d (om_Namespace (grant_ObjectMeta grant')) (gs_PostgresRef (grant_Spec grant'))
       (gs_Database (grant_Spec grant')) s1' = (Inr c, s2)"
    "GrantPrivileges d c (grant_opts grant') s2 = (None, s3)" "view (conn c) (ext s') = view (conn c) (ext s3)"
    using assms(2,4,7-9) by (rule grant_ready_run)
  with assms(5) have eq: "grant' = grant" "s1' = s1" by simp_all
  have "ps \<noteq> []" using assms(6) by (auto simp: good_opts_def privileges_ok_def)
  with grant_effect(2) [OF GrantPrivileges_abs [OF assms(1,3,6) run(3) [unfolded eq]]] run eq
  show ?thesis by auto
qed

definition grant_key :: NamespacedName where
  "grant_key = \<lparr>nn_Namespace = ''team'', nn_Name = ''alice-app''\<rparr>"

definition sample_alice :: PostgreSQLGrant where
  "sample_alice = sample_Grant CleanupPolicyDelete [] None"

lemma sample_alice_simps:
  "om_Namespace (grant_ObjectMeta sample_alice) = ''team''" "gs_PostgresRef (grant_Spec sample_alice) = sample_ref"
  "gs_Database (grant_Spec sample_alice) = ''app''" "om_DeletionTimestamp (grant_ObjectMeta sample_alice) = None"
  "grant_opts sample_alice = sample_opts"
  by (simp_all add: sample_alice_def sample_Grant_def sample_meta_def grant_opts_def sample_opts_def)

lemma sample_alice_run:
  "\<exists>s1 r s' pre orig ob e post c s2. Get_Grant ref_deps grant_key sample_start = (Inr sample_alice, s1) \<and>
     Reconcile_Grant ref_deps grant_key sample_start = (r, s') \<and>
     emits sample_start s' (pre @ EvPatch orig ob e # post) \<and> object_ready ob \<and>
     connectToDatabase ref_deps ''team'' sample_ref ''app'' s1 = (Inr c, s2) \<and> rw_pg (ext s2) = sample_pg"
proof -
  obtain s1 where s1: "Get_Grant ref_deps grant_key sample_start = (Inr sample_alice, s1)" "ext s1 = ext sample_start"
    by (simp add: call_defs ref_get_def sample_start_def sample_world_def grant_key_def sample_alice_def)
  obtain s2 where s2: "connectToDatabase ref_deps ''team'' sample_ref ''app'' s1 = (Inr \<lparr>conn = 0\<rparr>, s2)"
    "rw_pg (ext s2) = sample_pg" using sample_connect_app [OF s1(2)] by blast
  have "all_privileges [[''ALL'', ''PRIVILEGES'']]" by (rule sample_all)
  with ref_GrantPrivileges [OF sample_good sample_texts(7)] sample_grantable s2(2) obtain s3
    where s3: "GrantPrivileges ref_deps \<lparr>conn = 0\<rparr> sample_opts s2 = (None, s3)" by force
  have ap: "grant_apply ref_deps sample_alice \<lparr>conn = 0\<rparr> s2 = (None, s3)"
    using s3 by (simp add: grant_apply_def sample_alice_simps)
  have up: "\<exists>x s5. Update_Grant ref_deps (grant_add_finalizer ref_deps sample_alice) s3 = (Inr x, s5)"
    by (simp add: call_defs)
  obtain r s' where rec: "Reconcile_Grant ref_deps grant_key sample_start = (r, s')"
    by (cases "Reconcile_Grant ref_deps grant_key sample_start")
  have t: "Time_IsZero ref_deps (om_DeletionTimestamp (grant_ObjectMeta sample_alice))" by (simp add: sample_alice_simps)
  have c: "connectToDatabase ref_deps (om_Namespace (grant_ObjectMeta sample_alice)) (gs_PostgresRef (grant_Spec sample_alice))
      (gs_Database (grant_Spec sample_alice)) s1 = (Inr \<lparr>conn = 0\<rparr>, s2)" using s2(1) by (simp add: sample_alice_simps)
  have "sets_status (SetStatusCondition ref_deps)" by (simp add: ref_sets_status)
  then have "\<exists>pre orig ob e post. emits sample_start s' (pre @ EvPatch orig ob e # post) \<and> object_ready ob"
    using gr.progress [OF s1(1) t c ap disjI2 [OF up] rec] patched_ready(3) by metis
  with s1(1) rec s2 show ?thesis by blast
qed

theorem grant_ready_granted_witness:
  "\<exists>r s'. Reconcile_Grant ref_deps grant_key sample_start = (r, s') \<and>
     (''CONNECT'', ADatabase ''app'', ''alice'') \<in> pg_acl (rw_pg (ext s'))"
proof -
  obtain s1 r s' pre orig ob e post c s2 where run: "Get_Grant ref_deps grant_key sample_start = (Inr sample_alice, s1)"
    "Reconcile_Grant ref_deps grant_key sample_start = (r, s')" "emits sample_start s' (pre @ EvPatch orig ob e # post)"
    "object_ready ob" "connectToDatabase ref_deps ''team'' sample_ref ''app'' s1 = (Inr c, s2)" "rw_pg (ext s2) = sample_pg"
    using sample_alice_run by blast
  have "good_opts [[''ALL'', ''PRIVILEGES'']] (grant_opts sample_alice)" "sets_status (SetStatusCondition ref_deps)"
    using sample_good ref_sets_status by (simp_all add: sample_alice_simps)
  from grant_ready_granted [OF ref_pg_server ref_isolated ref_sanitize this(2) run(1) this(1) run(2-4)] run(2,5,6)
  show ?thesis
    by (auto simp: sample_alice_simps granted_entries_def acl_entries_def database_privileges_def sample_opts_def)
qed

end
