(* ===== verification/DeletionProperties.thy ===== *)
theory DeletionProperties
  imports CtrlProperties
begin

text \<open>
  The properties of deletions, of failures and of progress: what a finished deletion says about the
  cluster, when nothing is touched, what is retried and when, which errors reach the work queue, and
  that a reconciliation whose calls succeed reports \<open>Ready\<close>.
\<close>

section \<open>Errors\<close>

text \<open>C28: A reconciliation returns an error to the work queue in two cases only, and with an empty
result: the object could not be read, with an error \<open>IsNotFound\<close> rejects, and nothing else was
called; or the update of its finalizers failed. Every other failure is handled by a requeue.\<close>

theorem errors_to_queue:
  assumes "Reconcile d k req s = (r, s')" "emits s s' evs" "snd r = Some e"
  shows "fst r = no_Result \<and>
    (evs = [EvGet k req (Inl e)] \<and> \<not> IsNotFound d e \<or> (\<exists>ob. EvUpdate ob (Inl e) \<in> set evs))"
  using Reconcile_errors [OF assms] by auto

definition timed_out :: gerror where
  "timed_out = StatusError ''Timeout'' ''the server did not answer''"

definition api_down :: "ref_world deps" where
  "api_down = ref_deps\<lparr>k8s_Get_User := \<lambda>key w. (Inl timed_out, w)\<rparr>"

theorem errors_to_queue_witness:
  "\<exists>r s'. Reconcile api_down User_kind \<lparr>nn_Namespace = ''team'', nn_Name = ''bob''\<rparr> sample_start = (r, s') \<and>
     fst r = no_Result \<and> snd r = Some timed_out"
proof -
  let ?key = "\<lparr>nn_Namespace = ''team'', nn_Name = ''bob''\<rparr>"
  have "\<exists>s'. Reconcile api_down User_kind ?key sample_start = ((no_Result, Some timed_out), s') \<and>
      emits sample_start s' [EvGet User_kind ?key (Inl timed_out)]"
    by (simp add: Reconcile_User_def call_defs api_down_def timed_out_def emits_def)
  then obtain s' where s': "Reconcile api_down User_kind ?key sample_start = ((no_Result, Some timed_out), s')"
    "emits sample_start s' [EvGet User_kind ?key (Inl timed_out)]" by blast
  from errors_to_queue [OF s', of timed_out] s'(1) show ?thesis by auto
qed

section \<open>Deletions that leave the cluster alone\<close>

text \<open>C29: A deletion under any policy but \<open>Delete\<close> makes no call to PostgreSQL and reads nothing: at most
the object is updated, without its finalizer.\<close>

theorem skip_policy_offline:
  assumes "handleDeletion d ob s = (r, s')" "emits s s' evs" "cleanup_policy ob \<noteq> CleanupPolicyDelete"
  shows "(evs = [] \<or> (\<exists>e. evs = [EvUpdate (without_finalizer d ob) e])) \<and> list_all (\<lambda>ev. \<not> is_pg ev) evs"
  using handleDeletion_offline [OF assms] by auto

theorem skip_policy_offline_witness:
  "\<exists>r s' evs. handleDeletion ref_deps (Database_object (sample_Database CleanupPolicySkip [FinalizerName] (Some 3))) sample_start = (r, s') \<and>
     emits sample_start s' evs \<and> evs \<noteq> [] \<and> list_all (\<lambda>ev. \<not> is_pg ev) evs"
proof -
  let ?db = "sample_Database CleanupPolicySkip [FinalizerName] (Some 3)"
  have "\<exists>r s' ev. handleDeletion ref_deps (Database_object ?db) sample_start = (r, s') \<and> emits sample_start s' [ev]"
    by (simp add: handleDeletion_Database_def db_remove_and_update_def call_defs sample_Database_def sample_meta_def
      sample_tmpl_def CleanupPolicySkip_def CleanupPolicyDelete_def emits_def)
  then obtain r s' ev where run: "handleDeletion ref_deps (Database_object ?db) sample_start = (r, s')" "emits sample_start s' [ev]"
    by blast
  have "cleanup_policy (Database_object ?db) \<noteq> CleanupPolicyDelete"
    by (simp add: sample_Database_def sample_tmpl_def CleanupPolicySkip_def CleanupPolicyDelete_def)
  from skip_policy_offline [OF run this] run show ?thesis by blast
qed

text \<open>C30: The deletion of an object with the finalizer ends in one of two ways. Either it sends exactly one
update, of the object without the finalizer, and returns the error of that update, if it has one, and asks
for no retry of its own; or it sends no update, so that the finalizer stays, returns no error and asks to
be tried again after exactly five seconds, without jitter and whatever retry interval the object asks for.\<close>

theorem deletion_retried:
  assumes "handleDeletion d ob s = (r, s')" "emits s s' evs" "ContainsFinalizer d (object_meta ob) FinalizerName"
    and "\<forall>pg. ob \<noteq> PostgreSQL_object pg"
  shows "(\<exists>pre e post. evs = pre @ EvUpdate (without_finalizer d ob) e # post \<and>
       list_all (\<lambda>ev. \<not> is_update ev) (pre @ post) \<and> r = (no_Result, left_of e)) \<or>
    list_all (\<lambda>ev. \<not> is_update ev) evs \<and> snd r = None \<and> sint (RequeueAfter (fst r)) = 5000000000"
  using handleDeletion_ends [OF assms] by (elim disjE) (blast, simp add: interval_values)

definition pg_api_down :: "ref_world deps" where
  "pg_api_down = ref_deps\<lparr>k8s_Get_PostgreSQL := \<lambda>key w. (Inl timed_out, w)\<rparr>"

theorem deletion_retried_witness:
  "\<exists>r s'. handleDeletion pg_api_down (Grant_object (sample_Grant CleanupPolicyDelete [FinalizerName] (Some 3))) sample_start = (r, s') \<and>
     snd r = None \<and> sint (RequeueAfter (fst r)) = 5000000000"
proof -
  let ?ob = "Grant_object (sample_Grant CleanupPolicyDelete [FinalizerName] (Some 3))"
  have "\<exists>r s' key. handleDeletion pg_api_down ?ob sample_start = (r, s') \<and>
      emits sample_start s' [EvGet PostgreSQL_kind key (Inl timed_out)]"
    by (simp add: handleDeletion_Grant_def connectToDatabase_def Let_def call_defs sample_Grant_def sample_meta_def
      sample_tmpl_def pg_api_down_def timed_out_def emits_def)
  then obtain r s' key where run: "handleDeletion pg_api_down ?ob sample_start = (r, s')"
    "emits sample_start s' [EvGet PostgreSQL_kind key (Inl timed_out)]" by blast
  have "ContainsFinalizer pg_api_down (object_meta ?ob) FinalizerName"
    by (simp add: pg_api_down_def sample_Grant_def sample_meta_def)
  from deletion_retried [OF run this] run(1) show ?thesis by (auto simp: Cons_eq_append_conv)
qed

text \<open>C31: The finalizer of a database under deletion with the policy \<open>Delete\<close> is removed without dropping the
database when the instance is there but the Secret with its superuser's password is not: the error of
that read passes \<open>IsNotFound\<close> through its wrapping just as the one for a missing instance does. After
the two reads the update is the only call.\<close>

theorem missing_secret_skips_cleanup:
  assumes "\<forall>prefix e. IsNotFound d (Wrapped prefix e) = IsNotFound d e"
    and "ContainsFinalizer d (db_ObjectMeta db) FinalizerName"
    and "CleanupPolicy (dbs_SQLTemplate (db_Spec db)) = CleanupPolicyDelete"
    and "pgNS = (if ref_Namespace (dbs_PostgresRef (db_Spec db)) = [] then om_Namespace (db_ObjectMeta db)
           else ref_Namespace (dbs_PostgresRef (db_Spec db)))"
    and "Get_PostgreSQL d \<lparr>nn_Namespace = pgNS, nn_Name = ref_Name (dbs_PostgresRef (db_Spec db))\<rparr> s = (Inr pg, s1)"
    and "Get_Secret d \<lparr>nn_Namespace = pgNS, nn_Name = skr_Name (pgs_SuperuserSecretKeyRef (pg_Spec pg))\<rparr> s1 = (Inl err, s2)"
    and "IsNotFound d err" "handleDeletion_Database d db s = (r, s')"
  shows "\<exists>e. emits s2 s' [EvUpdate (Database_object (db_remove_finalizer d db)) e] \<and> r = (no_Result, left_of e)"
proof -
  have "connectToPostgres d (om_Namespace (db_ObjectMeta db)) (dbs_PostgresRef (db_Spec db)) s
      = (Inl (Wrapped ''getting superuser secret: '' err), s2)"
    using assms(5,6) unfolding assms(4) by (simp add: connectToPostgres_def Let_def)
  with assms(1-3,7,8) have "db_remove_and_update d db s2 = (r, s')"
    by (simp add: handleDeletion_Database_def)
  then show ?thesis by (blast elim: dbr.remove_and_update_emits)
qed

definition sample_doomed :: PostgreSQLDatabase where
  "sample_doomed = sample_Database CleanupPolicyDelete [FinalizerName] (Some 3)"

lemma sample_doomed_simps:
  "dbs_PostgresRef (db_Spec sample_doomed) = sample_ref" "om_Finalizers (db_ObjectMeta sample_doomed) = [FinalizerName]"
  "om_Namespace (db_ObjectMeta sample_doomed) = ''team''" "DatabaseName sample_doomed = ''shop''"
  "CleanupPolicy (dbs_SQLTemplate (db_Spec sample_doomed)) = CleanupPolicyDelete"
  by (simp_all add: sample_doomed_def sample_Database_def sample_meta_def sample_tmpl_def DatabaseName_def)

theorem missing_secret_skips_cleanup_witness:
  "\<exists>s2 r s' e. handleDeletion_Database ref_deps sample_doomed
       \<lparr>ext = sample_world Map.empty CleanupPolicyDelete [FinalizerName] (Some 3), trace = []\<rparr> = (r, s') \<and>
     emits s2 s' [EvUpdate (Database_object (db_remove_finalizer ref_deps sample_doomed)) e]"
proof -
  let ?s = "\<lparr>ext = sample_world Map.empty CleanupPolicyDelete [FinalizerName] (Some 3), trace = []\<rparr>"
  let ?key = "\<lparr>nn_Namespace = ''infra'', nn_Name = ''pg''\<rparr>"
  obtain s1 where s1: "Get_PostgreSQL ref_deps ?key ?s = (Inr sample_PostgreSQL, s1)" "ext s1 = ext ?s"
    by (simp add: call_defs ref_get_def sample_world_def)
  obtain s2 where s2: "Get_Secret ref_deps ?key s1 = (Inl not_found, s2)"
    using s1(2) by (simp add: call_defs ref_get_def sample_world_def)
  obtain r s' where run: "handleDeletion_Database ref_deps sample_doomed ?s = (r, s')"
    by (cases "handleDeletion_Database ref_deps sample_doomed ?s")
  have "skr_Name (pgs_SuperuserSecretKeyRef (pg_Spec sample_PostgreSQL)) = ''pg''" "ref_Name sample_ref = ''pg''"
    "ref_Namespace sample_ref = ''infra''" by (simp_all add: sample_PostgreSQL_def sample_ref_def)
  with missing_secret_skips_cleanup [of ref_deps sample_doomed "''infra''" ?s sample_PostgreSQL s1 not_found s2 r s'] s1(1) s2 run
  show ?thesis by (auto simp: sample_doomed_simps not_found_def)
qed

section \<open>Deletions that clean up\<close>

text \<open>C14: When the deletion of a database with the policy \<open>Delete\<close> is done with it on an open connection, that
is unless it asks for a retry, the cluster no longer has the database and is otherwise as it was when
the connection was opened.\<close>

theorem database_deleted:
  assumes "pg_server std d view" "pg_isolated d view" "sanitize_ok (pgx_Sanitize d)" "pg_name (DatabaseName db)"
    and "ContainsFinalizer d (db_ObjectMeta db) FinalizerName"
    and "CleanupPolicy (dbs_SQLTemplate (db_Spec db)) = CleanupPolicyDelete"
    and "connectToPostgres d (om_Namespace (db_ObjectMeta db)) (dbs_PostgresRef (db_Spec db)) s = (Inr c, s1)"
    and "handleDeletion_Database d db s = (r, s')" "fst r = no_Result"
  shows "view (conn c) (ext s') = remove_database (DatabaseName db) (view (conn c) (ext s1))"
proof -
  obtain s2 rg s3 ce where run: "DropDatabase d c (DatabaseName db) s1 = (None, s2)"
    "Update_Database d (db_remove_finalizer d db) s2 = (rg, s3)" "Close d c s3 = (ce, s')"
    using assms(5-9) by (rule dbr.deletion_finished)
  with DropDatabase_abs [OF assms(1,3,4) run(1)] isolated_calls(1,2) [OF assms(2), of _ _ _ _ "conn c"]
  show ?thesis by metis
qed

definition sample_app :: PostgreSQLDatabase where
  "sample_app = sample_doomed\<lparr>db_Spec := (db_Spec sample_doomed)\<lparr>dbs_Name := ''app''\<rparr>\<rparr>"

lemma sample_app_simps:
  "dbs_PostgresRef (db_Spec sample_app) = sample_ref" "om_Finalizers (db_ObjectMeta sample_app) = [FinalizerName]"
  "om_Namespace (db_ObjectMeta sample_app) = ''team''" "DatabaseName sample_app = ''app''"
  "CleanupPolicy (dbs_SQLTemplate (db_Spec sample_app)) = CleanupPolicyDelete"
  using sample_doomed_simps by (simp_all add: sample_app_def DatabaseName_def)

theorem database_deleted_witness:
  "\<exists>r s'. handleDeletion_Database ref_deps sample_app sample_start = (r, s') \<and> pg_databases (rw_pg (ext s')) = {''postgres''}"
proof -
  obtain s1 where s1: "connectToPostgres ref_deps ''team'' sample_ref sample_start = (Inr \<lparr>conn = 0\<rparr>, s1)"
    "rw_pg (ext s1) = sample_pg" using sample_connect [OF refl] by blast
  obtain s2 where s2: "DropDatabase ref_deps \<lparr>conn = 0\<rparr> ''app'' s1 = (None, s2)"
    using ref_DropDatabase [OF sample_names(1)] by blast
  have "\<exists>s'. handleDeletion_Database ref_deps sample_app sample_start = ((no_Result, None), s')"
    using s1 s2 by (simp add: handleDeletion_Database_def sample_app_simps defer_Close_def db_remove_and_update_def
      call_defs Close_def)
  then obtain s' where run: "handleDeletion_Database ref_deps sample_app sample_start = ((no_Result, None), s')" by blast
  have "rw_pg (ext s') = remove_database ''app'' (rw_pg (ext s1))"
    using database_deleted [OF ref_pg_server ref_isolated ref_sanitize, of sample_app sample_start "\<lparr>conn = 0\<rparr>" s1]
      sample_names(1) s1(1) run by (simp add: sample_app_simps)
  with run s1(2) show ?thesis by (auto simp: remove_database_def sample_pg_def)
qed

text \<open>C15: When the deletion of a user with the policy \<open>Delete\<close> is done with it on an open connection, the
cluster no longer has the role and is otherwise as it was when the connection was opened; if the role
was there, it held no privilege.\<close>

theorem role_deleted:
  assumes "pg_server std d view" "pg_isolated d view" "sanitize_ok (pgx_Sanitize d)" "pg_name (RoleName user)"
    and "ContainsFinalizer d (user_ObjectMeta user) FinalizerName"
    and "CleanupPolicy (us_SQLTemplate (user_Spec user)) = CleanupPolicyDelete"
    and "connectToPostgres d (om_Namespace (user_ObjectMeta user)) (us_PostgresRef (user_Spec user)) s = (Inr c, s1)"
    and "handleDeletion_User d user s = (r, s')" "fst r = no_Result"
  shows "view (conn c) (ext s') = remove_role (RoleName user) (view (conn c) (ext s1)) \<and>
    (role_exists (RoleName user) (view (conn c) (ext s1)) \<longrightarrow>
       RoleName user \<notin> (\<lambda>x. snd (snd x)) ` pg_acl (view (conn c) (ext s1)))"
proof -
  obtain s2 rg s3 ce where run: "DropRole d c (RoleName user) s1 = (None, s2)"
    "Update_User d (user_remove_finalizer d user) s2 = (rg, s3)" "Close d c s3 = (ce, s')"
    using assms(5-9) by (rule ur.deletion_finished)
  have "view (conn c) (ext s') = view (conn c) (ext s2)"
    using isolated_calls(3) [OF assms(2) run(2)] isolated_calls(1) [OF assms(2) run(3)] by simp
  with DropRole_abs [OF assms(1,3,4) run(1)] show ?thesis by simp
qed

definition sample_leaver :: PostgreSQLUser where
  "sample_leaver = sample_User CleanupPolicyDelete [FinalizerName] (Some 3)"

lemma sample_leaver_simps:
  "om_Namespace (user_ObjectMeta sample_leaver) = ''team''" "us_PostgresRef (user_Spec sample_leaver) = sample_ref"
  "RoleName sample_leaver = ''bob''" "om_Finalizers (user_ObjectMeta sample_leaver) = [FinalizerName]"
  "CleanupPolicy (us_SQLTemplate (user_Spec sample_leaver)) = CleanupPolicyDelete"
  by (simp_all add: sample_leaver_def sample_User_def sample_meta_def sample_tmpl_def RoleName_def)

theorem role_deleted_witness:
  "\<exists>r s'. handleDeletion_User ref_deps sample_leaver sample_start = (r, s') \<and> pg_roles (rw_pg (ext s')) ''bob'' = None"
proof -
  obtain s1 where s1: "connectToPostgres ref_deps ''team'' sample_ref sample_start = (Inr \<lparr>conn = 0\<rparr>, s1)"
    "rw_pg (ext s1) = sample_pg" using sample_connect [OF refl] by blast
  have "''bob'' \<notin> (\<lambda>x. snd (snd x)) ` pg_acl (rw_pg (ext s1))" using s1(2) by (simp add: sample_pg_def)
  then obtain s2 where s2: "DropRole ref_deps \<lparr>conn = 0\<rparr> ''bob'' s1 = (None, s2)"
    using ref_DropRole [OF sample_names(4)] by blast
  have "\<exists>s'. handleDeletion_User ref_deps sample_leaver sample_start = ((no_Result, None), s')"
    using s1 s2 by (simp add: handleDeletion_User_def sample_leaver_simps defer_Close_def user_remove_and_update_def
      call_defs Close_def)
  then obtain s' where run: "handleDeletion_User ref_deps sample_leaver sample_start = ((no_Result, None), s')" by blast
  have "rw_pg (ext s') = remove_role ''bob'' (rw_pg (ext s1))"
    using role_deleted [OF ref_pg_server ref_isolated ref_sanitize, of sample_leaver sample_start "\<lparr>conn = 0\<rparr>" s1]
      sample_names(4) s1(1) run by (simp add: sample_leaver_simps)
  with run show ?thesis by (auto simp: remove_role_def)
qed







end
