(* ===== verification/OrphanProperties.thy ===== *)
theory OrphanProperties
  imports DeletionProperties HelperProperties
begin

text \<open>
  What the order of requests can leave behind: a grant whose database was dropped first cannot be
  deleted, and a database whose object got no finalizer is not dropped with it.
\<close>

section \<open>A grant whose database is gone\<close>

text \<open>
  What is documented of connecting: the server takes a connection only to a database it has, and a
  connection that fails is no answer of the API server, so not one \<open>IsNotFound\<close> accepts.
\<close>

definition connects_to_existing :: "'w deps \<Rightarrow> ('w \<Rightarrow> string set) \<Rightarrow> bool" where
  "connects_to_existing d databases \<longleftrightarrow>
     (\<forall>cfg w c w'. plain_config cfg \<longrightarrow> pgx_Connect d (connStr cfg) w = (Inr c, w') \<longrightarrow> cc_Database cfg \<in> databases w)"

definition driver_errors :: "'w deps \<Rightarrow> bool" where
  "driver_errors d \<longleftrightarrow>
     (\<forall>dsn w e w' prefix. pgx_Connect d dsn w = (Inl e, w') \<longrightarrow> \<not> IsNotFound d (Wrapped prefix e))"

lemma connect_missing:
  assumes "connects_to_existing d databases" "driver_errors d" "plain_config cfg"
    and "cc_Database cfg \<notin> databases (ext s)" "Connect d cfg s = (r, s')"
  shows "\<exists>e. r = Inl (Wrapped ''connecting to PostgreSQL: '' e) \<and>
    \<not> IsNotFound d (Wrapped ''connecting to PostgreSQL: '' e) \<and> emits s s' [EvConnect (connStr cfg) (Inl e)]"
proof -
  obtain rc w where c: "pgx_Connect d (connStr cfg) (ext s) = (rc, w)" by (cases "pgx_Connect d (connStr cfg) (ext s)")
  with assms(1,3,4) obtain e where e: "rc = Inl e"
    unfolding connects_to_existing_def by (cases rc) auto
  with c assms(2) have "\<not> IsNotFound d (Wrapped prefix e)" for prefix unfolding driver_errors_def by blast
  with assms(5) c e show ?thesis by (auto simp: Connect_def call_defs emits_def)
qed

text \<open>C32: A grant with the policy \<open>Delete\<close> cannot be deleted after its database was. Let all connections lead
to one cluster, and the deletion of a database with the policy \<open>Delete\<close> be done on an open connection. In every later
state in which no database of the cluster is one it did not have then, a grant on that database that has
the finalizer, the policy \<open>Delete\<close> and a time of deletion, and whose instance and the Secret of its superuser can be
read and hold plain settings, is not updated by its reconciliation: the one call after the reads is a
failed attempt to connect, and the result is no error and a retry in five seconds.\<close>

theorem dropped_database_strands_grants:
  assumes "pg_server std d view" "pg_isolated d view" "sanitize_ok (pgx_Sanitize d)" "pg_name (DatabaseName db)"
    and "\<forall>c w. databases w = pg_databases (view c w)" "connects_to_existing d databases" "driver_errors d"
    and "ContainsFinalizer d (db_ObjectMeta db) FinalizerName"
      "CleanupPolicy (dbs_SQLTemplate (db_Spec db)) = CleanupPolicyDelete"
      "connectToPostgres d (om_Namespace (db_ObjectMeta db)) (dbs_PostgresRef (db_Spec db)) s = (Inr c, s1)"
      "handleDeletion_Database d db s = (rdb, s')" "fst rdb = no_Result"
    and "databases (ext t) \<subseteq> databases (ext s')" "gs_Database (grant_Spec grant) = DatabaseName db"
    and "Get_Grant d key t = (Inr grant, t1)" "\<not> Time_IsZero d (om_DeletionTimestamp (grant_ObjectMeta grant))"
      "ContainsFinalizer d (grant_ObjectMeta grant) FinalizerName"
      "CleanupPolicy (gs_SQLTemplate (grant_Spec grant)) = CleanupPolicyDelete"
    and "pgkey = instance_key (om_Namespace (grant_ObjectMeta grant)) (gs_PostgresRef (grant_Spec grant))"
      "Get_PostgreSQL d pgkey t1 = (Inr pg, t2)"
      "Get_Secret d (superuser_key (nn_Namespace pgkey) pg) t2 = (Inr secret, t3)"
      "secret_Data secret (skr_Key (pgs_SuperuserSecretKeyRef (pg_Spec pg))) = Some password"
      "plain_config (superuser_config pg (DatabaseName db) password)" "databases (ext t3) = databases (ext t)"
    and "Reconcile_Grant d key t = (r, t')"
  shows "(\<exists>e. emits t3 t' [EvConnect (connStr (superuser_config pg (DatabaseName db) password)) (Inl e)]) \<and>
    snd r = None \<and> sint (RequeueAfter (fst r)) = 5000000000"
proof -
  have "view (conn c) (ext s') = remove_database (DatabaseName db) (view (conn c) (ext s1))"
    using assms(1-4,8-12) by (rule database_deleted)
  moreover have "databases (ext s') = pg_databases (view (conn c) (ext s'))" using assms(5) by blast
  ultimately have "DatabaseName db \<notin> databases (ext s')" by (simp add: remove_database_def)
  with assms(13,24) have gone: "DatabaseName db \<notin> databases (ext t3)" by auto
  let ?cfg = "superuser_config pg (DatabaseName db) password"
  have con: "connectToDatabase d (om_Namespace (grant_ObjectMeta grant)) (gs_PostgresRef (grant_Spec grant))
      (DatabaseName db) t1 = Connect d ?cfg t3"
    unfolding connectToDatabase_def Let_def superuser_config_eq key_eqs(1,3) key_eqs(2) [of _ "om_Namespace (grant_ObjectMeta grant)"]
      key_eqs(4) assms(19) [symmetric] by (simp add: assms(20-22))
  obtain rc t4 where run: "Connect d ?cfg t3 = (rc, t4)" by (cases "Connect d ?cfg t3")
  have "cc_Database ?cfg \<notin> databases (ext t3)" using gone by (simp add: superuser_config_def)
  from connect_missing [OF assms(6,7,23) this run] obtain e where e: "rc = Inl (Wrapped ''connecting to PostgreSQL: '' e)"
    "\<not> IsNotFound d (Wrapped ''connecting to PostgreSQL: '' e)" "emits t3 t4 [EvConnect (connStr ?cfg) (Inl e)]" by blast
  have "handleDeletion_Grant d grant t1 = ((\<lparr>RequeueAfter = defaultRetryInterval\<rparr>, None), t4)"
    using con run e(1,2) assms(14,17,18) by (simp add: handleDeletion_Grant_def)
  with assms(15,16,25) have "r = (\<lparr>RequeueAfter = defaultRetryInterval\<rparr>, None)" "t' = t4"
    by (auto simp: Reconcile_Grant_def)
  with e(3) show ?thesis by (auto simp: interval_values)
qed

text \<open>The reference world with a server that looks at the database it is asked for.\<close>

definition strict_Connect :: "string \<Rightarrow> ref_world \<Rightarrow> (gerror + pgx_conn) \<times> ref_world" where
  "strict_Connect dsn w =
     (case Option.bind (ref_dsn dsn) (\<lambda>m. m ''dbname'') of
        Some n \<Rightarrow> if n \<in> pg_databases (rw_pg w) then ref_Connect dsn w
                  else (Inl (DriverError ''database does not exist''), w)
      | None \<Rightarrow> (Inl (DriverError ''no database''), w))"

definition strict_deps :: "ref_world deps" where
  "strict_deps = ref_deps\<lparr>pgx_Connect := strict_Connect\<rparr>"

lemma strict_contracts:
  "pg_server True strict_deps (\<lambda>c w. rw_pg w)" "pg_isolated strict_deps (\<lambda>c w. rw_pg w)"
  "sanitize_ok (pgx_Sanitize strict_deps)"
  "connects_to_existing strict_deps (\<lambda>w. pg_databases (rw_pg w))" "driver_errors strict_deps"
proof -
  show "pg_server True strict_deps (\<lambda>c w. rw_pg w)"
    using ref_pg_server unfolding pg_server_def strict_deps_def by simp
  show "pg_isolated strict_deps (\<lambda>c w. rw_pg w)" using ref_isolated unfolding pg_isolated_def strict_deps_def by simp
  show "sanitize_ok (pgx_Sanitize strict_deps)" using ref_sanitize by (simp add: strict_deps_def)
  show "connects_to_existing strict_deps (\<lambda>w. pg_databases (rw_pg w))"
    by (auto simp: connects_to_existing_def strict_deps_def strict_Connect_def connStr_plain [OF ref_dsn_reader]
      config_settings_def split: if_splits)
  show "driver_errors strict_deps"
    by (auto simp: driver_errors_def strict_deps_def strict_Connect_def ref_Connect_def split: option.splits if_splits)
qed

definition stranded_grant :: PostgreSQLGrant where
  "stranded_grant = sample_Grant CleanupPolicyDelete [FinalizerName] (Some 3)"

lemma stranded_grant_simps:
  "grant_ObjectMeta stranded_grant = sample_meta ''alice-app'' [FinalizerName] (Some 3)"
  "gs_Database (grant_Spec stranded_grant) = ''app''" "gs_PostgresRef (grant_Spec stranded_grant) = sample_ref"
  "CleanupPolicy (gs_SQLTemplate (grant_Spec stranded_grant)) = CleanupPolicyDelete"
  by (simp_all add: stranded_grant_def sample_Grant_def sample_tmpl_def)

definition stranded_start :: "ref_world world" where
  "stranded_start = \<lparr>ext = (sample_world sample_secrets CleanupPolicyDelete [FinalizerName] (Some 3))
     \<lparr>rw_pg := sample_pg\<lparr>pg_databases := {''postgres''}\<rparr>\<rparr>, trace = []\<rparr>"

lemma sample_superuser_plain:
  "plain_config (superuser_config sample_PostgreSQL ''postgres'' ''root'')"
  "plain_config (superuser_config sample_PostgreSQL ''app'' ''root'')"
  by (simp_all add: plain_config_def superuser_config_def sample_PostgreSQL_def plain_value_def plain_char_def
    is_space_def byte_def sq_def backslash_def)

lemma strict_connect:
  "ext s = ext sample_start \<Longrightarrow>
   \<exists>s'. connectToPostgres strict_deps ''team'' sample_ref s = (Inr \<lparr>conn = 0\<rparr>, s') \<and> rw_pg (ext s') = sample_pg"
  using connStr_plain [OF ref_dsn_reader sample_superuser_plain(1)]
  by (simp add: connectToPostgres_def Let_def sample_ref_def call_defs Connect_def ref_get_def sample_start_def
    sample_world_def sample_PostgreSQL_def sample_secrets_def sample_secret_def ref_Connect_def strict_deps_def
    strict_Connect_def superuser_config_def config_settings_def sample_pg_def)

text \<open>Services with the server of the reference world.\<close>

lemma ref_idle:
  assumes "pgx_QueryRow d = pgx_QueryRow ref_deps" "pgx_Exec d = pgx_Exec ref_deps" "pgx_Sanitize d = pgx_Sanitize ref_deps"
  shows "idle_server True d (\<lambda>c w. rw_pg w) (\<lambda>w. True)"
proof
  show "pg_server True d (\<lambda>c w. rw_pg w)" using ref_pg_server unfolding pg_server_def assms .
  show "sanitize_ok (pgx_Sanitize d)" using ref_sanitize unfolding assms .
qed (unfold assms, rule ref.answers ref.executes ref.drops_run; assumption)+

interpretation strict: idle_server True strict_deps "\<lambda>c w. rw_pg w" "\<lambda>w. True"
  by (rule ref_idle) (simp_all add: strict_deps_def)

theorem dropped_database_strands_grants_witness:
  "\<exists>s r t'. handleDeletion_Database strict_deps sample_app sample_start = ((no_Result, None), s) \<and>
     pg_databases (rw_pg (ext stranded_start)) = pg_databases (rw_pg (ext s)) \<and>
     Reconcile_Grant strict_deps (object_key (grant_ObjectMeta stranded_grant)) stranded_start = (r, t') \<and> sint (RequeueAfter (fst r)) = 5000000000"
proof -
  obtain s1 where s1: "connectToPostgres strict_deps ''team'' sample_ref sample_start = (Inr \<lparr>conn = 0\<rparr>, s1)"
    "rw_pg (ext s1) = sample_pg" using strict_connect [OF refl] by blast
  obtain s2 where s2: "DropDatabase strict_deps \<lparr>conn = 0\<rparr> ''app'' s1 = (None, s2)"
    using strict.DropDatabase_succeeds(1) [OF TrueI sample_names(1)] by (metis surj_pair)
  have "\<exists>s'. handleDeletion_Database strict_deps sample_app sample_start = ((no_Result, None), s')"
    using s1 s2 by (simp add: handleDeletion_Database_def sample_app_simps defer_Close_def db_remove_and_update_def
      call_defs Close_def strict_deps_def [symmetric]) (simp add: strict_deps_def)
  then obtain s' where run: "handleDeletion_Database strict_deps sample_app sample_start = ((no_Result, None), s')" by blast
  have "rw_pg (ext s') = remove_database ''app'' sample_pg"
    using database_deleted [OF strict_contracts(1-3), of sample_app sample_start "\<lparr>conn = 0\<rparr>" s1] sample_names(1) s1 run
    by (simp add: sample_app_simps strict_deps_def)
  then have gone: "pg_databases (rw_pg (ext s')) = {''postgres''}" by (auto simp: remove_database_def sample_pg_def)
  let ?t = stranded_start
  let ?key = "object_key (grant_ObjectMeta stranded_grant)" and ?pgkey = "\<lparr>nn_Namespace = ''infra'', nn_Name = ''pg''\<rparr>"
  obtain t1 where t1: "Get_Grant strict_deps ?key ?t = (Inr stranded_grant, t1)" "ext t1 = ext ?t"
    by (simp add: call_defs ref_get_def strict_deps_def stranded_start_def sample_world_def object_key_def
      stranded_grant_def sample_Grant_def sample_meta_def)
  obtain t2 where t2: "Get_PostgreSQL strict_deps ?pgkey t1 = (Inr sample_PostgreSQL, t2)" "ext t2 = ext ?t"
    using t1(2) by (simp add: call_defs ref_get_def strict_deps_def stranded_start_def sample_world_def)
  obtain t3 where t3: "Get_Secret strict_deps ?pgkey t2 = (Inr (sample_secret ''root''), t3)" "ext t3 = ext ?t"
    using t2(2) by (simp add: call_defs ref_get_def strict_deps_def stranded_start_def sample_world_def sample_secrets_def)
  obtain r t' where rec: "Reconcile_Grant strict_deps ?key ?t = (r, t')" by (cases "Reconcile_Grant strict_deps ?key ?t")
  have keys: "instance_key (om_Namespace (grant_ObjectMeta stranded_grant)) (gs_PostgresRef (grant_Spec stranded_grant)) = ?pgkey"
    "superuser_key (nn_Namespace ?pgkey) sample_PostgreSQL = ?pgkey"
    "secret_Data (sample_secret ''root'') (skr_Key (pgs_SuperuserSecretKeyRef (pg_Spec sample_PostgreSQL))) = Some ''root''"
    by (simp_all add: instance_key_def superuser_key_def stranded_grant_simps sample_meta_def sample_ref_def
      sample_PostgreSQL_def sample_secret_def)
  have "pg_databases (rw_pg (ext ?t)) = pg_databases (rw_pg (ext s'))" unfolding gone by (simp add: stranded_start_def)
  moreover have "snd r = None \<and> sint (RequeueAfter (fst r)) = 5000000000"
    using dropped_database_strands_grants [OF strict_contracts(1-3) _ _ strict_contracts(4,5), of sample_app sample_start
        "\<lparr>conn = 0\<rparr>" s1 "(no_Result, None)" s' ?t stranded_grant ?key t1 ?pgkey sample_PostgreSQL t2
        "sample_secret ''root''" t3 "''root''" r t']
      sample_names(1) s1(1) run t1(1) t2(1) t3 rec keys calculation sample_superuser_plain(2)
    by (simp add: sample_app_simps stranded_grant_simps sample_meta_def strict_deps_def)
  ultimately show ?thesis using run rec by blast
qed

section \<open>A database without a finalizer\<close>

text \<open>C33: The finalizer of a database comes after the database. When a reconciliation that read a live object
returns an error, the object has no finalizer although the database is in the cluster; and a deletion of
an object without the finalizer makes no call at all, so the database stays, whatever the policy.\<close>

theorem unguarded_database_stays:
  assumes "pg_server std d view" "pg_isolated d view" "sanitize_ok (pgx_Sanitize d)" "pg_name (DatabaseName db)"
    and "Get_Database d req s = (Inr db, s1)" "Time_IsZero d (om_DeletionTimestamp (db_ObjectMeta db))"
    and "Reconcile_Database d req s = (r, s')" "snd r = Some e"
  shows "\<not> ContainsFinalizer d (db_ObjectMeta db) FinalizerName \<and>
    (\<exists>c s2. connectToPostgres d (om_Namespace (db_ObjectMeta db)) (dbs_PostgresRef (db_Spec db)) s1 = (Inr c, s2) \<and>
       view (conn c) (ext s') = ensure_database (DatabaseName db) (view (conn c) (ext s2))) \<and>
    (\<forall>x t. \<not> ContainsFinalizer d (db_ObjectMeta x) FinalizerName \<longrightarrow>
       handleDeletion_Database d x t = ((no_Result, None), t))"
proof -
  have ready: "snd r' = None" if "db_ready d x n t = (r', t')" for x n t r' t'
    using that by (auto simp: db_ready_def split: prod.splits)
  obtain rc s2 where con: "connectToPostgres d (om_Namespace (db_ObjectMeta db)) (dbs_PostgresRef (db_Spec db)) s1 = (rc, s2)"
    by (cases "connectToPostgres d (om_Namespace (db_ObjectMeta db)) (dbs_PostgresRef (db_Spec db)) s1")
  obtain c where c: "rc = Inr c"
    using assms(5-8) con by (cases rc) (auto simp: Reconcile_Database_def split: prod.splits)
  obtain rd s3 where cr: "CreateDatabase d c (DatabaseName db) s2 = (rd, s3)" by (cases "CreateDatabase d c (DatabaseName db) s2")
  obtain ru s4 where up: "Update_Database d (db_add_finalizer d db) s3 = (ru, s4)"
    by (cases "Update_Database d (db_add_finalizer d db) s3")
  have body: "rd = None \<and> \<not> ContainsFinalizer d (db_ObjectMeta db) FinalizerName \<and> (\<exists>ce. Close d c s4 = (ce, s'))"
    using assms(5-8) con c cr up
    by (cases rd; cases ru) (auto simp: Reconcile_Database_def defer_Close_def Let_def split: prod.splits if_splits dest: ready)
  then obtain ce where cl: "Close d c s4 = (ce, s')" by blast
  have "view (conn c) (ext s') = ensure_database (DatabaseName db) (view (conn c) (ext s2))"
    using CreateDatabase_abs [OF assms(1,3,4), of c s2 s3] cr body isolated_calls(1) [OF assms(2) cl, of "conn c"]
      isolated_calls(2) [OF assms(2) up, of "conn c"] by simp
  with body con c show ?thesis by (auto simp: handleDeletion_Database_def)
qed

text \<open>The reference world with an API server that refuses updates.\<close>

definition conflict :: gerror where
  "conflict = StatusError ''Conflict'' ''the object has been modified''"

definition conflict_deps :: "ref_world deps" where
  "conflict_deps = ref_deps\<lparr>k8s_Update_Database := \<lambda>x w. (Inl conflict, w)\<rparr>"

interpretation conflicting: live_server True conflict_deps "\<lambda>c w. rw_pg w" "\<lambda>w. True"
  by (rule idle_server.axioms(1) [OF ref_idle]) (simp_all add: conflict_deps_def)

theorem unguarded_database_stays_witness:
  "\<exists>s'. Reconcile_Database conflict_deps shop_key sample_start = ((no_Result, Some conflict), s') \<and>
     ''shop'' \<in> pg_databases (rw_pg (ext s')) \<and>
     (\<forall>t. handleDeletion_Database conflict_deps sample_shop t = ((no_Result, None), t))"
proof -
  obtain s1 where s1: "Get_Database conflict_deps shop_key sample_start = (Inr sample_shop, s1)" "ext s1 = ext sample_start"
    using sample_get_shop by (auto simp: call_defs conflict_deps_def)
  have con: "\<exists>s2. connectToPostgres conflict_deps ''team'' sample_ref s1 = (Inr \<lparr>conn = 0\<rparr>, s2) \<and> rw_pg (ext s2) = sample_pg"
    using s1(2) by (simp add: connectToPostgres_def Let_def sample_ref_def call_defs Connect_def ref_get_def sample_start_def
      sample_world_def sample_PostgreSQL_def sample_secrets_def sample_secret_def ref_Connect_def conflict_deps_def)
  then obtain s2 where s2: "connectToPostgres conflict_deps ''team'' sample_ref s1 = (Inr \<lparr>conn = 0\<rparr>, s2)" by blast
  obtain s3 where s3: "CreateDatabase conflict_deps \<lparr>conn = 0\<rparr> ''shop'' s2 = (None, s3)"
    using conflicting.CreateDatabase_succeeds(1) [OF TrueI sample_names(2) _ sample_texts(2)] by (metis surj_pair)
  have env: "Time_IsZero conflict_deps None" "\<not> ContainsFinalizer conflict_deps (db_ObjectMeta sample_shop) FinalizerName"
    by (simp_all add: conflict_deps_def sample_shop_simps)
  have "\<exists>s'. Reconcile_Database conflict_deps shop_key sample_start = ((no_Result, Some conflict), s')"
    using s1(1) s2 s3 env by (simp add: Reconcile_Database_def sample_shop_simps defer_Close_def) 
      (simp add: conflict_deps_def call_defs Close_def)
  then obtain s' where run: "Reconcile_Database conflict_deps shop_key sample_start = ((no_Result, Some conflict), s')" by blast
  have live: "pg_isolated conflict_deps (\<lambda>c w. rw_pg w)" "Time_IsZero conflict_deps (om_DeletionTimestamp (db_ObjectMeta sample_shop))"
    "pg_name (DatabaseName sample_shop)"
    using ref_isolated env sample_names(2) by (simp_all add: pg_isolated_def conflict_deps_def sample_shop_simps)
  note stays = unguarded_database_stays [OF conflicting.server live(1) conflicting.sanitize live(3) s1(1) live(2) run, of conflict]
  from stays have "''shop'' \<in> pg_databases (rw_pg (ext s'))" by (auto simp: sample_shop_simps ensure_database_def)
  with run stays env(2) show ?thesis by auto
qed

end
