(* ===== verification/Workers.thy ===== *)
theory Workers
  imports Operator
begin

text \<open>
  The controllers as they really run: each kind of object has a worker of its own, the workers run
  at the same time, and the process may be killed and restarted at any call. A worker sees the world
  through services whose answers depend on what the other workers did in between; so each request
  of it runs with services of its own, which share with those of the others only the code of the
  libraries that answers without asking the world.
\<close>

section \<open>Services that differ in the world only\<close>

definition same_code :: "'w deps \<Rightarrow> 'w deps \<Rightarrow> bool" where
  "same_code d d' \<longleftrightarrow>
     pgx_Sanitize d' = pgx_Sanitize d \<and> Time_IsZero d' = Time_IsZero d \<and> IsNotFound d' = IsNotFound d \<and>
     ContainsFinalizer d' = ContainsFinalizer d \<and> AddFinalizer d' = AddFinalizer d \<and>
     RemoveFinalizer d' = RemoveFinalizer d \<and> SetStatusCondition d' = SetStatusCondition d \<and>
     unicode_IsPrint d' = unicode_IsPrint d"

lemma same_code_refl: "same_code d d"
  by (simp add: same_code_def)

lemma same_statements:
  assumes "same_code d d'"
  shows "database_ensured d' = database_ensured d" "database_removed d' = database_removed d"
    "role_removed d' = role_removed d" "user_applied d' = user_applied d"
    "grant_statements d' = grant_statements d" "revoke_statements d' = revoke_statements d"
  using assms
  by (simp_all add: fun_eq_iff same_code_def database_ensured_def database_removed_def role_removed_def
    user_applied_def role_ensured_def alterRoleStmt_def createRoleStmt_def grant_statements_def
    grantDatabaseStmt_def grantTablesStmt_def grantDefaultStmt_def grantUsageStmt_def grantCreateStmt_def
    revoke_statements_def revokeDefaultStmt_def revokeTablesStmt_def revokeCreateStmt_def revokeDatabaseStmt_def)

lemma same_objects:
  assumes "same_code d d'"
  shows "with_finalizer d' = with_finalizer d" "without_finalizer d' = without_finalizer d"
    "sql_applied d' = sql_applied d" "sql_cleaned d' = sql_cleaned d"
proof -
  have "with_finalizer d' x = with_finalizer d x" "without_finalizer d' x = without_finalizer d x"
    "sql_applied d' x c evs = sql_applied d x c evs" "sql_cleaned d' x c evs = sql_cleaned d x c evs" for x c evs
    using assms by (cases x; simp add: same_statements [OF assms] same_code_def
      db_add_finalizer_def user_add_finalizer_def grant_add_finalizer_def
      db_remove_finalizer_def user_remove_finalizer_def grant_remove_finalizer_def)+
  then show "with_finalizer d' = with_finalizer d" "without_finalizer d' = without_finalizer d"
    "sql_applied d' = sql_applied d" "sql_cleaned d' = sql_cleaned d"
    by (simp_all add: fun_eq_iff)
qed

lemma same_allowed:
  assumes "same_code d d'"
  shows "add_allowed d' = add_allowed d" "remove_allowed d' = remove_allowed d" "ready_allowed d' = ready_allowed d"
  using assms
  by (simp_all add: fun_eq_iff add_allowed_def remove_allowed_def ready_allowed_def same_objects [OF assms] same_code_def)

section \<open>The objects a controller writes\<close>

fun written_as :: "object_kind \<Rightarrow> event \<Rightarrow> bool" where
  "written_as k (EvUpdate ob e) = (kind_of ob = k)"
| "written_as k (EvPatch orig ob e) = (kind_of orig = k \<and> kind_of ob = k)"
| "written_as k _ = True"

lemma written_asI:
  assumes "\<And>ob e. ev = EvUpdate ob e \<Longrightarrow> kind_of ob = k"
    and "\<And>orig ob e. ev = EvPatch orig ob e \<Longrightarrow> kind_of orig = k \<and> kind_of ob = k"
  shows "written_as k ev"
  using assms by (cases ev) auto

lemma written_PostgreSQL:
  assumes "Reconcile_PostgreSQL d req s = (r, s')" "emits s s' evs" "ev \<in> set evs"
  shows "written_as PostgreSQL_kind ev"
proof (rule written_asI)
  obtain evs' where "emits s s' evs'" "list_all (\<lambda>e. \<not> is_update e) evs'"
    using assms(1) by (rule Reconcile_PostgreSQL_traces)
  with emits_unique [OF assms(2)] assms(3) show "kind_of ob = PostgreSQL_kind" if "ev = EvUpdate ob e" for ob e
    using that by (auto simp: list_all_iff)
next
  fix orig ob e
  assume ev: "ev = EvPatch orig ob e"
  then obtain pre post where "evs = pre @ EvPatch orig ob e # post" using split_list [OF assms(3)] by blast
  with assms(2) have "emits s s' (pre @ EvPatch orig ob e # post)" by simp
  from assms(1) this EvPatch_is_patch show "kind_of orig = PostgreSQL_kind \<and> kind_of ob = PostgreSQL_kind"
    by (cases rule: Reconcile_PostgreSQL_patches) (auto simp: condition_patch_def)
qed

lemma Reconcile_written:
  assumes "Reconcile d k req s = (r, s')" "emits s s' evs" "ev \<in> set evs"
  shows "written_as k ev"
proof (cases k)
  case PostgreSQL_kind
  with assms written_PostgreSQL show ?thesis by simp
next
  case Database_kind
  with assms(1) have "Reconcile_Database d req s = (r, s')" by simp
  note w = dbr.writes_own_kind [OF this assms(2)]
  show ?thesis by (rule written_asI) (use w assms(3) Database_kind in fastforce)+
next
  case User_kind
  with assms(1) have "Reconcile_User d req s = (r, s')" by simp
  note w = ur.writes_own_kind [OF this assms(2)]
  show ?thesis by (rule written_asI) (use w assms(3) User_kind in fastforce)+
next
  case Grant_kind
  with assms(1) have "Reconcile_Grant d req s = (r, s')" by simp
  note w = gr.writes_own_kind [OF this assms(2)]
  show ?thesis by (rule written_asI) (use w assms(3) Grant_kind in fastforce)+
next
  case Secret_kind
  with assms emits_unique [OF assms(2), of "[]"] show ?thesis by (simp add: emits_refl)
qed

section \<open>Workers\<close>

text \<open>The calls of one worker: those of its requests one after the other, each possibly cut short.\<close>

inductive worker :: "'w deps \<Rightarrow> object_kind \<Rightarrow> event list \<Rightarrow> bool" for d k where
  idle: "worker d k []"
| request: "worker d k h \<Longrightarrow> same_code d d' \<Longrightarrow> Reconcile d' k req s = (r, s') \<Longrightarrow> emits s s' (evs @ rest) \<Longrightarrow>
    worker d k (h @ evs)"

text \<open>A history of all workers, each call with the worker that made it.\<close>

type_synonym history = "(object_kind \<times> event) list"

definition own :: "object_kind \<Rightarrow> history \<Rightarrow> event list" where
  "own k h = map snd (filter (\<lambda>x. fst x = k) h)"

definition concurrent :: "'w deps \<Rightarrow> history \<Rightarrow> bool" where
  "concurrent d h \<longleftrightarrow> (\<forall>k. worker d k (own k h))"

lemma own_append [simp]: "own k (a @ b) = own k a @ own k b"
  by (simp add: own_def)

lemma own_simps [simp]:
  "own k [] = []" "own k (x # h) = (if fst x = k then snd x # own k h else own k h)"
  by (simp_all add: own_def)

lemma worker_updates:
  assumes "worker d k (pre @ EvUpdate ob e # post)"
  shows "\<exists>past evs. pre = past @ evs \<and> (add_allowed d ob evs \<or> remove_allowed d ob evs)"
  using assms
proof (induction "pre @ EvUpdate ob e # post" arbitrary: post rule: worker.induct)
  case (request h d' req s r s' evs rest)
  from request.hyps(6) show ?case
  proof (cases rule: append_split)
    case (new pre')
    with request.hyps(5) have "emits s s' (pre' @ EvUpdate ob e # (post @ rest))" by simp
    from Reconcile_updates [OF request.hyps(4) this] new(1) show ?thesis
      by (auto simp: same_allowed [OF request.hyps(3)])
  qed (use request.hyps(2) in blast)
qed simp

lemma worker_reports:
  assumes "worker d k (pre @ EvPatch orig ob e # post)" "sets_status (SetStatusCondition d)" "object_ready ob"
  shows "\<exists>past evs. pre = past @ evs \<and> ready_allowed d orig evs"
  using assms(1)
proof (induction "pre @ EvPatch orig ob e # post" arbitrary: post rule: worker.induct)
  case (request h d' req s r s' evs rest)
  from request.hyps(6) show ?case
  proof (cases rule: append_split)
    case (new pre')
    with request.hyps(5) have "emits s s' (pre' @ EvPatch orig ob e # (post @ rest))" by simp
    moreover have "sets_status (SetStatusCondition d')" using assms(2) request.hyps(3) by (simp add: same_code_def)
    ultimately show ?thesis
      using Reconcile_patches [OF request.hyps(4) _ _ assms(3)] new(1) same_allowed(3) [OF request.hyps(3)] by metis
  qed (use request.hyps(2) in blast)
qed simp

lemma worker_writes: "worker d k h \<Longrightarrow> list_all (written_as k) h"
proof (induction rule: worker.induct)
  case (request h d' req s r s' evs rest)
  from Reconcile_written [OF request.hyps(3,4)] request.IH show ?case by (auto simp: list_all_iff)
qed simp

text \<open>
  A request cut short may leave a connection open; apart from those, connections are used and closed
  only while they are open.
\<close>

lemma worker_connections:
  assumes "worker d k h"
  shows "\<exists>os. conn_run [] h = Some os"
  using assms
proof (induction rule: worker.induct)
  case (request h d' req s r s' evs rest)
  then obtain os where os: "conn_run [] h = Some os" by blast
  from Reconcile_balanced [OF request.hyps(3,4), of os] os show ?case
    by (auto simp: conn_run_append split: option.splits)
qed simp

end
