(* ===== verification/WorkerProperties.thy ===== *)
theory WorkerProperties
  imports Workers CtrlProperties
begin

text \<open>
  The invariants of the controllers when they run at the same time and may be killed at any call.
\<close>

text \<open>C3: However the calls of the four controllers interleave, whatever the others and the outside world
do between two calls of one, and wherever a request is cut short: a controller only writes objects of
its own kind; each update it makes is allowed by the calls it made itself right before, as the addition
or the removal of the finalizer; and so is each status that makes an object \<open>Ready\<close>.\<close>

theorem concurrent_guarded:
  assumes "concurrent d h" "sets_status (SetStatusCondition d)" "h = pre @ (k, ev) # post"
  shows "written_as k ev \<and>
    (\<forall>ob e. ev = EvUpdate ob e \<longrightarrow>
       (\<exists>past evs. own k pre = past @ evs \<and> (add_allowed d ob evs \<or> remove_allowed d ob evs))) \<and>
    (\<forall>orig ob e. ev = EvPatch orig ob e \<longrightarrow> object_ready ob \<longrightarrow>
       (\<exists>past evs. own k pre = past @ evs \<and> ready_allowed d orig evs))"
proof -
  have w: "worker d k (own k pre @ ev # own k post)"
    using assms(1,3) unfolding concurrent_def by (auto dest: spec [of _ k])
  from worker_writes [OF w] show ?thesis
    using worker_updates [of d k "own k pre"] worker_reports [of d k "own k pre", OF _ assms(2)] w by auto
qed

text \<open>The worker of instances is stopped by a missing instance while a database is being deleted.\<close>

definition sample_missing :: event where
  "sample_missing = EvGet PostgreSQL_kind shop_key (Inl not_found)"

definition sample_history :: history where
  "sample_history = [(Database_kind, fetched shop_key sample_kept), (PostgreSQL_kind, sample_missing),
     (Database_kind, sample_release)]"

lemma sample_concurrent: "concurrent ref_deps sample_history"
  unfolding concurrent_def
proof
  obtain r s' where db: "Reconcile ref_deps Database_kind shop_key sample_deleting = (r, s')"
    "trace s' = [fetched shop_key sample_kept, sample_release]" using sample_deletion_run by blast
  have "emits sample_deleting s' ([fetched shop_key sample_kept, sample_release] @ [])"
    using db(2) by (simp add: emits_def sample_deleting_def)
  from worker.request [OF worker.idle same_code_refl db(1) this]
  have w1: "worker ref_deps Database_kind [fetched shop_key sample_kept, sample_release]" by simp
  have "\<exists>r s'. Reconcile ref_deps PostgreSQL_kind shop_key sample_deleting = (r, s') \<and>
      emits sample_deleting s' ([sample_missing] @ [])"
    by (simp add: Reconcile_PostgreSQL_def call_defs ref_get_def sample_deleting_def sample_world_def shop_key_def
      emits_def not_found_def sample_missing_def)
  then obtain r2 s2 where "Reconcile ref_deps PostgreSQL_kind shop_key sample_deleting = (r2, s2)"
    "emits sample_deleting s2 ([sample_missing] @ [])" by blast
  from worker.request [OF worker.idle same_code_refl this]
  have w2: "worker ref_deps PostgreSQL_kind [sample_missing]" by simp
  show "worker ref_deps k (own k sample_history)" for k
    using w1 w2 worker.idle by (cases k) (simp_all add: sample_history_def)
qed

theorem concurrent_guarded_witness:
  "\<exists>evs. concurrent ref_deps sample_history \<and> evs = [fetched shop_key sample_kept] \<and>
     (add_allowed ref_deps (without_finalizer ref_deps sample_kept) evs \<or>
      remove_allowed ref_deps (without_finalizer ref_deps sample_kept) evs)"
proof -
  have "sets_status (SetStatusCondition ref_deps)" by (simp add: ref_sets_status)
  from concurrent_guarded [OF sample_concurrent this, of
      "[(Database_kind, fetched shop_key sample_kept), (PostgreSQL_kind, sample_missing)]" Database_kind sample_release "[]"]
  obtain past evs where evs: "[fetched shop_key sample_kept] = past @ evs"
    "add_allowed ref_deps (without_finalizer ref_deps sample_kept) evs \<or>
     remove_allowed ref_deps (without_finalizer ref_deps sample_kept) evs"
    by (auto simp: sample_history_def sample_release_def)
  from evs(2) have "evs \<noteq> []" by (auto simp: add_allowed_def remove_allowed_def)
  with evs(1) have "evs = [fetched shop_key sample_kept]" by (cases past) auto
  with sample_concurrent evs(2) show ?thesis by blast
qed

end
