(* ===== verification/Schema.thy ===== *)
theory Schema
  imports Workers
begin

text \<open>
  The schema of the resources: the validation markers of \<open>api/v1alpha1\<close> and, for the conditions,
  what \<open>config/crd/bases\<close> generates from the markers of \<open>metav1.Condition\<close>. An object is well formed
  as the API server stores it, with the defaults filled in. What the controllers send is an object
  they have just been handed with its finalizer or its condition \<open>Ready\<close> changed, so well-formedness is
  kept, but for the length of a message.
\<close>

section \<open>Patterns\<close>

definition is_lower :: "char \<Rightarrow> bool" where
  "is_lower c \<longleftrightarrow> in_range 97 122 (byte c)"

definition is_letter :: "char \<Rightarrow> bool" where
  "is_letter c \<longleftrightarrow> is_lower c \<or> in_range 65 90 (byte c)"

definition is_digit :: "char \<Rightarrow> bool" where
  "is_digit c \<longleftrightarrow> in_range 48 57 (byte c)"

fun split_on :: "char \<Rightarrow> string \<Rightarrow> string list" where
  "split_on sep [] = [[]]"
| "split_on sep (c # cs) =
     (if c = sep then [] # split_on sep cs
      else (c # hd (split_on sep cs)) # tl (split_on sep cs))"

text \<open>A string that begins and ends with an \<open>outer\<close> character and has \<open>inner\<close> ones between.\<close>

definition framed :: "(char \<Rightarrow> bool) \<Rightarrow> (char \<Rightarrow> bool) \<Rightarrow> string \<Rightarrow> bool" where
  "framed outer inner s \<longleftrightarrow> s \<noteq> [] \<and> outer (hd s) \<and> outer (last s) \<and> list_all (\<lambda>c. outer c \<or> inner c) s"

text \<open>\<open>^[A-Za-z]([A-Za-z0-9_,:]*[A-Za-z0-9_])?$\<close>\<close>

definition reason_pattern :: "string \<Rightarrow> bool" where
  "reason_pattern s \<longleftrightarrow> is_letter (hd s) \<and>
     framed (\<lambda>c. is_letter c \<or> is_digit c \<or> c = CHR ''_'') (\<lambda>c. c \<in> set '',:'') s"

text \<open>
  \<open>^([a-z0-9]([-a-z0-9]*[a-z0-9])?(\.[a-z0-9]([-a-z0-9]*[a-z0-9])?)*/)?(([A-Za-z0-9][-A-Za-z0-9_.]*)?[A-Za-z0-9])$\<close>
\<close>

definition dns_label :: "string \<Rightarrow> bool" where
  "dns_label = framed (\<lambda>c. is_lower c \<or> is_digit c) (\<lambda>c. c = CHR ''-'')"

definition type_pattern :: "string \<Rightarrow> bool" where
  "type_pattern s =
     (case split_on (CHR ''/'') s of
        [name] \<Rightarrow> framed (\<lambda>c. is_letter c \<or> is_digit c) (\<lambda>c. c \<in> set ''-_.'') name
      | [prefix, name] \<Rightarrow> list_all dns_label (split_on (CHR ''.'') prefix) \<and>
          framed (\<lambda>c. is_letter c \<or> is_digit c) (\<lambda>c. c \<in> set ''-_.'') name
      | _ \<Rightarrow> False)"

text \<open>The length of a string in a schema: its characters, not its bytes.\<close>

fun rune_count :: "string \<Rightarrow> nat" where
  "rune_count [] = 0"
| "rune_count (c # cs) = Suc (rune_count (drop (snd (decode_rune (c # cs)) - 1) cs))"

section \<open>Well-formed objects\<close>

definition schema_condition :: "Condition \<Rightarrow> bool" where
  "schema_condition c \<longleftrightarrow>
     type_pattern (cond_Type c) \<and> rune_count (cond_Type c) \<le> 316 \<and>
     cond_Status c \<in> {ConditionTrue, ConditionFalse, ''Unknown''} \<and>
     0 \<le> sint (cond_ObservedGeneration c) \<and>
     reason_pattern (cond_Reason c) \<and> 1 \<le> rune_count (cond_Reason c) \<and> rune_count (cond_Reason c) \<le> 1024 \<and>
     rune_count (cond_Message c) \<le> 32768"

text \<open>A list of conditions is a map with the type as its key.\<close>

definition schema_conditions :: "Condition list \<Rightarrow> bool" where
  "schema_conditions cs \<longleftrightarrow> list_all schema_condition cs \<and> distinct (map cond_Type cs)"

definition schema_template :: "SQLTemplate \<Rightarrow> bool" where
  "schema_template t \<longleftrightarrow> CleanupPolicy t \<in> {CleanupPolicySkip, CleanupPolicyDelete}"

fun schema_spec :: "client_object \<Rightarrow> bool" where
  "schema_spec (PostgreSQL_object pg) = True"
| "schema_spec (Database_object db) = schema_template (dbs_SQLTemplate (db_Spec db))"
| "schema_spec (User_object user) = schema_template (us_SQLTemplate (user_Spec user))"
| "schema_spec (Grant_object grant) =
     (schema_template (gs_SQLTemplate (grant_Spec grant)) \<and> 1 \<le> length (gs_Privileges (grant_Spec grant)))"

text \<open>The generation is set by the API server, which counts up from one.\<close>

definition well_formed :: "client_object \<Rightarrow> bool" where
  "well_formed ob \<longleftrightarrow>
     schema_spec ob \<and> schema_conditions (object_conditions ob) \<and> 0 \<le> sint (om_Generation (object_meta ob))"

section \<open>The library functions that edit objects\<close>

text \<open>
  What is documented of them. \<open>meta.SetStatusCondition\<close> replaces the condition of the type, or appends
  the new one; the time of the transition is its own business. The finalizer functions put the given name
  into the list of finalizers, and take it out; the other finalizers and the rest of the metadata stay.
\<close>

fun put_condition :: "Condition list \<Rightarrow> Condition \<Rightarrow> Condition list" where
  "put_condition [] c = [c]"
| "put_condition (x # xs) c = (if cond_Type x = cond_Type c then c # xs else x # put_condition xs c)"

definition sets_condition :: "(Condition list \<Rightarrow> Condition \<Rightarrow> Condition list) \<Rightarrow> bool" where
  "sets_condition f \<longleftrightarrow> (\<forall>cs c. \<exists>t. f cs c = put_condition cs (c\<lparr>cond_LastTransitionTime := t\<rparr>))"

definition adds_finalizer :: "(ObjectMeta \<Rightarrow> string \<Rightarrow> ObjectMeta) \<Rightarrow> bool" where
  "adds_finalizer f \<longleftrightarrow> (\<forall>m name. \<exists>fs. f m name = m\<lparr>om_Finalizers := fs\<rparr> \<and> name \<in> set fs \<and>
     filter (\<lambda>n. n \<noteq> name) fs = filter (\<lambda>n. n \<noteq> name) (om_Finalizers m))"

definition removes_finalizer :: "(ObjectMeta \<Rightarrow> string \<Rightarrow> ObjectMeta) \<Rightarrow> bool" where
  "removes_finalizer f \<longleftrightarrow> (\<forall>m name. f m name = m\<lparr>om_Finalizers := filter (\<lambda>n. n \<noteq> name) (om_Finalizers m)\<rparr>)"

lemma put_condition_set: "set (put_condition cs c) \<subseteq> insert c (set cs)"
  by (induction cs c rule: put_condition.induct) auto

lemma put_condition_types:
  "map cond_Type (put_condition cs c) =
     (if cond_Type c \<in> cond_Type ` set cs then map cond_Type cs else map cond_Type cs @ [cond_Type c])"
  by (induction cs c rule: put_condition.induct) auto

lemma put_condition_status: "cond_status (cond_Type c) (put_condition cs c) = Some (cond_Status c)"
  by (induction cs c rule: put_condition.induct) (auto simp: cond_status_def)

lemma sets_condition_status:
  assumes "sets_condition f"
  shows "sets_status f"
  unfolding sets_status_def
proof (intro allI)
  fix cs c
  obtain t where t: "f cs c = put_condition cs (c\<lparr>cond_LastTransitionTime := t\<rparr>)"
    using assms unfolding sets_condition_def by blast
  show "cond_status (cond_Type c) (f cs c) = Some (cond_Status c)"
    using put_condition_status [of "c\<lparr>cond_LastTransitionTime := t\<rparr>" cs] by (simp add: t)
qed

section \<open>Where the objects a controller writes come from\<close>

text \<open>
  An object has just been read when it was fetched and since then its reader has read no other object of
  the kind, written nothing and closed no connection. It has just been handed over when it has just been
  read, or was returned by an update that is the last call made. A report is such an object with its
  condition \<open>Ready\<close> set for the generation it was handed over with.
\<close>

definition just_read :: "object_kind \<Rightarrow> event list \<Rightarrow> client_object \<Rightarrow> bool" where
  "just_read k evs x \<longleftrightarrow>
     (\<exists>past key rest. evs = past @ fetched key x # rest \<and> kind_of x = k \<and> list_all (since_read k) rest)"

definition just_handed :: "object_kind \<Rightarrow> event list \<Rightarrow> client_object \<Rightarrow> bool" where
  "just_handed k evs x \<longleftrightarrow> just_read k evs x \<or> (\<exists>past y. evs = past @ [EvUpdate y (Inr x)])"

lemma just_readI: "evs = fetched key x # rest \<Longrightarrow> kind_of x = k \<Longrightarrow> list_all (since_read k) rest \<Longrightarrow> just_read k evs x"
  unfolding just_read_def by (intro exI [of _ "[]"] exI [of _ key] exI [of _ rest]) simp

lemma just_append:
  "just_read k evs x \<Longrightarrow> just_read k (past @ evs) x"
  "just_handed k evs x \<Longrightarrow> just_handed k (past @ evs) x"
  unfolding just_handed_def just_read_def by (metis append.assoc)+

definition report_of :: "'w deps \<Rightarrow> client_object \<Rightarrow> client_object \<Rightarrow> bool" where
  "report_of d x ob \<longleftrightarrow> (\<exists>status reason message now.
     (status, reason) \<in> {(ConditionTrue, ReasonSucceeded), (ConditionFalse, ReasonFailed)} \<and>
     ob = update_conditions (\<lambda>cs. SetStatusCondition d cs
       \<lparr>cond_Type = ConditionTypeReady, cond_Status = status,
        cond_ObservedGeneration = om_Generation (object_meta x), cond_LastTransitionTime = now,
        cond_Reason = reason, cond_Message = message\<rparr>) x)"

lemma patched_report:
  assumes "condition_patch d as_object conds x (om_Generation (object_meta (as_object x))) status reason message
      (EvPatch orig ob e)"
    and "\<forall>f. update_conditions f (as_object x) = as_object (conds f x)"
    and "(status, reason) \<in> {(ConditionTrue, ReasonSucceeded), (ConditionFalse, ReasonFailed)}"
  shows "orig = as_object x \<and> report_of d orig ob"
proof -
  from assms(1) obtain now where ob: "orig = as_object x" "ob = as_object (conds (\<lambda>cs. SetStatusCondition d cs
      \<lparr>cond_Type = ConditionTypeReady, cond_Status = status,
       cond_ObservedGeneration = om_Generation (object_meta (as_object x)), cond_LastTransitionTime = now,
       cond_Reason = reason, cond_Message = message\<rparr>) x)"
    by (auto simp: condition_patch_def)
  with assms(2,3) show ?thesis
    unfolding report_of_def by (intro conjI exI [of _ status] exI [of _ reason] exI [of _ message] exI [of _ now]) simp_all
qed

lemmas kind_report =
  patched_report [where as_object = PostgreSQL_object and conds = pg_conditions, simplified]
  patched_report [where as_object = Database_object and conds = db_conditions, simplified]
  patched_report [where as_object = User_object and conds = user_conditions, simplified]
  patched_report [where as_object = Grant_object and conds = grant_conditions, simplified]

lemma pg_attempt_since: "pg_attempt pg ok evs closing \<Longrightarrow> list_all (since_read PostgreSQL_kind) evs"
  by (induction rule: pg_attempt.induct) auto

lemma reports_PostgreSQL:
  assumes "Reconcile_PostgreSQL d req s = (r, s')" "emits s s' (pre @ EvPatch orig ob e # post)"
  shows "just_handed PostgreSQL_kind pre orig \<and> report_of d orig ob"
  using assms EvPatch_is_patch
proof (cases rule: Reconcile_PostgreSQL_patches)
  case (failed pg s1 evs msg)
  with kind_report(1) [OF failed(4)] pg_attempt_since [OF failed(2)] show ?thesis
    by (auto simp: just_handed_def fetched_def intro: just_readI)
next
  case (connected pg s1 evs s2 s3)
  with kind_report(1) [OF connected(4)] pg_attempt_since [OF connected(2)] show ?thesis
    by (auto simp: just_handed_def fetched_def intro: just_readI)
qed

lemma reports_Database:
  assumes "Reconcile_Database d req s = (r, s')" "emits s s' (pre @ EvPatch orig ob e # post)"
  shows "just_handed Database_kind pre orig \<and> report_of d orig ob"
  using assms EvPatch_is_patch
proof (cases rule: dbr.reconcile_patches)
  case (failed x s1 msg s2 s3 pre')
  with kind_report(2) [OF failed(4)] show ?thesis
    by (auto simp: just_handed_def fetched_def intro: just_readI)
next
  case (succeeded x s1 c cevs levs ups x' s2 s3)
  with kind_report(2) [OF succeeded(7)] show ?thesis
    by (auto simp: just_handed_def fetched_def intro: just_readI split: if_splits)
qed

lemma reports_User:
  assumes "Reconcile_User d req s = (r, s')" "emits s s' (pre @ EvPatch orig ob e # post)"
  shows "just_handed User_kind pre orig \<and> report_of d orig ob"
  using assms EvPatch_is_patch
proof (cases rule: ur.reconcile_patches)
  case (failed x s1 msg s2 s3 pre')
  with kind_report(3) [OF failed(4)] show ?thesis
    by (auto simp: just_handed_def fetched_def intro: just_readI)
next
  case (succeeded x s1 c cevs levs ups x' s2 s3)
  with kind_report(3) [OF succeeded(7)] show ?thesis
    by (auto simp: just_handed_def fetched_def intro: just_readI split: if_splits)
qed

lemma reports_Grant:
  assumes "Reconcile_Grant d req s = (r, s')" "emits s s' (pre @ EvPatch orig ob e # post)"
  shows "just_handed Grant_kind pre orig \<and> report_of d orig ob"
  using assms EvPatch_is_patch
proof (cases rule: gr.reconcile_patches)
  case (failed x s1 msg s2 s3 pre')
  with kind_report(4) [OF failed(4)] show ?thesis
    by (auto simp: just_handed_def fetched_def intro: just_readI)
next
  case (succeeded x s1 c cevs levs ups x' s2 s3)
  with kind_report(4) [OF succeeded(7)] show ?thesis
    by (auto simp: just_handed_def fetched_def intro: just_readI split: if_splits)
qed

lemma Reconcile_report:
  assumes "Reconcile d k req s = (r, s')" "emits s s' (pre @ EvPatch orig ob e # post)"
  shows "just_handed k pre orig \<and> report_of d orig ob"
proof (cases k)
  case Secret_kind
  with assms emits_unique [OF assms(2), of "[]"] show ?thesis by (simp add: emits_refl)
qed (use assms reports_PostgreSQL reports_Database reports_User reports_Grant in simp_all)

text \<open>An update writes back the object just read, with its finalizer added or removed.\<close>

lemma edits_Database:
  assumes "Reconcile_Database d req s = (r, s')" "emits s s' (pre @ EvUpdate ob e # post)"
  shows "\<exists>x. just_read Database_kind pre x \<and> ob \<in> {with_finalizer d x, without_finalizer d x}"
  using assms
proof (cases rule: dbr.reconcile_updates)
  case (added x s1 c cevs levs)
  then show ?thesis by (intro exI [of _ "Database_object x"]) (auto simp: fetched_def intro!: just_readI)
next
  case (removed x s1 pre')
  with dbr.deletion_updates [OF removed(3,4)] dbr.deletion_since [OF removed(3,4)] show ?thesis
    by (intro exI [of _ "Database_object x"]) (auto simp: fetched_def intro!: just_readI)
qed

lemma edits_User:
  assumes "Reconcile_User d req s = (r, s')" "emits s s' (pre @ EvUpdate ob e # post)"
  shows "\<exists>x. just_read User_kind pre x \<and> ob \<in> {with_finalizer d x, without_finalizer d x}"
  using assms
proof (cases rule: ur.reconcile_updates)
  case (added x s1 c cevs levs)
  then show ?thesis by (intro exI [of _ "User_object x"]) (auto simp: fetched_def intro!: just_readI)
next
  case (removed x s1 pre')
  with ur.deletion_updates [OF removed(3,4)] ur.deletion_since [OF removed(3,4)] show ?thesis
    by (intro exI [of _ "User_object x"]) (auto simp: fetched_def intro!: just_readI)
qed

lemma edits_Grant:
  assumes "Reconcile_Grant d req s = (r, s')" "emits s s' (pre @ EvUpdate ob e # post)"
  shows "\<exists>x. just_read Grant_kind pre x \<and> ob \<in> {with_finalizer d x, without_finalizer d x}"
  using assms
proof (cases rule: gr.reconcile_updates)
  case (added x s1 c cevs levs)
  then show ?thesis by (intro exI [of _ "Grant_object x"]) (auto simp: fetched_def intro!: just_readI)
next
  case (removed x s1 pre')
  with gr.deletion_updates [OF removed(3,4)] gr.deletion_since [OF removed(3,4)] show ?thesis
    by (intro exI [of _ "Grant_object x"]) (auto simp: fetched_def intro!: just_readI)
qed

lemma Reconcile_edit:
  assumes "Reconcile d k req s = (r, s')" "emits s s' (pre @ EvUpdate ob e # post)"
  shows "\<exists>x. just_read k pre x \<and> ob \<in> {with_finalizer d x, without_finalizer d x}"
proof (cases k)
  case PostgreSQL_kind
  with assms(1) have "Reconcile_PostgreSQL d req s = (r, s')" by simp
  then obtain evs' where "emits s s' evs'" "list_all (\<lambda>e. \<not> is_update e) evs'"
    by (rule Reconcile_PostgreSQL_traces)
  with no_update [OF _ assms(2)] show ?thesis by blast
next
  case Secret_kind
  with assms emits_unique [OF assms(2), of "[]"] show ?thesis by (simp add: emits_refl)
qed (use assms edits_Database edits_User edits_Grant in simp_all)

text \<open>The workers of a concurrent run, each of whose requests may be cut short.\<close>

lemma same_report: "same_code d d' \<Longrightarrow> report_of d' = report_of d"
  by (simp add: fun_eq_iff report_of_def same_code_def)

lemma worker_report:
  assumes "worker d k (pre @ EvPatch orig ob e # post)"
  shows "just_handed k pre orig \<and> report_of d orig ob"
  using assms
proof (induction "pre @ EvPatch orig ob e # post" arbitrary: post rule: worker.induct)
  case (request h d' req s r s' evs rest)
  from request.hyps(6) show ?case
  proof (cases rule: append_split)
    case (new pre')
    with request.hyps(5) have "emits s s' (pre' @ EvPatch orig ob e # (post @ rest))" by simp
    from Reconcile_report [OF request.hyps(4) this] new(1) same_report [OF request.hyps(3)] show ?thesis
      by (simp add: just_append)
  qed (use request.hyps(2) in blast)
qed simp

lemma worker_edit:
  assumes "worker d k (pre @ EvUpdate ob e # post)"
  shows "\<exists>x. just_read k pre x \<and> ob \<in> {with_finalizer d x, without_finalizer d x}"
  using assms
proof (induction "pre @ EvUpdate ob e # post" arbitrary: post rule: worker.induct)
  case (request h d' req s r s' evs rest)
  from request.hyps(6) show ?case
  proof (cases rule: append_split)
    case (new pre')
    with request.hyps(5) have "emits s s' (pre' @ EvUpdate ob e # (post @ rest))" by simp
    from Reconcile_edit [OF request.hyps(4) this] new(1) same_objects [OF request.hyps(3)] show ?thesis
      using just_append(1) by metis
  qed (use request.hyps(2) in blast)
qed simp

section \<open>What an edit and a report change\<close>

lemma updated_conditions [simp]:
  "object_conditions (update_conditions f x) = f (object_conditions x)"
  "schema_spec (update_conditions f x) = schema_spec x"
  "object_meta (update_conditions f x) = object_meta x"
  by (cases x; simp add: conditions_defs)+

lemma update_conditions_cong:
  "f (object_conditions x) = g (object_conditions x) \<Longrightarrow> update_conditions f x = update_conditions g x"
  by (cases x) (simp_all add: conditions_defs)

primrec put_finalizers :: "string list \<Rightarrow> client_object \<Rightarrow> client_object" where
  "put_finalizers fs (PostgreSQL_object pg) = PostgreSQL_object (pg\<lparr>pg_ObjectMeta := (pg_ObjectMeta pg)\<lparr>om_Finalizers := fs\<rparr>\<rparr>)"
| "put_finalizers fs (Database_object db) = Database_object (db\<lparr>db_ObjectMeta := (db_ObjectMeta db)\<lparr>om_Finalizers := fs\<rparr>\<rparr>)"
| "put_finalizers fs (User_object user) = User_object (user\<lparr>user_ObjectMeta := (user_ObjectMeta user)\<lparr>om_Finalizers := fs\<rparr>\<rparr>)"
| "put_finalizers fs (Grant_object grant) = Grant_object (grant\<lparr>grant_ObjectMeta := (grant_ObjectMeta grant)\<lparr>om_Finalizers := fs\<rparr>\<rparr>)"

text \<open>
  An object with the operator's finalizer put in or taken out: the other finalizers, their order and the
  rest of the object are the same.
\<close>

definition finalizer_edit :: "client_object \<Rightarrow> client_object \<Rightarrow> bool" where
  "finalizer_edit x ob \<longleftrightarrow> (\<exists>fs. ob = put_finalizers fs x \<and>
     filter (\<lambda>n. n \<noteq> FinalizerName) fs = filter (\<lambda>n. n \<noteq> FinalizerName) (om_Finalizers (object_meta x)))"

text \<open>An object with its condition \<open>Ready\<close> replaced or appended: the rest of the object is the same.\<close>

definition ready_report :: "client_object \<Rightarrow> client_object \<Rightarrow> bool" where
  "ready_report x ob \<longleftrightarrow> (\<exists>status reason message t.
     (status, reason) \<in> {(ConditionTrue, ReasonSucceeded), (ConditionFalse, ReasonFailed)} \<and>
     ob = update_conditions (\<lambda>cs. put_condition cs
       \<lparr>cond_Type = ConditionTypeReady, cond_Status = status,
        cond_ObservedGeneration = om_Generation (object_meta x), cond_LastTransitionTime = t,
        cond_Reason = reason, cond_Message = message\<rparr>) x)"

lemmas finalizer_defs = db_add_finalizer_def user_add_finalizer_def grant_add_finalizer_def
  db_remove_finalizer_def user_remove_finalizer_def grant_remove_finalizer_def

lemma with_finalizer_edit:
  assumes "adds_finalizer (AddFinalizer d)"
  shows "finalizer_edit x (with_finalizer d x)"
proof -
  obtain fs where "AddFinalizer d (object_meta x) FinalizerName = (object_meta x)\<lparr>om_Finalizers := fs\<rparr>"
    "filter (\<lambda>n. n \<noteq> FinalizerName) fs = filter (\<lambda>n. n \<noteq> FinalizerName) (om_Finalizers (object_meta x))"
    using assms unfolding adds_finalizer_def by blast
  moreover have "\<exists>fs. with_finalizer d x = put_finalizers fs x \<and>
      filter (\<lambda>n. n \<noteq> FinalizerName) fs = filter (\<lambda>n. n \<noteq> FinalizerName) (om_Finalizers (object_meta x))"
    if "x = PostgreSQL_object pg" for pg
    using that by (intro exI [of _ "om_Finalizers (object_meta x)"]) simp
  ultimately show ?thesis unfolding finalizer_edit_def by (cases x) (auto simp: finalizer_defs)
qed

lemma without_finalizer_edit:
  assumes "removes_finalizer (RemoveFinalizer d)"
  shows "finalizer_edit x (without_finalizer d x)"
proof -
  have "\<exists>fs. without_finalizer d x = put_finalizers fs x \<and>
      filter (\<lambda>n. n \<noteq> FinalizerName) fs = filter (\<lambda>n. n \<noteq> FinalizerName) (om_Finalizers (object_meta x))"
    if "x = PostgreSQL_object pg" for pg
    using that by (intro exI [of _ "om_Finalizers (object_meta x)"]) simp
  moreover have "finalizer_edit x (without_finalizer d x)" if "\<forall>pg. x \<noteq> PostgreSQL_object pg"
    unfolding finalizer_edit_def using that assms
    by (intro exI [of _ "filter (\<lambda>n. n \<noteq> FinalizerName) (om_Finalizers (object_meta x))"], cases x)
      (simp_all add: finalizer_defs removes_finalizer_def)
  ultimately show ?thesis unfolding finalizer_edit_def by blast
qed

lemma report_ready:
  assumes "sets_condition (SetStatusCondition d)" "report_of d x ob"
  shows "ready_report x ob"
proof -
  from assms(2) obtain status reason message now where
    sr: "(status, reason) \<in> {(ConditionTrue, ReasonSucceeded), (ConditionFalse, ReasonFailed)}" and
    ob: "ob = update_conditions (\<lambda>cs. SetStatusCondition d cs
       \<lparr>cond_Type = ConditionTypeReady, cond_Status = status,
        cond_ObservedGeneration = om_Generation (object_meta x), cond_LastTransitionTime = now,
        cond_Reason = reason, cond_Message = message\<rparr>) x"
    by (auto simp: report_of_def)
  let ?c = "\<lambda>t. \<lparr>cond_Type = ConditionTypeReady, cond_Status = status,
        cond_ObservedGeneration = om_Generation (object_meta x), cond_LastTransitionTime = t,
        cond_Reason = reason, cond_Message = message\<rparr>"
  obtain t where t: "SetStatusCondition d (object_conditions x) (?c now) = put_condition (object_conditions x) (?c t)"
    using assms(1) unfolding sets_condition_def by (metis Condition.update_convs(4))
  have "ob = update_conditions (\<lambda>cs. put_condition cs (?c t)) x"
    unfolding ob by (rule update_conditions_cong) (rule t)
  with sr show ?thesis unfolding ready_report_def by blast
qed

section \<open>Well-formedness is kept\<close>

lemma finalizer_edit_kept: "finalizer_edit x ob \<Longrightarrow> well_formed x \<Longrightarrow> well_formed ob"
  unfolding finalizer_edit_def by (cases x) (auto simp: well_formed_def)

text \<open>
  The controllers see to all of the schema but one bound: the length of the message of the condition
  \<open>Ready\<close>, which quotes errors of other programs.
\<close>

definition message_fits :: "client_object \<Rightarrow> bool" where
  "message_fits ob \<longleftrightarrow> (\<forall>c\<in>set (object_conditions ob). cond_Type c = ConditionTypeReady \<longrightarrow> rune_count (cond_Message c) \<le> 32768)"

definition well_formed_but_message :: "client_object \<Rightarrow> bool" where
  "well_formed_but_message ob \<longleftrightarrow>
     schema_spec ob \<and> distinct (map cond_Type (object_conditions ob)) \<and> 0 \<le> sint (om_Generation (object_meta ob)) \<and>
     (\<forall>c\<in>set (object_conditions ob). schema_condition (if cond_Type c = ConditionTypeReady then c\<lparr>cond_Message := []\<rparr> else c))"

lemma well_formed_iff: "well_formed ob \<longleftrightarrow> well_formed_but_message ob \<and> message_fits ob"
  unfolding well_formed_def well_formed_but_message_def message_fits_def schema_conditions_def list_all_iff
    schema_condition_def by (auto split: if_splits)

lemma ready_literals:
  "type_pattern ConditionTypeReady" "rune_count ConditionTypeReady \<le> 316"
  "reason_pattern ReasonSucceeded" "reason_pattern ReasonFailed"
  "rune_count ReasonSucceeded \<in> {1..1024}" "rune_count ReasonFailed \<in> {1..1024}"
  by (simp_all add: type_pattern_def reason_pattern_def framed_def is_letter_def is_lower_def is_digit_def in_range_def
    byte_def ConditionTypeReady_def ReasonSucceeded_def ReasonFailed_def decode_rune_def)

lemma report_kept:
  assumes "well_formed x" "ready_report x ob"
  shows "well_formed_but_message ob"
proof -
  from assms(2) obtain status reason message t where
    sr: "(status, reason) \<in> {(ConditionTrue, ReasonSucceeded), (ConditionFalse, ReasonFailed)}" and
    ob: "ob = update_conditions (\<lambda>cs. put_condition cs
       \<lparr>cond_Type = ConditionTypeReady, cond_Status = status,
        cond_ObservedGeneration = om_Generation (object_meta x), cond_LastTransitionTime = t,
        cond_Reason = reason, cond_Message = message\<rparr>) x" (is "ob = update_conditions (\<lambda>cs. put_condition cs ?c) x")
    unfolding ready_report_def by blast
  let ?m = "\<lambda>c. if cond_Type c = ConditionTypeReady then c\<lparr>cond_Message := []\<rparr> else c"
  have cs: "list_all schema_condition (object_conditions x)" "distinct (map cond_Type (object_conditions x))"
    using assms(1) by (simp_all add: well_formed_def schema_conditions_def)
  have "schema_condition (?m ?c)"
    using sr assms(1) ready_literals by (auto simp: schema_condition_def well_formed_def)
  moreover have "schema_condition (?m c)" if "c \<in> set (object_conditions x)" for c
    using that cs(1) by (auto simp: list_all_iff schema_condition_def)
  ultimately have "\<forall>c\<in>set (put_condition (object_conditions x) ?c). schema_condition (?m c)"
    using put_condition_set by blast
  moreover have "distinct (map cond_Type (put_condition (object_conditions x) ?c))"
    unfolding put_condition_types using cs(2) by auto
  ultimately show ?thesis
    using assms(1) by (simp add: well_formed_but_message_def well_formed_def ob)
qed

text \<open>What a call hands to a controller, and what it takes from one.\<close>

fun received_ok :: "event \<Rightarrow> bool" where
  "received_ok (EvGet k key (Inr (Fetched_object x))) = well_formed x"
| "received_ok (EvUpdate ob (Inr x)) = well_formed x"
| "received_ok ev = True"

lemma handed_well_formed: "just_handed k evs x \<Longrightarrow> list_all received_ok evs \<Longrightarrow> well_formed x"
  unfolding just_handed_def just_read_def by (auto simp: fetched_def)

end
