(* ===== verification/SchemaProperties.thy ===== *)
theory SchemaProperties
  imports Schema WorkerProperties
begin

text \<open>
  The properties of what the controllers write: nothing but the operator's finalizer and the condition
  \<open>Ready\<close> of objects they have just been handed, and within the schema but for the length of a message.
\<close>

section \<open>What is relied on holds of the reference functions\<close>

lemma ref_sets_condition: "sets_condition ref_SetStatusCondition"
  unfolding sets_condition_def
proof (intro allI)
  fix cs c
  show "\<exists>t. ref_SetStatusCondition cs c = put_condition cs (c\<lparr>cond_LastTransitionTime := t\<rparr>)"
  proof (induction cs c rule: ref_SetStatusCondition.induct)
    case (1 c)
    show ?case by (rule exI [of _ "cond_LastTransitionTime c"]) simp
  next
    case (2 x xs c)
    show ?case
    proof (cases "cond_Type x = cond_Type c")
      case True
      then show ?thesis
        by (intro exI [of _ "if cond_Status x = cond_Status c then cond_LastTransitionTime x else cond_LastTransitionTime c"])
          simp
    next
      case False
      with 2 show ?thesis by simp
    qed
  qed
qed

lemma ref_adds_finalizer: "adds_finalizer ref_AddFinalizer"
  unfolding adds_finalizer_def
proof (intro allI)
  fix m :: ObjectMeta and name
  let ?fs = "if name \<in> set (om_Finalizers m) then om_Finalizers m else om_Finalizers m @ [name]"
  show "\<exists>fs. ref_AddFinalizer m name = m\<lparr>om_Finalizers := fs\<rparr> \<and> name \<in> set fs \<and>
      filter (\<lambda>n. n \<noteq> name) fs = filter (\<lambda>n. n \<noteq> name) (om_Finalizers m)"
    by (rule exI [of _ ?fs]) (simp add: ref_AddFinalizer_def)
qed

lemma ref_removes_finalizer: "removes_finalizer ref_RemoveFinalizer"
  unfolding removes_finalizer_def ref_RemoveFinalizer_def by (simp add: eq_commute)

lemmas ref_edits = ref_adds_finalizer ref_removes_finalizer ref_sets_condition

section \<open>The properties\<close>

text \<open>C4: However the controllers interleave and wherever a request is cut short: an update sends the
object its worker has just read - since then it read no other object of the kind, wrote nothing and closed
no connection - and changes nothing of it but the operator's own finalizer. A status patch changes nothing
but the condition \<open>Ready\<close> of the object its worker has just read, or of the one the update right before
the patch returned; it sets it, for the generation of that object, to true with the reason \<open>Succeeded\<close>
or to false with the reason \<open>Failed\<close>. Relied on of the libraries: \<open>AddFinalizer\<close>, \<open>RemoveFinalizer\<close> and
\<open>SetStatusCondition\<close> do what they document.\<close>

theorem writes_minimal:
  assumes "concurrent d h" "h = pre @ (k, ev) # post"
    and "adds_finalizer (AddFinalizer d)" "removes_finalizer (RemoveFinalizer d)"
    and "sets_condition (SetStatusCondition d)"
  shows "(\<forall>ob e. ev = EvUpdate ob e \<longrightarrow> (\<exists>x. just_read k (own k pre) x \<and> finalizer_edit x ob)) \<and>
    (\<forall>orig ob e. ev = EvPatch orig ob e \<longrightarrow> just_handed k (own k pre) orig \<and> ready_report orig ob)"
proof -
  have w: "worker d k (own k pre @ ev # own k post)"
    using assms(1,2) unfolding concurrent_def by (auto dest: spec [of _ k])
  have "\<exists>x. just_read k (own k pre) x \<and> finalizer_edit x ob" if "ev = EvUpdate ob e" for ob e
    using worker_edit [OF w [unfolded that]] with_finalizer_edit [OF assms(3)] without_finalizer_edit [OF assms(4)]
    by blast
  moreover have "just_handed k (own k pre) orig \<and> ready_report orig ob" if "ev = EvPatch orig ob e" for orig ob e
    using worker_report [OF w [unfolded that]] report_ready [OF assms(5)] by blast
  ultimately show ?thesis by blast
qed

theorem writes_minimal_witness:
  "concurrent ref_deps sample_history \<and>
   (\<exists>x. just_read Database_kind [fetched shop_key sample_kept] x \<and> finalizer_edit x (without_finalizer ref_deps sample_kept))"
  using sample_concurrent ref_edits writes_minimal [OF sample_concurrent, of
      "[(Database_kind, fetched shop_key sample_kept), (PostgreSQL_kind, sample_missing)]" Database_kind sample_release "[]"]
  by (simp add: sample_history_def sample_release_def)

text \<open>C5: The controllers keep the schema of the custom resources, but for one bound. If every object the
API server handed out so far was well formed, so is every object a controller updates; an object whose
status it patches has a cleanup policy that is one of the two, privileges if it is a grant, distinct types
of conditions, and conditions whose type and reason have the required pattern and length, whose status is
one of the three and whose generation is not negative. The one bound the controllers do not see to is the
length of the message of the condition \<open>Ready\<close>: the patched object is well formed exactly if that message
has at most 32768 characters.\<close>

theorem schema_kept:
  assumes "concurrent d h" "h = pre @ (k, ev) # post" "list_all received_ok (own k pre)"
    and "adds_finalizer (AddFinalizer d)" "removes_finalizer (RemoveFinalizer d)"
    and "sets_condition (SetStatusCondition d)"
  shows "(\<forall>ob e. ev = EvUpdate ob e \<longrightarrow> well_formed ob) \<and>
    (\<forall>orig ob e. ev = EvPatch orig ob e \<longrightarrow> well_formed_but_message ob \<and> (well_formed ob \<longleftrightarrow> message_fits ob))"
proof -
  have w: "worker d k (own k pre @ ev # own k post)"
    using assms(1,2) unfolding concurrent_def by (auto dest: spec [of _ k])
  have "well_formed ob" if ev: "ev = EvUpdate ob e" for ob e
  proof -
    obtain x where x: "just_read k (own k pre) x" "ob \<in> {with_finalizer d x, without_finalizer d x}"
      using worker_edit [OF w [unfolded ev]] by blast
    then have "finalizer_edit x ob"
      using with_finalizer_edit [OF assms(4)] without_finalizer_edit [OF assms(5)] by blast
    then show ?thesis
      using finalizer_edit_kept handed_well_formed [OF _ assms(3)] x(1) unfolding just_handed_def by blast
  qed
  moreover have "well_formed_but_message ob" if "ev = EvPatch orig ob e" for orig ob e
    using worker_report [OF w [unfolded that]] report_kept handed_well_formed [OF _ assms(3)] report_ready [OF assms(6)]
    by blast
  ultimately show ?thesis using well_formed_iff by blast
qed

theorem schema_kept_witness:
  "concurrent ref_deps sample_history \<and> well_formed (without_finalizer ref_deps sample_kept)"
proof -
  have "well_formed sample_kept"
    by (simp add: well_formed_def sample_kept_def sample_Database_def sample_tmpl_def schema_template_def
      schema_conditions_def sample_meta_def)
  then have "list_all received_ok (own Database_kind [(Database_kind, fetched shop_key sample_kept), (PostgreSQL_kind, sample_missing)])"
    by (simp add: fetched_def)
  with schema_kept [OF sample_concurrent, of
      "[(Database_kind, fetched shop_key sample_kept), (PostgreSQL_kind, sample_missing)]" Database_kind sample_release "[]"]
  show ?thesis
    using sample_concurrent ref_edits
    by (simp add: sample_history_def sample_release_def)
qed

end
