(* ===== verification/SentTexts.thy ===== *)
theory SentTexts
  imports Workers
begin

text \<open>
  What a controller may send to a server: every statement a request executes is one of the few texts
  that belong to the object it read. The locale \<open>sql_texts\<close> adds this to the contract of the controllers.
\<close>

section \<open>Calls that execute certain texts only\<close>

fun exec_in :: "string set \<Rightarrow> event \<Rightarrow> bool" where
  "exec_in Q (EvExec c q r) = (q \<in> Q)"
| "exec_in Q _ = True"

definition sends :: "string set \<Rightarrow> 'w world \<Rightarrow> 'w world \<Rightarrow> bool" where
  "sends Q s s' \<longleftrightarrow> (\<exists>evs. emits s s' evs \<and> list_all (exec_in Q) evs)"

lemma sendsI: "emits s s' evs \<Longrightarrow> list_all (exec_in Q) evs \<Longrightarrow> sends Q s s'"
  unfolding sends_def by blast

lemma sends_refl [intro!]: "sends Q s s"
  by (rule sendsI [OF emits_refl]) simp

lemma sends_trans: "sends Q s s' \<Longrightarrow> sends Q s' s'' \<Longrightarrow> sends Q s s''"
  unfolding sends_def by (metis emits_trans list_all_append)

lemma sends_none: "emits s s' [] \<Longrightarrow> sends Q s s'"
  by (erule sendsI) simp

lemma sends_emits: "sends Q s s' \<Longrightarrow> emits s s' evs \<Longrightarrow> list_all (exec_in Q) evs"
  unfolding sends_def using emits_unique by blast

lemma exec_in_kinds:
  "resolve_events rc evs \<Longrightarrow> list_all (exec_in Q) evs"
  "is_patch ev \<Longrightarrow> exec_in Q ev" "\<not> is_pg ev \<Longrightarrow> exec_in Q ev"
proof -
  show "resolve_events rc evs \<Longrightarrow> list_all (exec_in Q) evs"
    by (induction rc evs rule: resolve_events.induct) auto
  show "is_patch ev \<Longrightarrow> exec_in Q ev" "\<not> is_pg ev \<Longrightarrow> exec_in Q ev" by (cases ev; simp)+
qed

lemma sends_call: "emits s s' [ev] \<Longrightarrow> exec_in Q ev \<Longrightarrow> sends Q s s'"
  by (erule sendsI) simp

lemma sends_defer:
  assumes "defer_Close d c body s = (r, s')" "\<And>r s1. body s = (r, s1) \<Longrightarrow> sends Q s s1"
  shows "sends Q s s'"
proof -
  obtain s1 e where "body s = (r, s1)" "emits s1 s' [EvClose (conn c) e]"
    using assms(1) by (rule emits_defer_Close)
  moreover have "exec_in Q (EvClose (conn c) e)" by simp
  ultimately show ?thesis using sends_trans [OF assms(2) sends_call] by blast
qed

section \<open>The contract\<close>

locale sql_texts = sql_resource +
  fixes texts :: "'b \<Rightarrow> string set"
  assumes apply_texts: "apply_sql x c s = (ra, s') \<Longrightarrow> sends (texts x) s s'"
    and cleanup_texts: "cleanup_sql x c s = (re, s') \<Longrightarrow> sends (texts x) s s'"
begin

lemma quiet_calls:
  "update x s = (rg, s') \<Longrightarrow> sends Q s s'"
  "connect x s = (rc, s') \<Longrightarrow> sends Q s s'"
  "patch x st reason msg s = (x', s') \<Longrightarrow> sends Q s s'"
  "requeueResult d t s = (res, s') \<Longrightarrow> sends Q s s'"
  "retryResult d t s = (res, s') \<Longrightarrow> sends Q s s'"
proof -
  show "update x s = (rg, s') \<Longrightarrow> sends Q s s'" by (drule update_emits) (simp add: sends_call)
  show "connect x s = (rc, s') \<Longrightarrow> sends Q s s'"
    using connect_emits [of x s rc s'] resolved_events exec_in_kinds(1) sendsI by metis
  show "patch x st reason msg s = (x', s') \<Longrightarrow> sends Q s s'"
    using patch_emits [of x st reason msg s x' s'] patch_kinds(1) exec_in_kinds(2) sends_call by metis
  show "requeueResult d t s = (res, s') \<Longrightarrow> sends Q s s'" "retryResult d t s = (res, s') \<Longrightarrow> sends Q s s'"
    by (simp_all add: sends_none emits_results)
qed

lemma quiet_parts:
  "remove_and_update x s = (r, s') \<Longrightarrow> sends Q s s'"
  "ready x0 x s = (r, s') \<Longrightarrow> sends Q s s'"
  "(case patch x ConditionFalse ReasonFailed msg s of
      (_, s) \<Rightarrow> (case retryResult d (tmpl x) s of (res, s) \<Rightarrow> ((res, None), s))) = (r, s') \<Longrightarrow> sends Q s s'"
proof -
  show "sends Q s s'" if "remove_and_update x s = (r, s')"
  proof -
    obtain ru s1 where u: "update (remove_finalizer x) s = (ru, s1)" by (cases "update (remove_finalizer x) s")
    with that have "s' = s1" by (cases ru) (auto simp: remove_and_update_eq)
    with quiet_calls(1) [OF u] show ?thesis by simp
  qed
  show "sends Q s s'" if ready: "ready x0 x s = (r, s')"
  proof -
    obtain ev where "emits s s' [ev]" "is_patch ev" using ready_emits [OF ready] patch_kinds(1) by metis
    with sends_call exec_in_kinds(2) show ?thesis by metis
  qed
  show "sends Q s s'" if fail: "(case patch x ConditionFalse ReasonFailed msg s of
      (_, s) \<Rightarrow> (case retryResult d (tmpl x) s of (res, s) \<Rightarrow> ((res, None), s))) = (r, s')"
  proof -
    obtain ev where "emits s s' [ev]" "is_patch ev" using fail_emits [OF fail] patch_kinds(1) by metis
    with sends_call exec_in_kinds(2) show ?thesis by metis
  qed
qed

lemma deletion_texts:
  assumes "handle_deletion x s = (r, s')"
  shows "sends (texts x) s s'"
proof -
  have body: "sends (texts x) s0 s1" if "(case cleanup_sql x c s0 of
      (Some err, s) \<Rightarrow> ((\<lparr>RequeueAfter = defaultRetryInterval\<rparr>, None), s)
    | (None, s) \<Rightarrow> remove_and_update x s) = (r', s1)" for c s0 r' s1
  proof -
    obtain re s2 where c: "cleanup_sql x c s0 = (re, s2)" by (cases "cleanup_sql x c s0")
    with that have "s1 = s2 \<or> remove_and_update x s2 = (r', s1)" by (cases re) auto
    with cleanup_texts [OF c] quiet_parts(1) show ?thesis by (blast intro: sends_trans)
  qed
  obtain rc s1 where con: "connect x s = (rc, s1)" by (cases "connect x s")
  note q = quiet_calls(2) [OF con, of "texts x"]
  consider "s' = s" | "remove_and_update x s = (r, s')" | "remove_and_update x s1 = (r, s')" | "s' = s1"
    | c where "defer_Close d c (\<lambda>s. case cleanup_sql x c s of
        (Some err, s) \<Rightarrow> ((\<lparr>RequeueAfter = defaultRetryInterval\<rparr>, None), s)
      | (None, s) \<Rightarrow> remove_and_update x s) s1 = (r, s')"
    using assms con by (cases rc) (auto simp: handle_deletion_eq split: if_splits)
  then show ?thesis
  proof cases
    case 5
    then have "sends (texts x) s1 s'" by (rule sends_defer) (rule body)
    with q show ?thesis by (rule sends_trans)
  qed (use q quiet_parts(1) sends_trans in blast)+
qed

lemma reconcile_texts:
  assumes "reconcile key s = (r, s')"
  obtains (unread) err where "emits s s' [EvGet kind key (Inl err)]"
  | (read) x s1 where "emits s s1 [got key x]" "sends (texts x) s1 s'"
  using assms
proof (cases rule: reconcile_cases)
  case (deleting x s1)
  with deletion_texts read show ?thesis by blast
next
  case (unreachable x s1 err cevs ev s2 s3)
  have "list_all (exec_in (texts x)) (cevs @ [ev])"
    using exec_in_kinds(1) [OF resolved_events [OF unreachable(3)]] patch_kinds(1) [OF unreachable(4)] exec_in_kinds(2) by auto
  moreover obtain s0 where "emits s s0 [got key x]" "emits s0 s' (cevs @ [ev])"
    using get_emits [OF unreachable(1)] unreachable(5) by (auto simp: emits_def)
  ultimately show ?thesis using read sendsI by blast
next
  case (connected x s1 c cevs s2)
  have body: "sends (texts x) s0 s3" if "(case apply_sql x c s0 of
        (Some msg, s) \<Rightarrow>
          (case patch x ConditionFalse ReasonFailed msg s of
             (_, s) \<Rightarrow> (case retryResult d (tmpl x) s of (res, s) \<Rightarrow> ((res, None), s)))
      | (None, s) \<Rightarrow>
          if \<not> ContainsFinalizer d (meta x) FinalizerName then
            (case update (add_finalizer x) s of
               (Inl err, s) \<Rightarrow> ((no_Result, Some err), s)
             | (Inr x', s) \<Rightarrow> ready x x' s)
          else ready x x s) = (r', s3)" for s0 r' s3
  proof -
    obtain ra s4 where a: "apply_sql x c s0 = (ra, s4)" by (cases "apply_sql x c s0")
    obtain ru s5 where u: "update (add_finalizer x) s4 = (ru, s5)" by (cases "update (add_finalizer x) s4")
    have "sends (texts x) s4 s3"
      using that a u quiet_calls(1) [OF u] quiet_parts(2,3) sends_trans [OF quiet_calls(1) [OF u] quiet_parts(2)]
      by (cases ra; cases ru) (auto split: if_splits)
    with apply_texts [OF a] show ?thesis by (rule sends_trans)
  qed
  from connected(5) have "sends (texts x) s2 s'" by (rule sends_defer) (rule body)
  moreover obtain s0 where g: "emits s s0 [got key x]" "emits s0 s2 cevs"
    using get_emits [OF connected(1)] connected(4) by (auto simp: emits_def)
  ultimately show ?thesis
    using read [OF g(1)] sends_trans [OF sendsI [OF g(2) exec_in_kinds(1) [OF resolved_events [OF connected(3)]]]] by blast
qed (use unread in blast)+

lemma executed_text:
  assumes "reconcile key s = (r, s')" "emits s s' (pre @ EvExec c q re # post)"
  shows "\<exists>x. got key x \<in> set pre \<and> q \<in> texts x"
  using assms(1)
proof (cases rule: reconcile_texts)
  case (unread err)
  with emits_unique [OF assms(2) unread] show ?thesis by (cases pre) auto
next
  case (read x s1)
  then obtain evs where evs: "emits s1 s' evs" "list_all (exec_in (texts x)) evs" unfolding sends_def by blast
  from emits_unique [OF assms(2) emits_trans [OF read(1) evs(1)]] obtain pre' where
    "pre = got key x # pre'" "evs = pre' @ EvExec c q re # post" by (cases pre) auto
  with evs(2) show ?thesis by auto
qed

end

section \<open>The operations of \<open>internal/sql\<close>\<close>

definition database_texts :: "'w deps \<Rightarrow> string \<Rightarrow> string set" where
  "database_texts d n = {''CREATE DATABASE '' @ pgx_Sanitize d [n], ''DROP DATABASE '' @ pgx_Sanitize d [n]}"

definition role_texts :: "'w deps \<Rightarrow> string \<Rightarrow> string set" where
  "role_texts d n = insert (''DROP ROLE '' @ pgx_Sanitize d [n]) (range (alterRoleStmt d n) \<union> range (createRoleStmt d n))"

definition grant_texts :: "'w deps \<Rightarrow> GrantOpts \<Rightarrow> string set" where
  "grant_texts d opts = set (grant_statements d opts) \<union> set (revoke_statements d opts)"

fun object_texts :: "'w deps \<Rightarrow> client_object \<Rightarrow> string set" where
  "object_texts d (PostgreSQL_object pg) = {}"
| "object_texts d (Database_object db) = database_texts d (DatabaseName db)"
| "object_texts d (User_object user) = role_texts d (RoleName user)"
| "object_texts d (Grant_object grant) = grant_texts d (grant_opts grant)"

lemma database_sends:
  "CreateDatabase d c n s = (r, s') \<Longrightarrow> sends (database_texts d n) s s'"
  "DropDatabase d c n s = (r, s') \<Longrightarrow> sends (database_texts d n) s s'"
  unfolding CreateDatabase_def DropDatabase_def DatabaseExists_def call_defs Let_def sends_def
  by (auto simp: emits_def database_texts_def split: go_splits)

lemma role_sends:
  "CreateOrUpdateRole d c n p s = (r, s') \<Longrightarrow> sends (role_texts d n) s s'"
  "DropRole d c n s = (r, s') \<Longrightarrow> sends (role_texts d n) s s'"
  unfolding CreateOrUpdateRole_def DropRole_def RoleExists_def call_defs sends_def
  by (auto simp: emits_def role_texts_def split: go_splits)

lemma batch_texts: "batch_ok c stmts evs \<or> batch_fails c stmts evs \<Longrightarrow> list_all (exec_in (set stmts)) evs"
  using set_take_subset [of _ stmts] by (fastforce simp: batch_ok_def batch_fails_def list_all_iff)

lemma exec_in_mono: "exec_in Q ev \<Longrightarrow> Q \<subseteq> Q' \<Longrightarrow> exec_in Q' ev"
  by (cases ev) auto

lemma sends_mono: "sends Q s s' \<Longrightarrow> Q \<subseteq> Q' \<Longrightarrow> sends Q' s s'"
  unfolding sends_def using exec_in_mono by (metis list_all_iff)

lemma grant_sends:
  "GrantPrivileges d c opts s = (r, s') \<Longrightarrow> sends (grant_texts d opts) s s'"
  "RevokePrivileges d c opts s = (r, s') \<Longrightarrow> sends (grant_texts d opts) s s'"
proof -
  show "sends (grant_texts d opts) s s'" if run: "GrantPrivileges d c opts s = (r, s')"
  proof -
    obtain evs where "emits s s' evs"
      "batch_ok (conn c) (grant_statements d opts) evs \<or> batch_fails (conn c) (grant_statements d opts) evs"
      using GrantPrivileges_emits [OF run] by metis
    from sendsI [OF this(1) batch_texts [OF this(2)]] show ?thesis by (rule sends_mono) (simp add: grant_texts_def)
  qed
  show "sends (grant_texts d opts) s s'" if run: "RevokePrivileges d c opts s = (r, s')"
  proof -
    obtain evs where "emits s s' evs"
      "batch_ok (conn c) (revoke_statements d opts) evs \<or> batch_fails (conn c) (revoke_statements d opts) evs"
      using RevokePrivileges_emits [OF run] by metis
    from sendsI [OF this(1) batch_texts [OF this(2)]] show ?thesis by (rule sends_mono) (simp add: grant_texts_def)
  qed
qed

section \<open>The controllers\<close>

interpretation dbt: sql_texts d Database_kind Database_object db_ObjectMeta "\<lambda>db. dbs_SQLTemplate (db_Spec db)"
    db_conditions "db_add_finalizer d" "db_remove_finalizer d" "Get_Database d" "Update_Database d"
    "\<lambda>db. connectToPostgres d (om_Namespace (db_ObjectMeta db)) (dbs_PostgresRef (db_Spec db))"
    "db_apply d" "\<lambda>db c. DropDatabase d c (DatabaseName db)"
    "\<lambda>db _. ''Database '' @ fmt_q d (DatabaseName db) @ '' exists''"
    resolved_Database "\<lambda>db c. database_ensured d c (DatabaseName db)" "\<lambda>db c. database_removed d c (DatabaseName db)"
    "db_patch d" "db_remove_and_update d" "\<lambda>db x. db_ready d x (DatabaseName db)"
    "handleDeletion_Database d" "Reconcile_Database d" "\<lambda>db. database_texts d (DatabaseName db)"
  for d :: "'w deps"
proof unfold_locales
  fix db c s ra s'
  assume "db_apply d db c s = (ra, s')"
  then obtain r where "CreateDatabase d c (DatabaseName db) s = (r, s')" by (auto simp: db_apply_def split: go_splits)
  then show "sends (database_texts d (DatabaseName db)) s s'" by (rule database_sends)
qed (rule database_sends)

interpretation ut: sql_texts d User_kind User_object user_ObjectMeta "\<lambda>user. us_SQLTemplate (user_Spec user)"
    user_conditions "user_add_finalizer d" "user_remove_finalizer d" "Get_User d" "Update_User d"
    "\<lambda>user. connectToPostgres d (om_Namespace (user_ObjectMeta user)) (us_PostgresRef (user_Spec user))"
    "user_apply d" "\<lambda>user c. DropRole d c (RoleName user)"
    "\<lambda>user _. ''Role '' @ fmt_q d (RoleName user) @ '' exists''"
    resolved_User "user_applied d" "\<lambda>user c. role_removed d c (RoleName user)"
    "user_patch d" "user_remove_and_update d" "\<lambda>user x. user_ready d x (RoleName user)"
    "handleDeletion_User d" "Reconcile_User d" "\<lambda>user. role_texts d (RoleName user)"
  for d :: "'w deps"
proof unfold_locales
  fix user c s ra s'
  assume run: "user_apply d user c s = (ra, s')"
  obtain rp s1 where g: "getSecretValue d (om_Namespace (user_ObjectMeta user)) (us_PasswordSecretKeyRef (user_Spec user)) s = (rp, s1)"
    by (cases "getSecretValue d (om_Namespace (user_ObjectMeta user)) (us_PasswordSecretKeyRef (user_Spec user)) s")
  have q: "sends (role_texts d (RoleName user)) s s1" 
    by (rule getSecretValue_emits [OF g]) (erule sends_call, simp)
  from run g have "s' = s1 \<or> (\<exists>password r. CreateOrUpdateRole d c (RoleName user) password s1 = (r, s'))"
    by (auto simp: user_apply_def split: go_splits)
  then show "sends (role_texts d (RoleName user)) s s'"
  proof
    assume "\<exists>password r. CreateOrUpdateRole d c (RoleName user) password s1 = (r, s')"
    then obtain password r where "CreateOrUpdateRole d c (RoleName user) password s1 = (r, s')" by blast
    from sends_trans [OF q role_sends(1) [OF this]] show ?thesis .
  qed (use q in simp)
qed (rule role_sends)

interpretation gt: sql_texts d Grant_kind Grant_object grant_ObjectMeta "\<lambda>grant. gs_SQLTemplate (grant_Spec grant)"
    grant_conditions "grant_add_finalizer d" "grant_remove_finalizer d" "Get_Grant d" "Update_Grant d"
    "\<lambda>grant. connectToDatabase d (om_Namespace (grant_ObjectMeta grant)) (gs_PostgresRef (grant_Spec grant))
       (gs_Database (grant_Spec grant))"
    "grant_apply d" "\<lambda>grant c. RevokePrivileges d c (grant_opts grant)"
    "\<lambda>_ grant. ''Privileges granted on '' @ fmt_q d (gs_Database (grant_Spec grant))
       @ '' to '' @ fmt_q d (gs_Role (grant_Spec grant))"
    resolved_Grant "\<lambda>grant c. batch_ok c (grant_statements d (grant_opts grant))"
    "\<lambda>grant c. batch_ok c (revoke_statements d (grant_opts grant))"
    "grant_patch d" "grant_remove_and_update d" "\<lambda>_. grant_ready d"
    "handleDeletion_Grant d" "Reconcile_Grant d" "\<lambda>grant. grant_texts d (grant_opts grant)"
  for d :: "'w deps"
proof unfold_locales
  fix grant c s ra s'
  assume "grant_apply d grant c s = (ra, s')"
  then obtain r where "GrantPrivileges d c (grant_opts grant) s = (r, s')" by (auto simp: grant_apply_def split: go_splits)
  then show "sends (grant_texts d (grant_opts grant)) s s'" by (rule grant_sends)
qed (rule grant_sends)

section \<open>Requests and workers\<close>

lemma pg_attempt_texts: "pg_attempt pg ok evs closing \<Longrightarrow> list_all (exec_in Q) (evs @ closing)"
  by (induction rule: pg_attempt.induct) simp_all

lemma Reconcile_texts:
  assumes "Reconcile d k req s = (r, s')" "emits s s' (pre @ EvExec c q re # post)"
  shows "\<exists>x. fetched req x \<in> set pre \<and> kind_of x = k \<and> q \<in> object_texts d x"
proof (cases k)
  case PostgreSQL_kind
  with assms(1) have "Reconcile_PostgreSQL d req s = (r, s')" by simp
  then have "\<exists>evs. emits s s' evs \<and> list_all (exec_in {}) evs"
  proof (cases rule: Reconcile_PostgreSQL_cases)
    case (failed pg s1 evs msg ev closing)
    from pg_attempt_texts [OF failed(2)] exec_in_kinds(2) [OF pg_patched_kinds(1) [OF failed(4)]] failed(3)
    show ?thesis by (intro exI conjI) auto
  next
    case (connected pg s1 evs ev closing s2 s3)
    from pg_attempt_texts [OF connected(2)] exec_in_kinds(2) [OF pg_patched_kinds(1) [OF connected(4)]] connected(3)
    show ?thesis by (intro exI conjI) auto
  qed (intro exI conjI, assumption, simp)+
  with emits_unique [OF assms(2)] show ?thesis by fastforce
next
  case Database_kind
  with assms(1) have "Reconcile_Database d req s = (r, s')" by simp
  from dbt.executed_text [OF this assms(2)] obtain x where
    "fetched req (Database_object x) \<in> set pre" "q \<in> object_texts d (Database_object x)" by (auto simp: fetched_def)
  with Database_kind show ?thesis by (intro exI [of _ "Database_object x"]) simp
next
  case User_kind
  with assms(1) have "Reconcile_User d req s = (r, s')" by simp
  from ut.executed_text [OF this assms(2)] obtain x where
    "fetched req (User_object x) \<in> set pre" "q \<in> object_texts d (User_object x)" by (auto simp: fetched_def)
  with User_kind show ?thesis by (intro exI [of _ "User_object x"]) simp
next
  case Grant_kind
  with assms(1) have "Reconcile_Grant d req s = (r, s')" by simp
  from gt.executed_text [OF this assms(2)] obtain x where
    "fetched req (Grant_object x) \<in> set pre" "q \<in> object_texts d (Grant_object x)" by (auto simp: fetched_def)
  with Grant_kind show ?thesis by (intro exI [of _ "Grant_object x"]) simp
next
  case Secret_kind
  with assms emits_unique [OF assms(2), of "[]"] show ?thesis by (simp add: emits_refl)
qed

lemma same_texts:
  assumes "same_code d d'"
  shows "object_texts d' x = object_texts d x"
proof -
  have "pgx_Sanitize d' = pgx_Sanitize d" using assms by (simp add: same_code_def)
  then show ?thesis using same_statements(5,6) [OF assms]
    by (cases x) (simp_all add: grant_texts_def role_texts_def database_texts_def alterRoleStmt_def createRoleStmt_def
      image_def)
qed

lemma worker_texts:
  assumes "worker d k (pre @ EvExec c q re # post)"
  shows "\<exists>key x. fetched key x \<in> set pre \<and> kind_of x = k \<and> q \<in> object_texts d x"
  using assms
proof (induction "pre @ EvExec c q re # post" arbitrary: post rule: worker.induct)
  case (request h d' req s r s' evs rest)
  from request.hyps(6) show ?case
  proof (cases rule: append_split)
    case (new pre')
    with request.hyps(5) have "emits s s' (pre' @ EvExec c q re # (post @ rest))" by simp
    from Reconcile_texts [OF request.hyps(4) this] new(1) same_texts [OF request.hyps(3)] show ?thesis by auto
  qed (use request.hyps(2) in blast)
qed simp

end
