(* ===== verification/Cluster.thy ===== *)
theory Cluster
  imports SentTexts PgServer SqlRefinement
begin

text \<open>
  The clusters under a history of all controllers at once. Each call acts on the cluster its connection
  leads to; between two calls the outside world may change any cluster as \<open>env\<close> allows. What each
  controller can do to the databases and roles is bounded by the statements it sends, so what one has
  established cannot be undone by the others.
\<close>

section \<open>Databases and roles\<close>

type_synonym shared_state = "string set \<times> (string \<rightharpoonup> bool \<times> string)"

fun shared_effect :: "stmt \<Rightarrow> shared_state \<Rightarrow> shared_state" where
  "shared_effect (CreateDatabaseS n) (D, R) = (insert n D, R)"
| "shared_effect (DropDatabaseS n) (D, R) = (D - {n}, R)"
| "shared_effect (CreateRoleS n p) (D, R) = (D, R(n \<mapsto> (True, p)))"
| "shared_effect (AlterRoleS n p) (D, R) = (D, R(n \<mapsto> (True, p)))"
| "shared_effect (DropRoleS n) (D, R) = (D, R(n := None))"
| "shared_effect _ \<sigma> = \<sigma>"

text \<open>It is what \<open>exec_stmt\<close> does to this part of the state.\<close>

lemma exec_shared:
  "exec_stmt st p = Some p' \<Longrightarrow> (pg_databases p', pg_roles p') = shared_effect st (pg_databases p, pg_roles p)"
  by (induction st p rule: exec_stmt.induct) (auto split: if_splits option.splits)

text \<open>The kind of object a statement is about.\<close>

fun stmt_kind :: "stmt \<Rightarrow> object_kind" where
  "stmt_kind (CreateDatabaseS n) = Database_kind"
| "stmt_kind (DropDatabaseS n) = Database_kind"
| "stmt_kind (CreateRoleS n p) = User_kind"
| "stmt_kind (AlterRoleS n p) = User_kind"
| "stmt_kind (DropRoleS n) = User_kind"
| "stmt_kind _ = Grant_kind"

lemma shared_effect_kind:
  "stmt_kind st \<noteq> Database_kind \<Longrightarrow> fst (shared_effect st \<sigma>) = fst \<sigma>"
  "stmt_kind st \<noteq> User_kind \<Longrightarrow> snd (shared_effect st \<sigma>) = snd \<sigma>"
  by (induction st \<sigma> rule: shared_effect.induct) auto

lemma grant_kinds:
  "list_all (\<lambda>st. stmt_kind st = Grant_kind) (grant_stmts ps opts)"
  "list_all (\<lambda>st. stmt_kind st = Grant_kind) (revoke_stmts ps opts)"
  by (simp_all add: grant_stmts_def revoke_stmts_def)

section \<open>Objects with names PostgreSQL takes\<close>

fun named :: "client_object \<Rightarrow> bool" where
  "named (PostgreSQL_object pg) = True"
| "named (Database_object db) = pg_name (DatabaseName db)"
| "named (User_object user) = pg_name (RoleName user)"
| "named (Grant_object grant) = (\<exists>ps. good_opts ps (grant_opts grant))"

lemma text_statement:
  assumes "sanitize_ok (pgx_Sanitize d)" "named x" "q \<in> object_texts d x"
  shows "\<not> nul_free q \<or> (\<exists>st. wf_stmt st \<and> lexes_to std q (stmt_tokens st) \<and> stmt_kind st = kind_of x)"
proof (cases x)
  case (PostgreSQL_object pg)
  with assms(3) show ?thesis by simp
next
  case (Database_object db)
  with assms(2) have n: "pg_name (DatabaseName db)" by simp
  note lex = database_statements_lex(1,2) [OF assms(1) pg_name_nul [OF n], of std]
  from assms(3) Database_object consider "q = ''CREATE DATABASE '' @ pgx_Sanitize d [DatabaseName db]"
    | "q = ''DROP DATABASE '' @ pgx_Sanitize d [DatabaseName db]" by (auto simp: database_texts_def)
  then show ?thesis
  proof cases
    case 1
    with n lex Database_object show ?thesis by (intro disjI2 exI [of _ "CreateDatabaseS (DatabaseName db)"]) simp
  next
    case 2
    with n lex Database_object show ?thesis by (intro disjI2 exI [of _ "DropDatabaseS (DatabaseName db)"]) simp
  qed
next
  case (User_object user)
  with assms(2) have n: "pg_name (RoleName user)" by simp
  note nul = pg_name_nul [OF n]
  note lex = database_statements_lex(3) [OF assms(1) nul, of std] alterRole_lex [OF assms(1) nul, of _ std]
    createRole_lex [OF assms(1) nul, of _ std]
  from assms(3) User_object consider "q = ''DROP ROLE '' @ pgx_Sanitize d [RoleName user]"
    | p where "q = alterRoleStmt d (RoleName user) p" | p where "q = createRoleStmt d (RoleName user) p"
    by (auto simp: role_texts_def)
  then show ?thesis
  proof cases
    case 1
    with n lex User_object show ?thesis by (intro disjI2 exI [of _ "DropRoleS (RoleName user)"]) simp
  next
    case (2 p)
    have "\<exists>st. wf_stmt st \<and> lexes_to std q (stmt_tokens st) \<and> stmt_kind st = User_kind" if "nul_free p"
      using 2 n lex(2) [OF that] by (intro exI [of _ "AlterRoleS (RoleName user) (stored_value std p)"]) simp
    with 2 User_object role_text_nul(1) show ?thesis by auto
  next
    case (3 p)
    have "\<exists>st. wf_stmt st \<and> lexes_to std q (stmt_tokens st) \<and> stmt_kind st = User_kind" if "nul_free p"
      using 3 n lex(3) [OF that] by (intro exI [of _ "CreateRoleS (RoleName user) (stored_value std p)"]) simp
    with 3 User_object role_text_nul(2) show ?thesis by auto
  qed
next
  case (Grant_object grant)
  with assms(2) obtain ps where g: "good_opts ps (grant_opts grant)" by auto
  have "\<exists>st. wf_stmt st \<and> lexes_to std q (stmt_tokens st) \<and> stmt_kind st = Grant_kind"
    if "list_all2 (\<lambda>q st. lexes_to std q (stmt_tokens st)) qs sts" "list_all wf_stmt sts"
      "list_all (\<lambda>st. stmt_kind st = Grant_kind) sts" "q \<in> set qs" for qs sts
    using that by (induction qs sts rule: list_all2_induct) auto
  from this [OF good_lex(1) [OF assms(1) g] good_wf(1) [OF g] grant_kinds(1)]
    this [OF good_lex(2) [OF assms(1) g] good_wf(2) [OF g] grant_kinds(2)] assms(3) Grant_object
  show ?thesis by (auto simp: grant_texts_def)
qed

section \<open>Histories and clusters\<close>

text \<open>
  The effect of one call on the clusters \<open>v\<close>, one per instance; \<open>inst\<close> says to which one a connection
  leads. A statement that is read as \<open>st\<close> has the effect of \<open>st\<close> when it succeeds; when it fails, or when its
  answer was not awaited, it had that effect or none. A text with the character with code zero fails
  without an effect; of any other text that is no such statement nothing is known. The two queries are answered from the cluster.
\<close>

fun call_effect :: "bool \<Rightarrow> (pgx_conn \<Rightarrow> 'i) \<Rightarrow> event \<Rightarrow> ('i \<Rightarrow> shared_state) \<Rightarrow> ('i \<Rightarrow> shared_state) \<Rightarrow> bool" where
  "call_effect std inst (EvExec c q r) v v' \<longleftrightarrow>
     (\<exists>\<sigma>. v' = v(inst c := \<sigma>) \<and>
        (\<forall>st. wf_stmt st \<longrightarrow> lexes_to std q (stmt_tokens st) \<longrightarrow>
           \<sigma> = shared_effect st (v (inst c)) \<or> r \<noteq> None \<and> \<sigma> = v (inst c)) \<and>
        (nul_free q \<or> r \<noteq> None \<and> \<sigma> = v (inst c)))"
| "call_effect std inst (EvQuery c q n r) v v' \<longleftrightarrow>
     v' = v \<and> (\<forall>b. r = Inr b \<longrightarrow> pg_name n \<longrightarrow>
       (q = databaseExistsQuery \<longrightarrow> b = (n \<in> fst (v (inst c)))) \<and>
       (q = roleExistsQuery \<longrightarrow> b = (snd (v (inst c)) n \<noteq> None)))"
| "call_effect std inst ev v v' \<longleftrightarrow> v' = v"

inductive cluster_run ::
  "bool \<Rightarrow> (pgx_conn \<Rightarrow> 'i) \<Rightarrow> (shared_state \<Rightarrow> shared_state \<Rightarrow> bool) \<Rightarrow> ('i \<Rightarrow> shared_state) \<Rightarrow> history
     \<Rightarrow> ('i \<Rightarrow> shared_state) \<Rightarrow> bool"
  for std inst env v0 where
  start: "cluster_run std inst env v0 [] v0"
| outside: "cluster_run std inst env v0 h v \<Longrightarrow> env (v i) \<sigma> \<Longrightarrow> cluster_run std inst env v0 h (v(i := \<sigma>))"
| call: "cluster_run std inst env v0 h v \<Longrightarrow> call_effect std inst ev v v' \<Longrightarrow>
    cluster_run std inst env v0 (h @ [(k, ev)]) v'"

lemma cluster_run_split:
  assumes "cluster_run std inst env v0 (a @ b) v"
  shows "\<exists>v1. cluster_run std inst env v0 a v1 \<and> cluster_run std inst env v1 b v"
  using assms
proof (induction "a @ b" v arbitrary: b rule: cluster_run.induct)
  case start
  then show ?case by (auto intro: cluster_run.start)
next
  case (outside v i \<sigma>)
  then show ?case by (blast intro: cluster_run.outside)
next
  case (call h v ev v' k)
  show ?case
  proof (cases b rule: rev_cases)
    case Nil
    with call have "cluster_run std inst env v0 a v'" by (metis append_Nil2 cluster_run.call)
    with Nil show ?thesis by (auto intro: cluster_run.start)
  next
    case (snoc b' y)
    with call.hyps(4) have "h = a @ b'" "y = (k, ev)" by auto
    with call snoc show ?thesis by (blast intro: cluster_run.call)
  qed
qed

text \<open>
  What is stable: a property \<open>P\<close> of one cluster the outside keeps, when no call of the history can break
  it. \<open>others_kind k P\<close>: no statement about another kind than \<open>k\<close> breaks it. \<open>brings\<close>: a call makes it true.
\<close>

definition keeps :: "(shared_state \<Rightarrow> shared_state \<Rightarrow> bool) \<Rightarrow> (shared_state \<Rightarrow> bool) \<Rightarrow> bool" where
  "keeps env P \<longleftrightarrow> (\<forall>\<sigma> \<sigma>'. env \<sigma> \<sigma>' \<longrightarrow> P \<sigma> \<longrightarrow> P \<sigma>')"

lemma keepsD: "keeps env P \<Longrightarrow> env \<sigma> \<sigma>' \<Longrightarrow> P \<sigma> \<Longrightarrow> P \<sigma>'"
  unfolding keeps_def by blast

definition others_kind :: "object_kind \<Rightarrow> (shared_state \<Rightarrow> bool) \<Rightarrow> bool" where
  "others_kind k P \<longleftrightarrow> (\<forall>st \<sigma>. stmt_kind st \<noteq> k \<longrightarrow> P \<sigma> \<longrightarrow> P (shared_effect st \<sigma>))"

definition brings :: "bool \<Rightarrow> (pgx_conn \<Rightarrow> 'i) \<Rightarrow> event \<Rightarrow> 'i \<Rightarrow> (shared_state \<Rightarrow> bool) \<Rightarrow> bool" where
  "brings std inst ev i P \<longleftrightarrow> (\<forall>v v'. call_effect std inst ev v v' \<longrightarrow> P (v' i))"

definition harmless :: "bool \<Rightarrow> (shared_state \<Rightarrow> bool) \<Rightarrow> event \<Rightarrow> bool" where
  "harmless std P ev \<longleftrightarrow> (\<forall>c q r. ev = EvExec c q r \<longrightarrow> \<not> nul_free q \<or>
     (\<exists>st. wf_stmt st \<and> lexes_to std q (stmt_tokens st) \<and> (\<forall>\<sigma>. P \<sigma> \<longrightarrow> P (shared_effect st \<sigma>))))"

lemma call_effect_stable:
  assumes "call_effect std inst ev v v'" "P (v i)" "harmless std P ev"
  shows "P (v' i)"
proof (cases "\<exists>c q r. ev = EvExec c q r")
  case True
  then obtain c q r where ev: "ev = EvExec c q r" by blast
  from assms(1) [unfolded ev call_effect.simps] obtain \<sigma> where \<sigma>: "v' = v(inst c := \<sigma>)"
    "\<forall>st. wf_stmt st \<longrightarrow> lexes_to std q (stmt_tokens st) \<longrightarrow>
      \<sigma> = shared_effect st (v (inst c)) \<or> r \<noteq> None \<and> \<sigma> = v (inst c)"
    "nul_free q \<or> r \<noteq> None \<and> \<sigma> = v (inst c)"
    by blast
  show ?thesis
  proof (cases "nul_free q")
    case True
    with ev assms(3) obtain st where st: "wf_stmt st" "lexes_to std q (stmt_tokens st)"
      "\<forall>\<sigma>. P \<sigma> \<longrightarrow> P (shared_effect st \<sigma>)" unfolding harmless_def by blast
    with \<sigma>(1,2) have "v' = v(inst c := \<sigma>)" "\<sigma> = shared_effect st (v (inst c)) \<or> \<sigma> = v (inst c)" by blast+
    with st(3) [rule_format, of "v (inst c)"] assms(2) show ?thesis by (cases "inst c = i") auto
  next
    case False
    with \<sigma>(1,3) assms(2) show ?thesis by simp
  qed
next
  case False
  with assms(1) have "v' = v" by (cases ev) auto
  with assms(2) show ?thesis by simp
qed

lemma cluster_run_stable:
  assumes "cluster_run std inst env v0 h v" "P (v0 i)" "keeps env P"
    and "list_all (\<lambda>x. harmless std P (snd x)) h"
  shows "P (v i)"
  using assms(1,4)
proof (induction rule: cluster_run.induct)
  case start
  show ?case by (rule assms(2))
next
  case (outside h v j \<sigma>)
  then show ?case using keepsD [OF assms(3) outside.hyps(2)] by (cases "j = i") auto
next
  case (call h v ev v' k)
  then have "P (v i)" "harmless std P ev" by simp_all
  then show ?case by (rule call_effect_stable [OF call.hyps(2)])
qed

text \<open>After a call itself, and whatever the outside did since the state before it.\<close>

lemma cluster_run_call:
  assumes "cluster_run std inst env v0 [(k, ev)] v" "keeps env P"
    and "brings std inst ev i P"
  shows "P (v i)"
proof -
  have "P (v i)" if "cluster_run std inst env v0 h v" "h = [(k, ev)]" for h v
    using that
  proof (induction rule: cluster_run.induct)
    case (outside h v j \<sigma>)
    then show ?case using keepsD [OF assms(2) outside.hyps(2)] by (cases "j = i") auto
  next
    case (call h v ev' v' k')
    with assms(3) show ?case unfolding brings_def by auto
  qed simp
  with assms(1) show ?thesis by blast
qed

section \<open>What one controller establishes the others keep\<close>

fun named_event :: "event \<Rightarrow> bool" where
  "named_event (EvGet k key (Inr (Fetched_object x))) = named x"
| "named_event _ = True"

lemma own_split:
  "own k h = a @ ev # b \<Longrightarrow> \<exists>h1 h2. h = h1 @ (k, ev) # h2 \<and> own k h1 = a \<and> own k h2 = b"
proof (induction h arbitrary: a)
  case (Cons x h)
  show ?case
  proof (cases "fst x = k")
    case True
    show ?thesis
    proof (cases a)
      case Nil
      with Cons.prems True have "x = (k, ev)" "own k h = b" by (cases x; simp)+
      with Nil show ?thesis by (intro exI [of _ "[]"] exI [of _ h]) simp
    next
      case (Cons y a')
      with Cons.prems True have "own k h = a' @ ev # b" "y = snd x" by auto
      with Cons.IH obtain h1 h2 where "h = h1 @ (k, ev) # h2" "own k h1 = a'" "own k h2 = b" by blast
      with True Cons \<open>y = snd x\<close> show ?thesis by (intro exI [of _ "x # h1"] exI [of _ h2]) simp
    qed
  next
    case False
    with Cons.prems have "own k h = a @ ev # b" by simp
    with Cons.IH obtain h1 h2 where "h = h1 @ (k, ev) # h2" "own k h1 = a" "own k h2 = b" by blast
    with False show ?thesis by (intro exI [of _ "x # h1"] exI [of _ h2]) simp
  qed
qed simp

lemma own_member: "ev \<in> set (own k h) \<longleftrightarrow> (k, ev) \<in> set h"
  by (force simp: own_def)

lemma history_statement:
  assumes "concurrent d (h1 @ (k, EvExec c q r) # h2)" "sanitize_ok (pgx_Sanitize d)"
    and "list_all named_event (map snd h1)"
  shows "\<not> nul_free q \<or> (\<exists>st. wf_stmt st \<and> lexes_to std q (stmt_tokens st) \<and> stmt_kind st = k)"
proof -
  have "worker d k (own k h1 @ EvExec c q r # own k h2)"
    using assms(1) unfolding concurrent_def by (auto dest: spec [of _ k])
  from worker_texts [OF this] obtain key x where x: "fetched key x \<in> set (own k h1)" "kind_of x = k" "q \<in> object_texts d x"
    by blast
  from x(1) own_member have "(k, fetched key x) \<in> set h1" by metis
  with assms(3) have "named x" by (force simp: list_all_iff fetched_def)
  from text_statement [OF assms(2) this x(3)] x(2) show ?thesis by auto
qed

lemma others_keep:
  assumes "concurrent d (h1 @ h2 @ h3)" "sanitize_ok (pgx_Sanitize d)" "list_all named_event (map snd (h1 @ h2))"
    and "list_all (exec_in {}) (own k h2)" "cluster_run std inst env v1 h2 v" "P (v1 i)"
    and "keeps env P"
    and "others_kind k P"
  shows "P (v i)"
proof (rule cluster_run_stable [OF assms(5,6,7)])
  have "harmless std P ev" if "(k', ev) \<in> set h2" for k' ev
    unfolding harmless_def
  proof (intro allI impI)
    fix c q r
    assume ev: "ev = EvExec c q r"
    obtain g1 g2 where "h2 = g1 @ (k', ev) # g2" using split_list [OF \<open>(k', ev) \<in> set h2\<close>] by blast
    with assms(1-3) history_statement [of d "h1 @ g1" k' c q r "g2 @ h3" std] ev
    have st: "\<not> nul_free q \<or> (\<exists>st. wf_stmt st \<and> lexes_to std q (stmt_tokens st) \<and> stmt_kind st = k')" by auto
    have "k' \<noteq> k" using assms(4) that ev own_member [of ev k h2] by (auto simp: list_all_iff)
    with st assms(8) show "\<not> nul_free q \<or> (\<exists>st. wf_stmt st \<and> lexes_to std q (stmt_tokens st) \<and> (\<forall>\<sigma>. P \<sigma> \<longrightarrow> P (shared_effect st \<sigma>)))"
      unfolding others_kind_def by blast
  qed
  then show "list_all (\<lambda>x. harmless std P (snd x)) h2" by (auto simp: list_all_iff)
qed

text \<open>
  A call \<open>ev0\<close> of the worker \<open>k\<close> after which \<open>P\<close> holds, and after which that worker executed nothing.
\<close>

lemma established:
  assumes "concurrent d (pre @ post)" "sanitize_ok (pgx_Sanitize d)" "list_all named_event (map snd pre)"
    and "own k pre = a @ ev0 # b" "list_all (exec_in {}) b" "cluster_run std inst env v0 pre v"
    and "keeps env P" "others_kind k P"
    and "brings std inst ev0 i P"
  shows "P (v i)"
proof -
  obtain h1 h2 where h: "pre = h1 @ (k, ev0) # h2" "own k h2 = b" using own_split [OF assms(4)] by blast
  then have pre: "pre = h1 @ ([(k, ev0)] @ h2)" by simp
  obtain v1 v2 where v: "cluster_run std inst env v1 [(k, ev0)] v2" "cluster_run std inst env v2 h2 v"
    using cluster_run_split [OF assms(6) [unfolded pre]] cluster_run_split by metis
  note P = cluster_run_call [where P = P and i = i, OF v(1) assms(7,9)]
  show ?thesis
    by (rule others_keep [where P = P and i = i and ?h1.0 = "h1 @ [(k, ev0)]" and ?h3.0 = post, OF _ assms(2) _ _ v(2) P assms(7,8)])
      (use assms(1,3,5) h in \<open>simp_all\<close>)
qed

end
