(* ===== verification/ClusterProperties.thy ===== *)
theory ClusterProperties
  imports Cluster CtrlProperties
begin

text \<open>
  What a report and the removal of a finalizer say about the cluster when all controllers run at the same
  time and requests are cut short.
\<close>

section \<open>What a call brings about\<close>

abbreviation has_database :: "string \<Rightarrow> shared_state \<Rightarrow> bool" where
  "has_database n \<sigma> \<equiv> n \<in> fst \<sigma>"

abbreviation has_role :: "string \<Rightarrow> string \<Rightarrow> shared_state \<Rightarrow> bool" where
  "has_role n p \<sigma> \<equiv> snd \<sigma> n = Some (True, p)"

lemma kinds_apart:
  "others_kind Database_kind (has_database n)" "others_kind Database_kind (\<lambda>\<sigma>. \<not> has_database n \<sigma>)"
  "others_kind User_kind (has_role n p)" "others_kind User_kind (\<lambda>\<sigma>. snd \<sigma> n = None)"
  by (simp_all add: others_kind_def shared_effect_kind)

lemma brings_query:
  assumes "pg_name n"
  shows "brings std inst (EvQuery c databaseExistsQuery n (Inr True)) (inst c) (has_database n)"
    "brings std inst (EvQuery c databaseExistsQuery n (Inr False)) (inst c) (\<lambda>\<sigma>. \<not> has_database n \<sigma>)"
    "brings std inst (EvQuery c roleExistsQuery n (Inr False)) (inst c) (\<lambda>\<sigma>. snd \<sigma> n = None)"
  using assms by (auto simp: brings_def simp del: not_None_eq split_paired_All)

lemma brings_exec:
  assumes "wf_stmt st" "lexes_to std q (stmt_tokens st)" "\<And>\<sigma>. P (shared_effect st \<sigma>)"
  shows "brings std inst (EvExec c q None) (inst c) P"
  unfolding brings_def
proof (intro allI impI)
  fix v v'
  assume "call_effect std inst (EvExec c q None) v v'"
  then obtain \<sigma> where "v' = v(inst c := \<sigma>)" "\<forall>st. wf_stmt st \<longrightarrow> lexes_to std q (stmt_tokens st) \<longrightarrow>
      \<sigma> = shared_effect st (v (inst c))" by auto
  with assms show "P (v' (inst c))" by simp
qed

text \<open>A text with the character with code zero has no success.\<close>

lemma brings_text:
  assumes "nul_free q \<Longrightarrow> brings std inst (EvExec c q None) (inst c) P"
  shows "brings std inst (EvExec c q None) (inst c) P"
proof (cases "nul_free q")
  case False
  then show ?thesis by (simp add: brings_def)
qed (rule assms)

lemma brings_statement:
  assumes "sanitize_ok (pgx_Sanitize d)" "pg_name n"
  shows "brings std inst (EvExec c (''CREATE DATABASE '' @ pgx_Sanitize d [n]) None) (inst c) (has_database n)"
    "brings std inst (EvExec c (''DROP DATABASE '' @ pgx_Sanitize d [n]) None) (inst c) (\<lambda>\<sigma>. \<not> has_database n \<sigma>)"
    "brings std inst (EvExec c (alterRoleStmt d n p) None) (inst c) (has_role n (stored_value std p))"
    "brings std inst (EvExec c (createRoleStmt d n p) None) (inst c) (has_role n (stored_value std p))"
    "brings std inst (EvExec c (''DROP ROLE '' @ pgx_Sanitize d [n]) None) (inst c) (\<lambda>\<sigma>. snd \<sigma> n = None)"
proof -
  note nul = pg_name_nul [OF assms(2)]
  note db = database_statements_lex [OF assms(1) nul, of std]
  have effect: "has_database n (shared_effect (CreateDatabaseS n) \<sigma>)" "\<not> has_database n (shared_effect (DropDatabaseS n) \<sigma>)"
    "has_role n p (shared_effect (AlterRoleS n p) \<sigma>)" "has_role n p (shared_effect (CreateRoleS n p) \<sigma>)"
    "snd (shared_effect (DropRoleS n) \<sigma>) n = None" for \<sigma> p by (cases \<sigma>; simp)+
  show "brings std inst (EvExec c (''CREATE DATABASE '' @ pgx_Sanitize d [n]) None) (inst c) (has_database n)"
    by (rule brings_exec [where st = "CreateDatabaseS n"])
      (simp add: assms(2), unfold stmt_tokens.simps, rule db(1), rule effect(1))
  show "brings std inst (EvExec c (''DROP DATABASE '' @ pgx_Sanitize d [n]) None) (inst c) (\<lambda>\<sigma>. \<not> has_database n \<sigma>)"
    by (rule brings_exec [where st = "DropDatabaseS n"])
      (simp add: assms(2), unfold stmt_tokens.simps, rule db(2), rule effect(2))
  show "brings std inst (EvExec c (alterRoleStmt d n p) None) (inst c) (has_role n (stored_value std p))"
    by (rule brings_text, rule brings_exec [where st = "AlterRoleS n (stored_value std p)"])
      (simp add: assms(2), unfold stmt_tokens.simps, erule alterRole_lex [OF assms(1) nul role_text_nul(1)], rule effect(3))
  show "brings std inst (EvExec c (createRoleStmt d n p) None) (inst c) (has_role n (stored_value std p))"
    by (rule brings_text, rule brings_exec [where st = "CreateRoleS n (stored_value std p)"])
      (simp add: assms(2), unfold stmt_tokens.simps, erule createRole_lex [OF assms(1) nul role_text_nul(2)], rule effect(4))
  show "brings std inst (EvExec c (''DROP ROLE '' @ pgx_Sanitize d [n]) None) (inst c) (\<lambda>\<sigma>. snd \<sigma> n = None)"
    by (rule brings_exec [where st = "DropRoleS n"])
      (simp add: assms(2), unfold stmt_tokens.simps, rule db(3), rule effect(5))
qed

text \<open>The last call of a successful run of the SQL of an object, or of its cleanup.\<close>

lemma database_runs:
  assumes "sanitize_ok (pgx_Sanitize d)" "pg_name n"
  shows "database_ensured d c n evs \<Longrightarrow> \<exists>us ev. evs = us @ [ev] \<and> brings std inst ev (inst c) (has_database n)"
    "database_removed d c n evs \<Longrightarrow> \<exists>us ev. evs = us @ [ev] \<and> brings std inst ev (inst c) (\<lambda>\<sigma>. \<not> has_database n \<sigma>)"
proof -
  note b = brings_query [OF assms(2), of std inst c] brings_statement [OF assms, of std inst c]
  have two: "[x, y] = [x] @ [y]" for x y :: event by simp
  show "database_ensured d c n evs \<Longrightarrow> \<exists>us ev. evs = us @ [ev] \<and> brings std inst ev (inst c) (has_database n)"
    using b(1) b(4) two unfolding database_ensured_def by blast
  show "database_removed d c n evs \<Longrightarrow> \<exists>us ev. evs = us @ [ev] \<and> brings std inst ev (inst c) (\<lambda>\<sigma>. \<not> has_database n \<sigma>)"
    using b(2) b(5) two unfolding database_removed_def by blast
qed

lemma role_runs:
  assumes "sanitize_ok (pgx_Sanitize d)" "pg_name n"
  shows "role_ensured d c n p evs \<Longrightarrow> \<exists>us ev. evs = us @ [ev] \<and> brings std inst ev (inst c) (has_role n (stored_value std p))"
    "role_removed d c n evs \<Longrightarrow> \<exists>us ev. evs = us @ [ev] \<and> brings std inst ev (inst c) (\<lambda>\<sigma>. snd \<sigma> n = None)"
proof -
  note b = brings_query [OF assms(2), of std inst c] brings_statement [OF assms, of std inst c]
  have two: "[x, y] = [x] @ [y]" for x y :: event by simp
  show "role_ensured d c n p evs \<Longrightarrow> \<exists>us ev. evs = us @ [ev] \<and> brings std inst ev (inst c) (has_role n (stored_value std p))"
    using b(6,7) two unfolding role_ensured_def by blast
  show "role_removed d c n evs \<Longrightarrow> \<exists>us ev. evs = us @ [ev] \<and> brings std inst ev (inst c) (\<lambda>\<sigma>. snd \<sigma> n = None)"
    using b(3) b(8) two unfolding role_removed_def by blast
qed

section \<open>Reports\<close>

text \<open>
  What a report says of the cluster: the database is there; the role is there, may log in, and has the
  stored form of the password read from its secret by one of the calls \<open>evs\<close>.
\<close>

fun in_place :: "bool \<Rightarrow> event list \<Rightarrow> client_object \<Rightarrow> shared_state \<Rightarrow> bool" where
  "in_place std evs (Database_object db) \<sigma> = has_database (DatabaseName db) \<sigma>"
| "in_place std evs (User_object user) \<sigma> =
     (\<exists>secret password. EvGet Secret_kind (password_key user) (Inr (Fetched_Secret secret)) \<in> set evs \<and>
        secret_Data secret (skr_Key (us_PasswordSecretKeyRef (user_Spec user))) = Some password \<and>
        has_role (RoleName user) (stored_value std password) \<sigma>)"
| "in_place std evs _ \<sigma> = False"

lemma kind_with_finalizer: "kind_of (with_finalizer d x) = kind_of x" "kind_of (without_finalizer d x) = kind_of x"
  by (cases x; simp)+

lemma worker_at:
  assumes "concurrent d (pre @ (k, ev) # post)"
  shows "worker d k (own k pre @ ev # own k post)"
  using assms unfolding concurrent_def by (auto dest: spec [of _ k])

lemma fetched_named:
  assumes "list_all named_event (map snd pre)" "fetched key x \<in> set (own k pre)"
  shows "named x"
proof -
  have "(k, fetched key x) \<in> set pre" using assms(2) own_member by metis
  with assms(1) show ?thesis by (force simp: list_all_iff fetched_def)
qed

lemma written_own:
  assumes "worker d k h" "ev \<in> set h"
  shows "written_as k ev"
  using worker_writes [OF assms(1)] assms(2) by (simp add: list_all_iff)

lemma applied_in_place:
  assumes "concurrent d (pre @ post)" "sanitize_ok (pgx_Sanitize d)" "list_all named_event (map snd pre)"
    and "own k pre = a @ levs @ ups" "list_all (exec_in {}) ups" "kind_of x = k" "named x"
    and "k \<in> {Database_kind, User_kind}" "sql_applied d x c levs" "cluster_run std inst env v0 pre v"
    and "\<forall>\<sigma> \<sigma>'. env \<sigma> \<sigma>' \<longrightarrow> fst \<sigma> \<subseteq> fst \<sigma>' \<and> snd \<sigma> \<subseteq>\<^sub>m snd \<sigma>'"
  shows "in_place std levs x (v (inst c))"
proof (cases x)
  case (Database_object db)
  with assms(7,9) database_runs(1) [OF assms(2)] obtain us ev where
    ev: "levs = us @ [ev]" "brings std inst ev (inst c) (has_database (DatabaseName db))" by fastforce
  have own: "own k pre = (a @ us) @ ev # ups" using assms(4) ev(1) by simp
  have "keeps env (has_database (DatabaseName db))" using assms(11) unfolding keeps_def by blast
  from established [OF assms(1-3) own assms(5,10) this _ ev(2)] kinds_apart(1) assms(6) Database_object
  show ?thesis by simp
next
  case (User_object user)
  with assms(9) obtain secret password levs' where l: "levs = EvGet Secret_kind (password_key user) (Inr (Fetched_Secret secret)) # levs'"
    "secret_Data secret (skr_Key (us_PasswordSecretKeyRef (user_Spec user))) = Some password"
    "role_ensured d c (RoleName user) password levs'" by (auto simp: user_applied_def)
  let ?P = "has_role (RoleName user) (stored_value std password)"
  have "pg_name (RoleName user)" using assms(7) User_object by simp
  from role_runs(1) [OF assms(2) this l(3)] obtain us ev where
    ev: "levs' = us @ [ev]" "brings std inst ev (inst c) ?P" by blast
  have own: "own k pre = (a @ hd levs # us) @ ev # ups" using assms(4) ev(1) l(1) by simp
  have "keeps env ?P" using assms(11) unfolding keeps_def map_le_def by (metis domIff option.distinct(1))
  from established [OF assms(1-3) own assms(5,10) this _ ev(2)] kinds_apart(3) assms(6) User_object
  have "?P (v (inst c))" by simp
  with User_object l show ?thesis by auto
qed (use assms(6,8) in auto)

lemma ready_allowed_sql:
  assumes "ready_allowed d orig evs" "kind_of orig \<noteq> PostgreSQL_kind"
  obtains x key c cevs levs ups where "evs = fetched key x # cevs @ levs @ ups" "resolved_for x (Inr c) cevs"
    "sql_applied d x (conn c) levs" "ups = [] \<and> orig = x \<or> ups = [EvUpdate (with_finalizer d x) (Inr orig)]"
proof -
  have "\<forall>pg. orig \<noteq> PostgreSQL_object pg" using assms(2) by auto
  with assms(1) obtain x key c cevs levs ups where a: "evs = fetched key x # cevs @ levs @ ups"
    "resolved_for x (Inr c) cevs" "sql_applied d x (conn c) levs"
    "if ContainsFinalizer d (object_meta x) FinalizerName then ups = [] \<and> orig = x
     else ups = [EvUpdate (with_finalizer d x) (Inr orig)]" unfolding ready_allowed_def by blast
  from a(4) have "ups = [] \<and> orig = x \<or> ups = [EvUpdate (with_finalizer d x) (Inr orig)]" by (simp split: if_splits)
  then show ?thesis by (rule that [OF a(1-3)])
qed

text \<open>C6: A report is true when it is made, even when all controllers run at the same time and requests are
cut short: when the status that makes a database or a user \<open>Ready\<close> is sent, the database is in the
cluster its request connected to, or the role is there with the stored form of the password its request
read from the secret (\<open>stored_value\<close>: by default each backslash arrives twice). The names are ones PostgreSQL takes, the
privileges of grants are documented ones, and nobody but the operator removes databases or changes roles.\<close>

theorem ready_in_place:
  assumes "sanitize_ok (pgx_Sanitize d)" "sets_status (SetStatusCondition d)" "concurrent d h"
    and "h = pre @ (k, EvPatch orig ob e) # post" "object_ready ob" "k \<in> {Database_kind, User_kind}"
    and "list_all named_event (map snd pre)" "cluster_run std inst env v0 pre v"
    and "\<forall>\<sigma> \<sigma>'. env \<sigma> \<sigma>' \<longrightarrow> fst \<sigma> \<subseteq> fst \<sigma>' \<and> snd \<sigma> \<subseteq>\<^sub>m snd \<sigma>'"
  shows "\<exists>past key x c cevs rest. own k pre = past @ fetched key x # cevs @ rest \<and>
    (orig = x \<or> EvUpdate (with_finalizer d x) (Inr orig) \<in> set rest) \<and>
    resolved_for x (Inr c) cevs \<and> in_place std rest x (v (inst (conn c)))"
proof -
  have w: "worker d k (own k pre @ EvPatch orig ob e # own k post)" using worker_at assms(3,4) by blast
  obtain past evs where evs: "own k pre = past @ evs" "ready_allowed d orig evs"
    using worker_reports [OF w assms(2,5)] by blast
  have ko: "kind_of orig = k" using written_own [OF w, of "EvPatch orig ob e"] by simp
  with assms(6) have "kind_of orig \<noteq> PostgreSQL_kind" by auto
  with evs(2) obtain x key c cevs levs ups where a: "evs = fetched key x # cevs @ levs @ ups"
    "resolved_for x (Inr c) cevs" "sql_applied d x (conn c) levs"
    "ups = [] \<and> orig = x \<or> ups = [EvUpdate (with_finalizer d x) (Inr orig)]" by (rule ready_allowed_sql)
  have "EvUpdate (with_finalizer d x) (Inr orig) \<in> set (own k pre) \<or> orig = x" using a(1,4) evs(1) by auto
  then have k: "kind_of x = k"
    using written_own [OF w, of "EvUpdate (with_finalizer d x) (Inr orig)"] kind_with_finalizer(1) [of d x] ko by auto
  have n: "named x" using fetched_named [OF assms(7), of key x k] evs(1) a(1) by simp
  have ups: "list_all (exec_in {}) ups" using a(4) by auto
  have "own k pre = (past @ fetched key x # cevs) @ levs @ ups" using evs(1) a(1) by simp
  from applied_in_place [OF assms(3) [unfolded assms(4)] assms(1,7) this ups k n assms(6) a(3) assms(8,9)]
  have "in_place std (levs @ ups) x (v (inst (conn c)))" by (cases x) auto
  moreover have "orig = x \<or> EvUpdate (with_finalizer d x) (Inr orig) \<in> set (levs @ ups)" using a(4) by auto
  ultimately show ?thesis using evs(1) a(1,2) by blast
qed

section \<open>Samples\<close>

text \<open>Events that are no SQL, appended to a run; and a statement that succeeds.\<close>

lemma cluster_run_quiet:
  assumes "cluster_run std inst env v0 h v" "list_all (\<lambda>ev. \<forall>c. \<not> sql_on c ev) evs"
  shows "cluster_run std inst env v0 (h @ map (Pair k) evs) v"
  using assms(2)
proof (induction evs rule: rev_induct)
  case Nil
  with assms(1) show ?case by simp
next
  case (snoc ev evs)
  then have IH: "cluster_run std inst env v0 (h @ map (Pair k) evs) v" by simp
  from snoc.prems have "call_effect std inst ev v v" by (cases ev) auto
  from cluster_run.call [OF IH this, of k] show ?case by simp
qed

lemma call_effect_statement:
  assumes "wf_stmt st" "lexes_to std q (stmt_tokens st)"
  shows "call_effect std inst (EvExec c q None) v (v(inst c := shared_effect st (v (inst c))))"
proof -
  have "st' = st" if "wf_stmt st'" "lexes_to std q (stmt_tokens st')" for st'
  proof -
    have "stmt_tokens st' = stmt_tokens st" using assms(2) that(2) by (simp add: lexes_to_def)
    with parse_stmt_tokens [OF assms(1)] parse_stmt_tokens [OF that(1)] show ?thesis by simp
  qed
  with lexes_nul [OF assms(2)] show ?thesis unfolding call_effect.simps
    by (intro exI [of _ "shared_effect st (v (inst c))"] conjI refl allI impI disjI1) simp
qed

text \<open>A successful run of the SQL of a database, or of its cleanup, from a cluster that answers its query.\<close>

lemma asked_run:
  assumes "pg_name n" "levs = [EvQuery c databaseExistsQuery n (Inr b)] \<or>
      levs = [EvQuery c databaseExistsQuery n (Inr b), EvExec c q None]"
    and "wf_stmt st" "lexes_to std q (stmt_tokens st)"
  shows "\<exists>\<sigma>. \<forall>k h. cluster_run std (\<lambda>_. ()) env (\<lambda>_. \<sigma>) h (\<lambda>_. \<sigma>) \<longrightarrow>
    (\<exists>v. cluster_run std (\<lambda>_. ()) env (\<lambda>_. \<sigma>) (h @ map (Pair k) levs) v)"
proof -
  let ?\<sigma> = "(if b then {n} else {}, Map.empty) :: shared_state"
  let ?v = "\<lambda>_ :: unit. ?\<sigma>"
  have ask: "call_effect std (\<lambda>_. ()) (EvQuery c databaseExistsQuery n (Inr b)) ?v ?v" by (simp add: queries_differ)
  from call_effect_statement [OF assms(3,4), of "\<lambda>_. ()" c ?v]
  obtain v where run: "call_effect std (\<lambda>_. ()) (EvExec c q None) ?v v" by blast
  have "\<exists>v. cluster_run std (\<lambda>_. ()) env ?v (h @ map (Pair k) levs) v" if h: "cluster_run std (\<lambda>_. ()) env ?v h ?v" for k h
    using assms(2) cluster_run.call [OF h ask, of k] cluster_run.call [OF cluster_run.call [OF h ask, of k] run, of k]
    by auto
  then show ?thesis by (intro exI [of _ ?\<sigma>]) blast
qed

lemma database_cluster_run:
  assumes "sanitize_ok (pgx_Sanitize d)" "pg_name n" "database_ensured d c n levs \<or> database_removed d c n levs"
  shows "\<exists>\<sigma>. \<forall>k h. cluster_run std (\<lambda>_. ()) env (\<lambda>_. \<sigma>) h (\<lambda>_. \<sigma>) \<longrightarrow>
    (\<exists>v. cluster_run std (\<lambda>_. ()) env (\<lambda>_. \<sigma>) (h @ map (Pair k) levs) v)"
proof -
  note lex = database_statements_lex(1,2) [OF assms(1) pg_name_nul [OF assms(2)], of std, folded stmt_tokens.simps]
  from assms(3) show ?thesis
  proof
    assume "database_ensured d c n levs"
    then show ?thesis
      using asked_run [OF assms(2) _ _ lex(1)] assms(2) unfolding database_ensured_def wf_stmt.simps by blast
  next
    assume "database_removed d c n levs"
    then show ?thesis
      using asked_run [OF assms(2) _ _ lex(2)] assms(2) unfolding database_removed_def wf_stmt.simps by blast
  qed
qed

lemma resolution_named: "resolution dbname namespace ref rc evs \<Longrightarrow> list_all named_event evs"
  by (induction rule: resolution.induct) simp_all

lemma resolution_fetched: "resolution dbname namespace ref rc evs \<Longrightarrow> fetched key x \<in> set evs \<Longrightarrow> kind_of x = PostgreSQL_kind"
  by (induction rule: resolution.induct) (auto simp: fetched_def)

text \<open>A worker alone.\<close>

lemma own_alone: "own k (map (Pair k) evs) = evs" "k' \<noteq> k \<Longrightarrow> own k' (map (Pair k) evs) = []"
  by (induction evs) simp_all

lemma alone_concurrent:
  assumes "Reconcile d k req s = (r, s')" "emits s s' (evs @ rest)"
  shows "concurrent d (map (Pair k) evs)"
  unfolding concurrent_def
proof
  fix k'
  from worker.request [OF worker.idle same_code_refl assms]
  show "worker d k' (own k' (map (Pair k) evs))"
    using worker.idle [of d k'] by (cases "k' = k") (simp_all add: own_alone)
qed

theorem ready_in_place_witness:
  "\<exists>v0 v pre orig ob e. concurrent ref_deps (map (Pair Database_kind) (pre @ [EvPatch orig ob e])) \<and> object_ready ob \<and>
     cluster_run True (\<lambda>_. ()) (=) v0 (map (Pair Database_kind) pre) v \<and> has_database ''shop'' (v ())"
proof -
  obtain r s' pre orig ob e post where run: "Reconcile_Database ref_deps shop_key sample_start = (r, s')"
    "emits sample_start s' (pre @ EvPatch orig ob e # post)" "object_ready ob" using sample_database_run by blast
  let ?h = "map (Pair Database_kind) pre"
  have san: "sanitize_ok (pgx_Sanitize ref_deps)" "sets_status (SetStatusCondition ref_deps)"
    using ref_sanitize ref_sets_status by simp_all
  have con: "concurrent ref_deps (map (Pair Database_kind) (pre @ [EvPatch orig ob e]))"
    by (rule alone_concurrent [of _ _ shop_key sample_start r s' _ post]) (use run in simp_all)
  obtain s1 where s1: "Get_Database ref_deps shop_key sample_start = (Inr sample_shop, s1)" using sample_get_shop by blast
  from run(1,2) EvPatch_is_patch obtain c cevs levs ups where a: "pre = dbr.got shop_key sample_shop # cevs @ levs @ ups"
    "resolved_Database sample_shop (Inr c) cevs" "database_ensured ref_deps (conn c) (DatabaseName sample_shop) levs"
    "ups = [] \<or> (\<exists>x. ups = [EvUpdate (Database_object (db_add_finalizer ref_deps sample_shop)) (Inr (Database_object x))])"
  proof (cases rule: dbr.reconcile_patches)
    case (failed x s1 msg s2 s3 pre')
    with patched_not_ready(2) [OF san(2) failed(4)] run(3) show ?thesis by blast
  next
    case (succeeded x s1' c cevs levs ups x' s2 s3)
    from succeeded(1) s1 have "x = sample_shop" by simp
    with succeeded(3-6) that [of cevs levs ups c] show ?thesis by (auto split: if_splits)
  qed
  have res: "resolve_events (Inr c) cevs" using a(2) dbr.resolved_events by blast
  have n: "pg_name (DatabaseName sample_shop)" "DatabaseName sample_shop = ''shop''"
    using sample_names(2) by (simp_all add: sample_shop_simps)
  have "list_all named_event cevs" using a(2) resolution_named unfolding resolved_Database_def by blast
  then have names: "list_all named_event (map snd ?h)"
    using a n by (auto simp: database_ensured_def comp_def)
  have quiet: "list_all (\<lambda>ev. \<forall>c. \<not> sql_on c ev) (dbr.got shop_key sample_shop # cevs)"
    "list_all (\<lambda>ev. \<forall>c. \<not> sql_on c ev) ups" using resolve_events_kinds [OF res] a(4) by (auto simp: list_all_iff)
  obtain \<sigma> v1 where "cluster_run True (\<lambda>_. ()) (=) (\<lambda>_. \<sigma>)
      (([] @ map (Pair Database_kind) (dbr.got shop_key sample_shop # cevs)) @ map (Pair Database_kind) levs) v1"
    using database_cluster_run [OF san(1) n(1) disjI1 [OF a(3)], of True "(=)"] cluster_run_quiet [OF cluster_run.start quiet(1)] by metis
  from cluster_run_quiet [OF this quiet(2), of Database_kind] a(1)
  have v: "cluster_run True (\<lambda>_. ()) (=) (\<lambda>_. \<sigma>) ?h v1" by simp
  have "map (Pair Database_kind) (pre @ [EvPatch orig ob e]) = ?h @ (Database_kind, EvPatch orig ob e) # []" by simp
  note R = ready_in_place [OF san con this run(3) _ names v]
  have "\<exists>key x rest. fetched key x \<in> set pre \<and> in_place True rest x (v1 ())"
    using R unfolding own_alone(1) by fastforce
  then obtain key x rest where p: "fetched key x \<in> set pre" "in_place True rest x (v1 ())" by blast
  have "x = Database_object sample_shop"
  proof -
    have "kind_of x \<noteq> PostgreSQL_kind" using p(2) by (cases x) auto
    with p(1) a resolution_fetched [OF a(2) [unfolded resolved_Database_def], of key x]
    show ?thesis by (auto simp: database_ensured_def fetched_def)
  qed
  with p(2) n(2) have "has_database ''shop'' (v1 ())" by simp
  with con run(3) v show ?thesis by blast
qed

section \<open>Removals\<close>

fun gone :: "client_object \<Rightarrow> shared_state \<Rightarrow> bool" where
  "gone (Database_object db) \<sigma> = (\<not> has_database (DatabaseName db) \<sigma>)"
| "gone (User_object user) \<sigma> = (snd \<sigma> (RoleName user) = None)"
| "gone _ \<sigma> = False"

lemma cleaned_gone:
  assumes "concurrent d (pre @ post)" "sanitize_ok (pgx_Sanitize d)" "list_all named_event (map snd pre)"
    and "own k pre = a @ levs" "kind_of x = k" "named x"
    and "k \<in> {Database_kind, User_kind}" "sql_cleaned d x c levs" "cluster_run std inst env v0 pre v"
    and "\<forall>\<sigma> \<sigma>'. env \<sigma> \<sigma>' \<longrightarrow> fst \<sigma>' \<subseteq> fst \<sigma> \<and> dom (snd \<sigma>') \<subseteq> dom (snd \<sigma>)"
  shows "gone x (v (inst c))"
proof (cases x)
  case (Database_object db)
  let ?P = "\<lambda>\<sigma>. \<not> has_database (DatabaseName db) \<sigma>"
  from Database_object assms(6,8) database_runs(2) [OF assms(2)] obtain us ev where
    ev: "levs = us @ [ev]" "brings std inst ev (inst c) ?P" by fastforce
  have own: "own k pre = (a @ us) @ ev # []" using assms(4) ev(1) by simp
  have "keeps env ?P" using assms(10) unfolding keeps_def by blast
  from established [OF assms(1-3) own _ assms(9) this _ ev(2)] kinds_apart(2) assms(5) Database_object
  show ?thesis by simp
next
  case (User_object user)
  let ?P = "\<lambda>\<sigma> :: shared_state. snd \<sigma> (RoleName user) = None"
  from User_object assms(6,8) role_runs(2) [OF assms(2)] obtain us ev where
    ev: "levs = us @ [ev]" "brings std inst ev (inst c) ?P" by fastforce
  have own: "own k pre = (a @ us) @ ev # []" using assms(4) ev(1) by simp
  have "keeps env ?P" using assms(10) unfolding keeps_def dom_def by blast
  from established [OF assms(1-3) own _ assms(9) this _ ev(2)] kinds_apart(4) assms(5) User_object
  show ?thesis by simp
qed (use assms(5,7) in auto)

text \<open>C7: The finalizer is removed only when what it guards is gone, even when all controllers run at the same
time and requests are cut short: when the update without the finalizer is sent for a database or a user
under deletion with the policy \<open>Delete\<close>, either resolving its reference failed with an error
\<open>IsNotFound\<close> accepts (the instance is missing, or it is there and the Secret of its superuser is missing),
or the cluster its request connected to does not have the database, or the role, at that moment. The
names are ones PostgreSQL takes, the privileges of grants are documented ones, and nobody but the operator
creates databases or roles.\<close>

theorem removed_is_gone:
  assumes "sanitize_ok (pgx_Sanitize d)" "concurrent d h" "h = pre @ (k, EvUpdate ob e) # post"
    and "k \<in> {Database_kind, User_kind}" "list_all named_event (map snd pre)" "cluster_run std inst env v0 pre v"
    and "\<forall>\<sigma> \<sigma>'. env \<sigma> \<sigma>' \<longrightarrow> fst \<sigma>' \<subseteq> fst \<sigma> \<and> dom (snd \<sigma>') \<subseteq> dom (snd \<sigma>)"
  shows "\<exists>past key x rest. own k pre = past @ fetched key x # rest \<and>
    (Time_IsZero d (om_DeletionTimestamp (object_meta x)) \<and> ob = with_finalizer d x \<or>
     \<not> Time_IsZero d (om_DeletionTimestamp (object_meta x)) \<and> ob = without_finalizer d x \<and>
     (cleanup_policy x = CleanupPolicyDelete \<longrightarrow>
       (\<exists>err. resolved_for x (Inl err) rest \<and> IsNotFound d err) \<or>
       (\<exists>c cevs levs. rest = cevs @ levs \<and> resolved_for x (Inr c) cevs \<and> gone x (v (inst (conn c))))))"
proof -
  have w: "worker d k (own k pre @ EvUpdate ob e # own k post)" using worker_at assms(2,3) by blast
  have ko: "kind_of ob = k" using written_own [OF w, of "EvUpdate ob e"] by simp
  from worker_updates [OF w] obtain past evs where own: "own k pre = past @ evs"
    and up: "add_allowed d ob evs \<or> remove_allowed d ob evs" by blast
  from up show ?thesis
  proof
    assume "add_allowed d ob evs"
    then obtain x key rest where "evs = fetched key x # rest" "ob = with_finalizer d x"
      "Time_IsZero d (om_DeletionTimestamp (object_meta x))" unfolding add_allowed_def by blast
    with own show ?thesis by blast
  next
    assume "remove_allowed d ob evs"
    then obtain x key rest where r: "evs = fetched key x # rest" "ob = without_finalizer d x"
      "\<not> Time_IsZero d (om_DeletionTimestamp (object_meta x))" and
      why: "cleanup_policy x = CleanupPolicyDelete \<longrightarrow> (\<exists>err. resolved_for x (Inl err) rest \<and> IsNotFound d err) \<or>
        (\<exists>c cevs levs. rest = cevs @ levs \<and> resolved_for x (Inr c) cevs \<and> sql_cleaned d x (conn c) levs)"
      unfolding remove_allowed_def by blast
    have k: "kind_of x = k" using ko r(2) kind_with_finalizer(2) [of d x] by simp
    have n: "named x" using fetched_named [OF assms(5), of key x k] own r(1) by simp
    have "gone x (v (inst (conn c)))" if "rest = cevs @ levs" "sql_cleaned d x (conn c) levs" for c cevs levs
    proof -
      have "own k pre = (past @ fetched key x # cevs) @ levs" using own r(1) that(1) by simp
      from cleaned_gone [OF assms(2) [unfolded assms(3)] assms(1,5) this k n assms(4) that(2) assms(6,7)] show ?thesis .
    qed
    with own r why show ?thesis by blast
  qed
qed

text \<open>A database under deletion that is in its cluster; what one request does with it.\<close>

definition doomed_shop :: PostgreSQLDatabase where
  "doomed_shop = sample_Database CleanupPolicyDelete [FinalizerName] (Some 3)"

lemma doomed_simps:
  "om_Namespace (db_ObjectMeta doomed_shop) = ''team''" "dbs_PostgresRef (db_Spec doomed_shop) = sample_ref"
  "DatabaseName doomed_shop = ''shop''" "om_DeletionTimestamp (db_ObjectMeta doomed_shop) = Some 3"
  "om_Finalizers (db_ObjectMeta doomed_shop) = [FinalizerName]"
  "CleanupPolicy (dbs_SQLTemplate (db_Spec doomed_shop)) = CleanupPolicyDelete"
  by (simp_all add: doomed_shop_def sample_Database_def sample_meta_def sample_tmpl_def DatabaseName_def)

definition doomed_start :: "ref_world world" where
  "doomed_start = \<lparr>ext = (sample_world sample_secrets CleanupPolicyDelete [FinalizerName] (Some 3))
     \<lparr>rw_pg := sample_pg\<lparr>pg_databases := {''postgres'', ''shop''}\<rparr>\<rparr>, trace = []\<rparr>"

lemma doomed_run:
  obtains r s' cevs c levs e post where "Reconcile_Database ref_deps shop_key doomed_start = (r, s')"
    "emits doomed_start s' (dbr.got shop_key doomed_shop # cevs @ levs
       @ EvUpdate (Database_object (db_remove_finalizer ref_deps doomed_shop)) e # post)"
    "resolved_Database doomed_shop (Inr c) cevs" "database_removed ref_deps (conn c) ''shop'' levs"
proof -
  obtain s1 where s1: "Get_Database ref_deps shop_key doomed_start = (Inr doomed_shop, s1)" "ext s1 = ext doomed_start"
    by (simp add: call_defs ref_get_def doomed_start_def sample_world_def shop_key_def doomed_shop_def)
  then obtain s2 where s2: "connectToPostgres ref_deps ''team'' sample_ref s1 = (Inr \<lparr>conn = 0\<rparr>, s2)"
    by (simp add: connectToPostgres_def Let_def sample_ref_def call_defs Connect_def ref_get_def doomed_start_def
      sample_world_def sample_PostgreSQL_def sample_secrets_def sample_secret_def ref_Connect_def)
  obtain s3 where s3: "DropDatabase ref_deps \<lparr>conn = 0\<rparr> ''shop'' s2 = (None, s3)"
    using ref_DropDatabase [OF sample_names(2)] by blast
  let ?up = "Database_object (db_remove_finalizer ref_deps doomed_shop)"
  obtain s4 x where s4: "Update_Database ref_deps (db_remove_finalizer ref_deps doomed_shop) s3 = (Inr x, s4)"
    by (simp add: call_defs)
  obtain ce s5 where s5: "Close ref_deps \<lparr>conn = 0\<rparr> s4 = (ce, s5)" by (cases "Close ref_deps \<lparr>conn = 0\<rparr> s4")
  have run: "Reconcile_Database ref_deps shop_key doomed_start = ((no_Result, None), s5)"
    using s1(1) s2 s3 s4 s5 by (simp add: Reconcile_Database_def handleDeletion_Database_def doomed_simps
      defer_Close_def db_remove_and_update_def)
  obtain cevs where cevs: "emits s1 s2 cevs" "resolution own_database ''team'' sample_ref (Inr \<lparr>conn = 0\<rparr>) cevs"
    using connectToPostgres_calls [OF s2] by blast
  obtain levs where levs: "emits s2 s3 levs" "database_removed ref_deps 0 ''shop'' levs"
    using s3 by (rule DropDatabase_emits) auto
  have "emits doomed_start s1 [dbr.got shop_key doomed_shop]"
    using s1(1) dbr.get_emits [of ref_deps shop_key doomed_start "Inr doomed_shop" s1] by simp
  moreover have "emits s3 s4 [EvUpdate ?up (Inr (Database_object x))]" using s4 by (auto simp: call_defs emits_def)
  moreover obtain post where "emits s4 s5 post" using emits_calls(2) [of ref_deps 0 s4 ce s5] s5 by (auto simp: Close_def)
  ultimately have "emits doomed_start s5 ([dbr.got shop_key doomed_shop] @ cevs @ levs
      @ [EvUpdate ?up (Inr (Database_object x))] @ post)"
    using cevs(1) levs(1) emits_trans by metis
  with that [OF run _ _, of cevs levs] cevs(2) levs(2) show ?thesis
    by (simp add: resolved_Database_def doomed_simps)
qed

theorem removed_is_gone_witness:
  "\<exists>v0 v pre ob e. concurrent ref_deps (map (Pair Database_kind) (pre @ [EvUpdate ob e])) \<and>
     ob = Database_object (db_remove_finalizer ref_deps doomed_shop) \<and>
     cluster_run True (\<lambda>_. ()) (=) v0 (map (Pair Database_kind) pre) v \<and> \<not> has_database ''shop'' (v ())"
proof -
  obtain r s' cevs c levs e post where run: "Reconcile_Database ref_deps shop_key doomed_start = (r, s')"
    "emits doomed_start s' (dbr.got shop_key doomed_shop # cevs @ levs
       @ EvUpdate (Database_object (db_remove_finalizer ref_deps doomed_shop)) e # post)"
    and a: "resolved_Database doomed_shop (Inr c) cevs" "database_removed ref_deps (conn c) ''shop'' levs"
    by (rule doomed_run)
  let ?ob = "Database_object (db_remove_finalizer ref_deps doomed_shop)"
  let ?pre = "dbr.got shop_key doomed_shop # cevs @ levs"
  let ?h = "map (Pair Database_kind) ?pre"
  have san: "sanitize_ok (pgx_Sanitize ref_deps)" using ref_sanitize by simp
  have con: "concurrent ref_deps (map (Pair Database_kind) (?pre @ [EvUpdate ?ob e]))"
    by (rule alone_concurrent [of _ _ shop_key doomed_start r s' _ post]) (use run in simp_all)
  have res: "resolve_events (Inr c) cevs" using a(1) dbr.resolved_events by blast
  have n: "pg_name ''shop''" by (rule sample_names(2))
  have "list_all named_event cevs" using a(1) resolution_named unfolding resolved_Database_def by blast
  then have names: "list_all named_event (map snd ?h)"
    using a n by (auto simp: database_removed_def comp_def doomed_simps)
  have quiet: "list_all (\<lambda>ev. \<forall>c. \<not> sql_on c ev) (dbr.got shop_key doomed_shop # cevs)"
    using resolve_events_kinds [OF res] by (auto simp: list_all_iff)
  obtain \<sigma> v1 where "cluster_run True (\<lambda>_. ()) (=) (\<lambda>_. \<sigma>)
      (([] @ map (Pair Database_kind) (dbr.got shop_key doomed_shop # cevs)) @ map (Pair Database_kind) levs) v1"
    using database_cluster_run [OF san n disjI2 [OF a(2)], of True "(=)"] cluster_run_quiet [OF cluster_run.start quiet] by metis
  then have v: "cluster_run True (\<lambda>_. ()) (=) (\<lambda>_. \<sigma>) ?h v1" by simp
  have h: "map (Pair Database_kind) (?pre @ [EvUpdate ?ob e]) = ?h @ (Database_kind, EvUpdate ?ob e) # []" by simp
  have "\<exists>past key x rest. ?pre = past @ fetched key x # rest \<and>
    (Time_IsZero ref_deps (om_DeletionTimestamp (object_meta x)) \<and> ?ob = with_finalizer ref_deps x \<or>
     \<not> Time_IsZero ref_deps (om_DeletionTimestamp (object_meta x)) \<and> ?ob = without_finalizer ref_deps x \<and>
     (cleanup_policy x = CleanupPolicyDelete \<longrightarrow>
       (\<exists>err. resolved_for x (Inl err) rest \<and> IsNotFound ref_deps err) \<or>
       (\<exists>c cevs levs. rest = cevs @ levs \<and> resolved_for x (Inr c) cevs \<and> gone x (v1 ()))))"
    using removed_is_gone [OF san con h _ names v] unfolding own_alone(1) by simp
  then obtain past key x rest where p: "?pre = past @ fetched key x # rest"
    and q: "kind_of x = Database_kind" and c: "Time_IsZero ref_deps (om_DeletionTimestamp (object_meta x)) \<or>
      cleanup_policy x \<noteq> CleanupPolicyDelete \<or> (\<exists>err. resolved_for x (Inl err) rest) \<or> gone x (v1 ())"
    using kind_with_finalizer [of ref_deps] by (metis kind_of.simps(2))
  have x: "x = Database_object doomed_shop" "past = []"
  proof -
    have "fetched key x \<in> set ?pre" unfolding p by simp
    with q a resolution_fetched [OF a(1) [unfolded resolved_Database_def], of key x]
    show "x = Database_object doomed_shop" by (auto simp: database_removed_def fetched_def)
    show "past = []"
    proof (rule ccontr)
      assume "past \<noteq> []"
      then obtain y ys where "past = y # ys" by (cases past) auto
      with p have "fetched key x \<in> set (cevs @ levs)" by simp
      with q a resolution_fetched [OF a(1) [unfolded resolved_Database_def], of key x]
      show False by (auto simp: database_removed_def fetched_def)
    qed
  qed
  have "\<not> resolved_for x (Inl err) rest" for err
  proof
    assume "resolved_for x (Inl err) rest"
    with x dbr.resolved_events have "resolve_events (Inl err) rest" by auto
    from resolve_events_kinds [OF this] p x(2) a(2) show False by (auto simp: database_removed_def list_all_iff)
  qed
  with c x have "gone x (v1 ())" by (simp add: doomed_simps)
  with x(1) have "\<not> has_database ''shop'' (v1 ())" by (simp add: doomed_simps)
  with con v show ?thesis by blast
qed

end
