(* ===== verification/Convergence.thy ===== *)
theory Convergence
  imports EndToEnd Schema DsnReader
begin

text \<open>
  Convergence of the controllers. The locale \<open>live_services\<close> is the contract of services that are up:
  the server of \<open>LiveServer\<close>, shared by all connections as far as databases and roles go; an API server
  that serves the instances, their secrets and the current version of a set of wanted objects, which
  nobody else writes during a request, and accepts a change of the finalizers of a current version. Each reconciliation of a wanted object then does what the object asks for,
  and any sequence of them converges, whatever its order.
\<close>

section \<open>What is wanted\<close>

text \<open>An object without what the controllers write and the API server counts.\<close>

abbreviation erased_meta :: "ObjectMeta \<Rightarrow> ObjectMeta" where
  "erased_meta m \<equiv> m\<lparr>om_Generation := 0, om_Finalizers := []\<rparr>"

fun erased :: "client_object \<Rightarrow> client_object" where
  "erased (PostgreSQL_object pg) =
     PostgreSQL_object (pg\<lparr>pg_ObjectMeta := erased_meta (pg_ObjectMeta pg), pg_Status := \<lparr>pgst_Conditions = []\<rparr>\<rparr>)"
| "erased (Database_object db) =
     Database_object (db\<lparr>db_ObjectMeta := erased_meta (db_ObjectMeta db), db_Status := \<lparr>dbst_Conditions = []\<rparr>\<rparr>)"
| "erased (User_object user) =
     User_object (user\<lparr>user_ObjectMeta := erased_meta (user_ObjectMeta user), user_Status := \<lparr>ust_Conditions = []\<rparr>\<rparr>)"
| "erased (Grant_object grant) =
     Grant_object (grant\<lparr>grant_ObjectMeta := erased_meta (grant_ObjectMeta grant), grant_Status := \<lparr>gst_Conditions = []\<rparr>\<rparr>)"

declare erased.simps [simp del]

lemma erased_meta_eq:
  assumes "erased_meta m = erased_meta n"
  shows "om_Name m = om_Name n" "om_Namespace m = om_Namespace n" "om_DeletionTimestamp m = om_DeletionTimestamp n"
  using arg_cong [OF assms, of om_Name] arg_cong [OF assms, of om_Namespace]
    arg_cong [OF assms, of om_DeletionTimestamp] by simp_all

lemma erased_Database:
  assumes "erased (Database_object y) = erased (Database_object db)"
  shows "db_Spec y = db_Spec db" "erased_meta (db_ObjectMeta y) = erased_meta (db_ObjectMeta db)"
  using arg_cong [of _ _ db_Spec, OF client_object.inject(2) [THEN iffD1, OF assms [unfolded erased.simps]]]
    arg_cong [of _ _ db_ObjectMeta, OF client_object.inject(2) [THEN iffD1, OF assms [unfolded erased.simps]]]
  by simp_all

lemma erased_User:
  assumes "erased (User_object y) = erased (User_object user)"
  shows "user_Spec y = user_Spec user" "erased_meta (user_ObjectMeta y) = erased_meta (user_ObjectMeta user)"
  using arg_cong [of _ _ user_Spec, OF client_object.inject(3) [THEN iffD1, OF assms [unfolded erased.simps]]]
    arg_cong [of _ _ user_ObjectMeta, OF client_object.inject(3) [THEN iffD1, OF assms [unfolded erased.simps]]]
  by simp_all

lemma erased_Grant:
  assumes "erased (Grant_object y) = erased (Grant_object grant)"
  shows "grant_Spec y = grant_Spec grant" "erased_meta (grant_ObjectMeta y) = erased_meta (grant_ObjectMeta grant)"
  using arg_cong [of _ _ grant_Spec, OF client_object.inject(4) [THEN iffD1, OF assms [unfolded erased.simps]]]
    arg_cong [of _ _ grant_ObjectMeta, OF client_object.inject(4) [THEN iffD1, OF assms [unfolded erased.simps]]]
  by simp_all

lemma erased_conditions:
  "erased (PostgreSQL_object (pg_conditions f pg)) = erased (PostgreSQL_object pg)"
  "erased (Database_object (db_conditions f db)) = erased (Database_object db)"
  "erased (User_object (user_conditions f user)) = erased (User_object user)"
  "erased (Grant_object (grant_conditions f grant)) = erased (Grant_object grant)"
  by (simp_all add: conditions_defs erased.simps)

lemma erased_with_finalizer:
  assumes "adds_finalizer (AddFinalizer d)"
  shows "erased (with_finalizer d x) = erased x"
proof -
  have "erased_meta (AddFinalizer d m n) = erased_meta m" for m n
  proof -
    obtain fs where "AddFinalizer d m n = m\<lparr>om_Finalizers := fs\<rparr>"
      using assms unfolding adds_finalizer_def by blast
    then show ?thesis by simp
  qed
  then show ?thesis
    by (cases x) (simp_all add: erased.simps db_add_finalizer_def user_add_finalizer_def grant_add_finalizer_def)
qed

text \<open>
  An object is posed for success when its reference resolves to an instance and the password of its
  superuser, its names are ones PostgreSQL takes as they are and no server refuses, and, of a user, the
  password is there and of such characters.
\<close>

definition resolvable ::
  "(NamespacedName \<rightharpoonup> PostgreSQL) \<Rightarrow> (NamespacedName \<rightharpoonup> Secret) \<Rightarrow> (PostgreSQL \<Rightarrow> string) \<Rightarrow> string \<Rightarrow> PostgresRef \<Rightarrow> bool" where
  "resolvable inst secrets dbname namespace ref \<longleftrightarrow>
     (\<exists>pg secret password. inst (instance_key namespace ref) = Some pg \<and>
        secrets (superuser_key (nn_Namespace (instance_key namespace ref)) pg) = Some secret \<and>
        secret_Data secret (skr_Key (pgs_SuperuserSecretKeyRef (pg_Spec pg))) = Some password \<and>
        plain_config (superuser_config pg (dbname pg) password))"

fun posed :: "(NamespacedName \<rightharpoonup> PostgreSQL) \<Rightarrow> (NamespacedName \<rightharpoonup> Secret) \<Rightarrow> client_object \<Rightarrow> bool" where
  "posed inst secrets (PostgreSQL_object pg) = False"
| "posed inst secrets (Database_object db) =
     (resolvable inst secrets own_database (om_Namespace (db_ObjectMeta db)) (dbs_PostgresRef (db_Spec db)) \<and>
      pg_name (DatabaseName db) \<and> plain_text (DatabaseName db))"
| "posed inst secrets (User_object user) =
     (resolvable inst secrets own_database (om_Namespace (user_ObjectMeta user)) (us_PostgresRef (user_Spec user)) \<and>
      pg_name (RoleName user) \<and> free_role (RoleName user) \<and>
      (\<exists>secret password. secrets (password_key user) = Some secret \<and>
         secret_Data secret (skr_Key (us_PasswordSecretKeyRef (user_Spec user))) = Some password \<and> plain_text password))"
| "posed inst secrets (Grant_object grant) =
     (resolvable inst secrets (\<lambda>_. gs_Database (grant_Spec grant)) (om_Namespace (grant_ObjectMeta grant))
        (gs_PostgresRef (grant_Spec grant)) \<and>
      (\<exists>ps. good_opts ps (grant_opts grant)) \<and> plain_names (grant_opts grant))"

section \<open>Reports\<close>

text \<open>Between the two states a status that makes an object \<open>Ready\<close> was sent.\<close>

definition reports_ready :: "'w world \<Rightarrow> 'w world \<Rightarrow> bool" where
  "reports_ready s s' \<longleftrightarrow> (\<exists>pre orig ob e post. emits s s' (pre @ EvPatch orig ob e # post) \<and> object_ready ob)"

text \<open>A request that did so, returned no error and asks to be called again.\<close>

definition succeeded :: "'w deps \<Rightarrow> Result \<times> gerror option \<Rightarrow> 'w world \<Rightarrow> 'w world \<Rightarrow> bool" where
  "succeeded d r s s' \<longleftrightarrow> reports_ready s s' \<and> snd r = None \<and> (\<exists>t s1 s2. requeueResult d t s1 = (fst r, s2))"

section \<open>Services that are up\<close>

text \<open>
  \<open>shared w\<close> are the databases and roles of the cluster, which every connection sees alike; \<open>schemas\<close>
  are those every database has from its template. \<open>inst\<close> and \<open>secrets\<close> are the instances and secrets
  the API server serves, \<open>wanted\<close> the objects it stores, up to what \<open>erased\<close> forgets. \<open>stored w\<close> are the
  objects in their current version: a read returns such a one, the reads of others and the calls to
  PostgreSQL leave them as they are, and an update that adds the finalizer to a current version goes
  through. (An update of an outdated version is a conflict, of which nothing is promised.)
\<close>

locale live_services = live_server std d view up
  for std :: bool and d :: "'w deps" and view :: "pgx_conn \<Rightarrow> 'w \<Rightarrow> pg_state" and up :: "'w \<Rightarrow> bool" +
  fixes shared :: "'w \<Rightarrow> string set \<times> (string \<rightharpoonup> bool \<times> string)"
    and schemas :: "string set"
    and inst :: "NamespacedName \<rightharpoonup> PostgreSQL"
    and secrets :: "NamespacedName \<rightharpoonup> Secret"
    and wanted :: "client_object set"
    and stored :: "'w \<Rightarrow> client_object set"
  assumes isolated: "pg_isolated d view"
    and status: "sets_status (SetStatusCondition d)"
    and shared_view: "shared w = (pg_databases (view c w), pg_roles (view c w))"
    and wants: "wob \<in> wanted \<Longrightarrow> posed inst secrets wob \<and> Time_IsZero d (om_DeletionTimestamp (object_meta wob))"
    and reads_instance: "up w \<Longrightarrow> inst key = Some pg \<Longrightarrow> k8s_Get_PostgreSQL d key w = (rpg, w') \<Longrightarrow>
      rpg = Inr pg \<and> up w' \<and> shared w' = shared w \<and> stored w' = stored w"
    and reads_secret: "up w \<Longrightarrow> secrets key = Some secret \<Longrightarrow> k8s_Get_Secret d key w = (rs, w') \<Longrightarrow>
      rs = Inr secret \<and> up w' \<and> shared w' = shared w \<and> stored w' = stored w"
    and elsewhere: "up w \<Longrightarrow> stored (snd (pgx_QueryRow d c q n w)) = stored w \<and> stored (snd (pgx_Exec d c q w)) = stored w"
    and reads_Database: "up w \<Longrightarrow> Database_object db \<in> wanted \<Longrightarrow>
      k8s_Get_Database d (object_key (db_ObjectMeta db)) w = (rdb, w') \<Longrightarrow>
      (\<exists>y. rdb = Inr y \<and> erased (Database_object y) = erased (Database_object db) \<and> Database_object y \<in> stored w') \<and>
      up w' \<and> shared w' = shared w"
    and reads_User: "up w \<Longrightarrow> User_object user \<in> wanted \<Longrightarrow>
      k8s_Get_User d (object_key (user_ObjectMeta user)) w = (ru, w') \<Longrightarrow>
      (\<exists>y. ru = Inr y \<and> erased (User_object y) = erased (User_object user) \<and> User_object y \<in> stored w') \<and>
      up w' \<and> shared w' = shared w"
    and reads_Grant: "up w \<Longrightarrow> Grant_object grant \<in> wanted \<Longrightarrow>
      k8s_Get_Grant d (object_key (grant_ObjectMeta grant)) w = (rg, w') \<Longrightarrow>
      (\<exists>y. rg = Inr y \<and> erased (Grant_object y) = erased (Grant_object grant) \<and> Grant_object y \<in> stored w') \<and>
      up w' \<and> shared w' = shared w"
    and updates_Database: "up w \<Longrightarrow> Database_object db \<in> wanted \<Longrightarrow>
      erased (Database_object x) = erased (Database_object db) \<Longrightarrow> Database_object x \<in> stored w \<Longrightarrow>
      k8s_Update_Database d (db_add_finalizer d x) w = (rdb, w') \<Longrightarrow>
      (\<exists>y. rdb = Inr y \<and> erased (Database_object y) = erased (Database_object db)) \<and> up w'"
    and updates_User: "up w \<Longrightarrow> User_object user \<in> wanted \<Longrightarrow>
      erased (User_object x') = erased (User_object user) \<Longrightarrow> User_object x' \<in> stored w \<Longrightarrow>
      k8s_Update_User d (user_add_finalizer d x') w = (ru, w') \<Longrightarrow>
      (\<exists>y. ru = Inr y \<and> erased (User_object y) = erased (User_object user)) \<and> up w'"
    and updates_Grant: "up w \<Longrightarrow> Grant_object grant \<in> wanted \<Longrightarrow>
      erased (Grant_object x'') = erased (Grant_object grant) \<Longrightarrow> Grant_object x'' \<in> stored w \<Longrightarrow>
      k8s_Update_Grant d (grant_add_finalizer d x'') w = (rg, w') \<Longrightarrow>
      (\<exists>y. rg = Inr y \<and> erased (Grant_object y) = erased (Grant_object grant)) \<and> up w'"
    and patches: "up w \<Longrightarrow> wob \<in> wanted \<Longrightarrow> erased ob = erased wob \<Longrightarrow> up (snd (k8s_Status_Patch d orig ob w))"
    and stays_up: "up w \<Longrightarrow> up (snd (pgx_Close d c w)) \<and> up (snd (metav1_Now d w)) \<and> up (snd (rand_draw d w))"
    and connects: "up w \<Longrightarrow> inst key = Some pg \<Longrightarrow> secrets (superuser_key (nn_Namespace key) pg) = Some secret \<Longrightarrow>
      secret_Data secret (skr_Key (pgs_SuperuserSecretKeyRef (pg_Spec pg))) = Some password \<Longrightarrow>
      plain_config (superuser_config pg database password) \<Longrightarrow>
      pgx_Connect d (connStr (superuser_config pg database password)) w = (rc, w') \<Longrightarrow>
      up w' \<and> shared w' = shared w \<and> stored w' = stored w \<and>
      (database \<in> fst (shared w) \<longrightarrow> (\<exists>c. rc = Inr c \<and> schemas \<subseteq> pg_schemas (view c w')))"
begin

text \<open>The databases of the instances themselves are there.\<close>

definition bases :: "'w \<Rightarrow> bool" where
  "bases w \<longleftrightarrow> (\<forall>key pg. inst key = Some pg \<longrightarrow> own_database pg \<in> fst (shared w))"

text \<open>The server is up, and what is stored stays, through the calls of an operation.\<close>

lemma server_keeps: "live_server std d view (\<lambda>w. up w \<and> stored w = C)"
proof
  fix w q c n rb w'
  assume a: "up w \<and> stored w = C" "q \<in> {databaseExistsQuery, roleExistsQuery}" "pgx_QueryRow d c q n w = (rb, w')"
  with answers [OF conjunct1 [OF a(1)] a(2,3)] elsewhere [OF conjunct1 [OF a(1)], of c q n]
  show "(\<exists>b. rb = Inr b) \<and> up w' \<and> stored w' = C" by simp
next
  fix w st q c re w'
  assume a: "up w \<and> stored w = C" "wf_stmt st" "lexes_to std q (stmt_tokens st)" "pgx_Exec d c q w = (re, w')"
  with executes [OF conjunct1 [OF a(1)] a(2-4)] elsewhere [OF conjunct1 [OF a(1)], of c q]
  show "(up w' \<and> stored w' = C) \<and> (exec_stmt st (view c w) \<noteq> None \<and> accepted st \<longrightarrow> re = None) \<and>
      (re \<noteq> None \<longrightarrow> view c w' = view c w)" by simp
qed (rule server sanitize)+

lemma connection:
  assumes "up (ext s)" "resolvable inst secrets dbname namespace ref"
  shows "connectToPostgres d namespace ref s = (rc, s') \<Longrightarrow> dbname = own_database \<Longrightarrow>
      up (ext s') \<and> shared (ext s') = shared (ext s) \<and> stored (ext s') = stored (ext s) \<and>
      (bases (ext s) \<longrightarrow> (\<exists>c. rc = Inr c \<and> schemas \<subseteq> pg_schemas (view (conn c) (ext s'))))"
    "connectToDatabase d namespace ref database s = (rc, s') \<Longrightarrow> dbname = (\<lambda>_. database) \<Longrightarrow>
      up (ext s') \<and> shared (ext s') = shared (ext s) \<and> stored (ext s') = stored (ext s) \<and>
      (database \<in> fst (shared (ext s)) \<longrightarrow> (\<exists>c. rc = Inr c \<and> schemas \<subseteq> pg_schemas (view (conn c) (ext s'))))"
proof -
  let ?key = "instance_key namespace ref"
  obtain pg secret password where r: "inst ?key = Some pg" "secrets (superuser_key (nn_Namespace ?key) pg) = Some secret"
    "secret_Data secret (skr_Key (pgs_SuperuserSecretKeyRef (pg_Spec pg))) = Some password"
    "plain_config (superuser_config pg (dbname pg) password)"
    using assms(2) unfolding resolvable_def by blast
  obtain s1 where s1: "Get_PostgreSQL d ?key s = (Inr pg, s1)" "up (ext s1)" "shared (ext s1) = shared (ext s)" "stored (ext s1) = stored (ext s)"
    using reads_instance [OF assms(1) r(1)]
    by (cases "k8s_Get_PostgreSQL d ?key (ext s)") (auto simp: call_defs)
  obtain s2 where s2: "Get_Secret d (superuser_key (nn_Namespace ?key) pg) s1 = (Inr secret, s2)" "up (ext s2)"
    "shared (ext s2) = shared (ext s)" "stored (ext s2) = stored (ext s)"
    using reads_secret [OF s1(2) r(2)] s1(3,4)
    by (cases "k8s_Get_Secret d (superuser_key (nn_Namespace ?key) pg) (ext s1)") (auto simp: call_defs)
  have con: "up (ext s') \<and> shared (ext s') = shared (ext s) \<and> stored (ext s') = stored (ext s) \<and>
      (dbname pg \<in> fst (shared (ext s)) \<longrightarrow> (\<exists>c. rc = Inr c \<and> schemas \<subseteq> pg_schemas (view (conn c) (ext s'))))"
    if "Connect d (superuser_config pg (dbname pg) password) s2 = (rc, s')" for rc s'
    using that connects [OF s2(2) r] s2(3,4) by (auto simp: Connect_def call_defs split: prod.splits sum.splits)
  note unf = Let_def superuser_config_eq key_eqs(1,3) key_eqs(2) [of ref namespace] key_eqs(4)
  show "up (ext s') \<and> shared (ext s') = shared (ext s) \<and> stored (ext s') = stored (ext s) \<and>
      (bases (ext s) \<longrightarrow> (\<exists>c. rc = Inr c \<and> schemas \<subseteq> pg_schemas (view (conn c) (ext s'))))"
    if "connectToPostgres d namespace ref s = (rc, s')" "dbname = own_database"
  proof -
    from that s1(1) s2(1) r(3) have "Connect d (superuser_config pg (dbname pg) password) s2 = (rc, s')"
      unfolding connectToPostgres_def unf own_database_def [symmetric] by simp
    with con r(1) that(2) show ?thesis unfolding bases_def by blast
  qed
  show "up (ext s') \<and> shared (ext s') = shared (ext s) \<and> stored (ext s') = stored (ext s) \<and>
      (database \<in> fst (shared (ext s)) \<longrightarrow> (\<exists>c. rc = Inr c \<and> schemas \<subseteq> pg_schemas (view (conn c) (ext s'))))"
    if "connectToDatabase d namespace ref database s = (rc, s')" "dbname = (\<lambda>_. database)"
  proof -
    from that s1(1) s2(1) r(3) have "Connect d (superuser_config pg (dbname pg) password) s2 = (rc, s')"
      unfolding connectToDatabase_def unf by simp
    with con that(2) show ?thesis by blast
  qed
qed

text \<open>What the rest of a reconciliation keeps: the services are up, and \<open>D\<close> is shared.\<close>

lemma rest_keeps:
  assumes "up (ext s) \<and> shared (ext s) = D"
  shows "requeueResult d t s = (res, s') \<Longrightarrow> up (ext s') \<and> shared (ext s') = D"
    "retryResult d t s = (res, s') \<Longrightarrow> up (ext s') \<and> shared (ext s') = D"
    "Close d cl s = (ce, s') \<Longrightarrow> up (ext s') \<and> shared (ext s') = D"
    "patchCondition d as_object conds ob gen st reason msg s = (ob', s') \<Longrightarrow> wob \<in> wanted \<Longrightarrow>
       \<forall>f. erased (as_object (conds f ob)) = erased wob \<Longrightarrow> up (ext s') \<and> shared (ext s') = D"
proof -
  note i = isolated [unfolded pg_isolated_def] shared_view [of _ 0]
  have rand: "up (snd (rand_draw d w))" "shared (snd (rand_draw d w)) = shared w" if "up w" for w
    using stays_up [OF that] i by simp_all
  show "requeueResult d t s = (res, s') \<Longrightarrow> up (ext s') \<and> shared (ext s') = D"
    using rand [of "ext s"] assms by (auto simp: requeueResult_def addJitter_def Let_def call_defs split: prod.splits)
  show "retryResult d t s = (res, s') \<Longrightarrow> up (ext s') \<and> shared (ext s') = D"
    using rand [of "ext s"] assms by (auto simp: retryResult_def addJitter_def Let_def call_defs split: prod.splits)
  have close: "up (snd (pgx_Close d c w))" "shared (snd (pgx_Close d c w)) = shared w" if "up w" for c w
    using stays_up [OF that] i by simp_all
  show "Close d cl s = (ce, s') \<Longrightarrow> up (ext s') \<and> shared (ext s') = D"
    using close [of "ext s" "conn cl"] assms by (auto simp: Close_def call_defs split: prod.splits)
  show "up (ext s') \<and> shared (ext s') = D"
    if run: "patchCondition d as_object conds ob gen st reason msg s = (ob', s')" and w: "wob \<in> wanted"
      and e: "\<forall>f. erased (as_object (conds f ob)) = erased wob"
  proof -
    obtain now w1 where now: "metav1_Now d (ext s) = (now, w1)" by (cases "metav1_Now d (ext s)")
    have w1: "up w1" "shared w1 = D" using assms stays_up [of "ext s"] i now by (metis snd_conv)+
    let ?c = "\<lparr>cond_Type = ConditionTypeReady, cond_Status = st, cond_ObservedGeneration = gen,
        cond_LastTransitionTime = now, cond_Reason = reason, cond_Message = msg\<rparr>"
    have "ext s' = snd (k8s_Status_Patch d (as_object ob) (as_object (conds (\<lambda>cs. SetStatusCondition d cs ?c) ob)) w1)"
      using run now by (auto simp: patchCondition_def Let_def call_defs split: prod.splits)
    with patches [OF w1(1) w e [rule_format]] w1(2) i show ?thesis by simp
  qed
qed

text \<open>Updates with the finalizer go through, and keep the rest.\<close>

lemma isolated_shared:
  "shared (snd (k8s_Update_Database d db w)) = shared w" "shared (snd (k8s_Update_User d user w)) = shared w"
  "shared (snd (k8s_Update_Grant d grant w)) = shared w"
  using isolated shared_view [of _ 0] by (simp_all add: pg_isolated_def)

lemma updates:
  assumes "up (ext s)"
  shows "Database_object db \<in> wanted \<Longrightarrow> erased (Database_object y) = erased (Database_object db) \<Longrightarrow>
      Database_object y \<in> stored (ext s) \<Longrightarrow> Update_Database d (db_add_finalizer d y) s = (rdb, s') \<Longrightarrow>
      (\<exists>z. rdb = Inr z \<and> erased (Database_object z) = erased (Database_object db)) \<and>
      up (ext s') \<and> shared (ext s') = shared (ext s)"
    "User_object user \<in> wanted \<Longrightarrow> erased (User_object yu) = erased (User_object user) \<Longrightarrow>
      User_object yu \<in> stored (ext s) \<Longrightarrow> Update_User d (user_add_finalizer d yu) s = (ru, s') \<Longrightarrow>
      (\<exists>z. ru = Inr z \<and> erased (User_object z) = erased (User_object user)) \<and>
      up (ext s') \<and> shared (ext s') = shared (ext s)"
    "Grant_object grant \<in> wanted \<Longrightarrow> erased (Grant_object yg) = erased (Grant_object grant) \<Longrightarrow>
      Grant_object yg \<in> stored (ext s) \<Longrightarrow> Update_Grant d (grant_add_finalizer d yg) s = (rg, s') \<Longrightarrow>
      (\<exists>z. rg = Inr z \<and> erased (Grant_object z) = erased (Grant_object grant)) \<and>
      up (ext s') \<and> shared (ext s') = shared (ext s)"
proof -
  show "(\<exists>z. rdb = Inr z \<and> erased (Database_object z) = erased (Database_object db)) \<and> up (ext s') \<and> shared (ext s') = shared (ext s)"
    if m: "Database_object db \<in> wanted" and e: "erased (Database_object y) = erased (Database_object db)"
      and st: "Database_object y \<in> stored (ext s)" and u: "Update_Database d (db_add_finalizer d y) s = (rdb, s')"
  proof -
    obtain w where w: "k8s_Update_Database d (db_add_finalizer d y) (ext s) = (rdb, w)" "ext s' = w"
      using u by (auto simp: call_defs split: prod.splits)
    with isolated_shared(1) [of "db_add_finalizer d y" "ext s"]
      updates_Database [OF assms m e st w(1)]
    show ?thesis by simp
  qed
  show "(\<exists>z. ru = Inr z \<and> erased (User_object z) = erased (User_object user)) \<and> up (ext s') \<and> shared (ext s') = shared (ext s)"
    if m: "User_object user \<in> wanted" and e: "erased (User_object yu) = erased (User_object user)"
      and st: "User_object yu \<in> stored (ext s)" and u: "Update_User d (user_add_finalizer d yu) s = (ru, s')"
  proof -
    obtain w where w: "k8s_Update_User d (user_add_finalizer d yu) (ext s) = (ru, w)" "ext s' = w"
      using u by (auto simp: call_defs split: prod.splits)
    with isolated_shared(2) [of "user_add_finalizer d yu" "ext s"]
      updates_User [OF assms m e st w(1)]
    show ?thesis by simp
  qed
  show "(\<exists>z. rg = Inr z \<and> erased (Grant_object z) = erased (Grant_object grant)) \<and> up (ext s') \<and> shared (ext s') = shared (ext s)"
    if m: "Grant_object grant \<in> wanted" and e: "erased (Grant_object yg) = erased (Grant_object grant)"
      and st: "Grant_object yg \<in> stored (ext s)" and u: "Update_Grant d (grant_add_finalizer d yg) s = (rg, s')"
  proof -
    obtain w where w: "k8s_Update_Grant d (grant_add_finalizer d yg) (ext s) = (rg, w)" "ext s' = w"
      using u by (auto simp: call_defs split: prod.splits)
    with isolated_shared(3) [of "grant_add_finalizer d yg" "ext s"]
      updates_Grant [OF assms m e st w(1)]
    show ?thesis by simp
  qed
qed

text \<open>A reconciliation of a wanted database creates it, and reports it \<open>Ready\<close>.\<close>

lemma database_session:
  assumes "up (ext s)" "bases (ext s)" "Database_object db \<in> wanted"
    and rec: "Reconcile_Database d (object_key (db_ObjectMeta db)) s = (r, s')"
  shows "up (ext s') \<and> shared (ext s') = (insert (DatabaseName db) (fst (shared (ext s))), snd (shared (ext s)))"
    "succeeded d r s s'"
proof -
  let ?D = "(insert (DatabaseName db) (fst (shared (ext s))), snd (shared (ext s)))"
  note want = wants [OF assms(3)]
  obtain y s1 where y: "Get_Database d (object_key (db_ObjectMeta db)) s = (Inr y, s1)" "up (ext s1)"
    "shared (ext s1) = shared (ext s)" and e: "erased (Database_object y) = erased (Database_object db)"
    and cur: "Database_object y \<in> stored (ext s1)"
    using reads_Database [OF assms(1,3)]
    by (cases "k8s_Get_Database d (object_key (db_ObjectMeta db)) (ext s)") (auto simp: call_defs)
  note m = erased_meta_eq [OF erased_Database(2) [OF e]]
  have n: "DatabaseName y = DatabaseName db" using erased_Database(1) [OF e] m by (simp add: DatabaseName_def)
  have t: "Time_IsZero d (om_DeletionTimestamp (db_ObjectMeta y))" using want m by simp
  obtain rc s2 where con: "connectToPostgres d (om_Namespace (db_ObjectMeta y)) (dbs_PostgresRef (db_Spec y)) s1 = (rc, s2)"
    by (cases "connectToPostgres d (om_Namespace (db_ObjectMeta y)) (dbs_PostgresRef (db_Spec y)) s1")
  have "resolvable inst secrets own_database (om_Namespace (db_ObjectMeta y)) (dbs_PostgresRef (db_Spec y))"
    using want m erased_Database(1) [OF e] by simp
  with connection(1) [OF y(2) this con refl] assms(2) y(3) obtain c where
    c: "rc = Inr c" "up (ext s2)" "shared (ext s2) = shared (ext s)" "stored (ext s2) = stored (ext s1)"
    by (auto simp: bases_def)
  obtain ra s3 where a: "CreateDatabase d c (DatabaseName y) s2 = (ra, s3)" by (cases "CreateDatabase d c (DatabaseName y) s2")
  have name: "pg_name (DatabaseName y)" "plain_text (DatabaseName y)" using want n by simp_all
  note ok = live_server.CreateDatabase_succeeds [OF server_keeps [of "stored (ext s1)"] _ name(1) a name(2)]
  have ok: "ra = None" "up (ext s3)" "stored (ext s3) = stored (ext s1)" using ok c(2,4) by simp_all
  have D: "up (ext s3) \<and> shared (ext s3) = ?D"
    using ok CreateDatabase_abs [OF server sanitize name(1) a [unfolded ok(1)]] c(3) n
      shared_view [of _ "conn c"] by (auto simp: ensure_database_def)
  have ap: "db_apply d y c s2 = (None, s3)" using a ok(1) by (simp add: db_apply_def)
  note upd = updates(1) [OF _ assms(3) e]
  show "up (ext s') \<and> shared (ext s') = ?D"
  proof (rule dbr.reconcile_keeps [OF y(1) t con rec, where Q = "\<lambda>z. erased (Database_object z) = erased (Database_object db)"])
    show "up (ext s4) \<and> shared (ext s4) = ?D" if "rc = Inr c'" "db_apply d y c' s2 = (ra', s4)" for c' ra' s4
      using that c(1) ap D by simp
    show "(up (ext s4) \<and> shared (ext s4) = ?D) \<and> (\<forall>z. ru = Inr z \<longrightarrow> erased (Database_object z) = erased (Database_object db))"
      if "rc = Inr c'" "db_apply d y c' s2 = (None, s0)" "Update_Database d (db_add_finalizer d y) s0 = (ru, s4)" for c' s0 ru s4
    proof -
      have "s0 = s3" using that(1,2) c(1) ap by simp
      with upd [OF _ _ that(3)] D ok(3) cur show ?thesis by auto
    qed
    show "up (ext s4) \<and> shared (ext s4) = ?D" if "up (ext s0) \<and> shared (ext s0) = ?D"
      "erased (Database_object z) = erased (Database_object db)" "db_patch d z st reason msg s0 = (z', s4)"
      for z st reason msg s0 z' s4
      by (rule rest_keeps(4) [OF that(1) that(3) [unfolded db_patch_def] assms(3)]) (simp only: erased_conditions that(2) simp_thms)
  qed (use c(1) e rest_keeps in blast)+
  obtain ru s4 where ru: "Update_Database d (db_add_finalizer d y) s3 = (ru, s4)"
    by (cases "Update_Database d (db_add_finalizer d y) s3")
  with upd [OF _ _ ru] D ok(3) cur have "ContainsFinalizer d (db_ObjectMeta y) FinalizerName \<or> (\<exists>z s4. Update_Database d (db_add_finalizer d y) s3 = (Inr z, s4))"
    by auto
  from dbr.progress [OF y(1) t con [unfolded c(1)] ap this rec] patched_ready(1) [OF status]
  show "succeeded d r s s'" unfolding succeeded_def reports_ready_def by metis
qed

text \<open>A reconciliation of a wanted user ensures its role, and reports it \<open>Ready\<close>.\<close>

lemma user_session:
  assumes "up (ext s)" "bases (ext s)" "User_object user \<in> wanted"
    and rec: "Reconcile_User d (object_key (user_ObjectMeta user)) s = (r, s')"
  shows "\<exists>p. up (ext s') \<and> shared (ext s') = (fst (shared (ext s)), (snd (shared (ext s)))(RoleName user \<mapsto> (True, p)))"
    "succeeded d r s s'"
proof -
  note want = wants [OF assms(3)]
  obtain y s1 where y: "Get_User d (object_key (user_ObjectMeta user)) s = (Inr y, s1)" "up (ext s1)"
    "shared (ext s1) = shared (ext s)" and e: "erased (User_object y) = erased (User_object user)"
    and cur: "User_object y \<in> stored (ext s1)"
    using reads_User [OF assms(1,3)]
    by (cases "k8s_Get_User d (object_key (user_ObjectMeta user)) (ext s)") (auto simp: call_defs)
  note m = erased_meta_eq [OF erased_User(2) [OF e]] and spec = erased_User(1) [OF e]
  have n: "RoleName y = RoleName user" using spec m by (simp add: RoleName_def)
  have t: "Time_IsZero d (om_DeletionTimestamp (user_ObjectMeta y))" using want m by simp
  obtain rc s2 where con: "connectToPostgres d (om_Namespace (user_ObjectMeta y)) (us_PostgresRef (user_Spec y)) s1 = (rc, s2)"
    by (cases "connectToPostgres d (om_Namespace (user_ObjectMeta y)) (us_PostgresRef (user_Spec y)) s1")
  have "resolvable inst secrets own_database (om_Namespace (user_ObjectMeta y)) (us_PostgresRef (user_Spec y))"
    using want m spec by simp
  with connection(1) [OF y(2) this con refl] assms(2) y(3) obtain c where
    c: "rc = Inr c" "up (ext s2)" "shared (ext s2) = shared (ext s)" "stored (ext s2) = stored (ext s1)"
    by (auto simp: bases_def)
  obtain secret password where sec: "secrets (password_key user) = Some secret"
    "secret_Data secret (skr_Key (us_PasswordSecretKeyRef (user_Spec user))) = Some password" "plain_text password"
    using want by auto
  obtain s3 where p: "getSecretValue d (om_Namespace (user_ObjectMeta y)) (us_PasswordSecretKeyRef (user_Spec y)) s2 = (Inr password, s3)"
    "up (ext s3)" "shared (ext s3) = shared (ext s)" "stored (ext s3) = stored (ext s1)"
    using reads_secret [OF c(2) sec(1)] sec(2) c(3,4) spec m
    by (cases "k8s_Get_Secret d (password_key user) (ext s2)") (auto simp: getSecretValue_def call_defs password_key_def)
  obtain ra s4 where a: "CreateOrUpdateRole d c (RoleName y) password s3 = (ra, s4)"
    by (cases "CreateOrUpdateRole d c (RoleName y) password s3")
  have name: "pg_name (RoleName y)" "free_role (RoleName y)" using want n by simp_all
  note ok = live_server.CreateOrUpdateRole_succeeds [OF server_keeps [of "stored (ext s1)"] _ name(1) a name(2) sec(3)]
  have ok: "ra = None" "up (ext s4)" "stored (ext s4) = stored (ext s1)" using ok p(2,4) by simp_all
  let ?D = "(fst (shared (ext s)), (snd (shared (ext s)))(RoleName user \<mapsto> (True, stored_value std password)))"
  have D: "up (ext s4) \<and> shared (ext s4) = ?D"
    using ok CreateOrUpdateRole_abs [OF server sanitize name(1) a [unfolded ok(1)]] p(3) n
      shared_view [of _ "conn c"] by (auto simp: ensure_role_def)
  have ap: "user_apply d y c s2 = (None, s4)" using p(1) a ok(1) by (simp add: user_apply_def)
  note upd = updates(2) [OF _ assms(3) e]
  have "up (ext s') \<and> shared (ext s') = ?D"
  proof (rule ur.reconcile_keeps [OF y(1) t con rec, where Q = "\<lambda>z. erased (User_object z) = erased (User_object user)"])
    show "up (ext s4) \<and> shared (ext s4) = ?D" if "rc = Inr c'" "user_apply d y c' s2 = (ra', s4)" for c' ra' s4
      using that c(1) ap D by simp
    show "(up (ext s5) \<and> shared (ext s5) = ?D) \<and> (\<forall>z. ru = Inr z \<longrightarrow> erased (User_object z) = erased (User_object user))"
      if "rc = Inr c'" "user_apply d y c' s2 = (None, s0)" "Update_User d (user_add_finalizer d y) s0 = (ru, s5)" for c' s0 ru s5
    proof -
      have "s0 = s4" using that(1,2) c(1) ap by simp
      with upd [OF _ _ that(3)] D ok(3) cur show ?thesis by auto
    qed
    show "up (ext s4) \<and> shared (ext s4) = ?D" if "up (ext s0) \<and> shared (ext s0) = ?D"
      "erased (User_object z) = erased (User_object user)" "user_patch d z st reason msg s0 = (z', s4)"
      for z st reason msg s0 z' s4
      by (rule rest_keeps(4) [OF that(1) that(3) [unfolded user_patch_def] assms(3)]) (simp only: erased_conditions that(2) simp_thms)
  qed (use c(1) e rest_keeps in blast)+
  then show "\<exists>p. up (ext s') \<and> shared (ext s') = (fst (shared (ext s)), (snd (shared (ext s)))(RoleName user \<mapsto> (True, p)))"
    by blast
  obtain ru s5 where ru: "Update_User d (user_add_finalizer d y) s4 = (ru, s5)"
    by (cases "Update_User d (user_add_finalizer d y) s4")
  with upd [OF _ _ ru] D ok(3) cur have "ContainsFinalizer d (user_ObjectMeta y) FinalizerName \<or> (\<exists>z s5. Update_User d (user_add_finalizer d y) s4 = (Inr z, s5))"
    by auto
  from ur.progress [OF y(1) t con [unfolded c(1)] ap this rec] patched_ready(2) [OF status]
  show "succeeded d r s s'" unfolding succeeded_def reports_ready_def by metis
qed

text \<open>
  A reconciliation of a wanted grant changes neither databases nor roles. When its database, schema and
  role are there and it grants all privileges, it is reported \<open>Ready\<close>.
\<close>

lemma grant_session:
  assumes "up (ext s)" "Grant_object grant \<in> wanted"
    and rec: "Reconcile_Grant d (object_key (grant_ObjectMeta grant)) s = (r, s')"
  shows "up (ext s') \<and> shared (ext s') = shared (ext s)"
    "gs_Database (grant_Spec grant) \<in> fst (shared (ext s)) \<Longrightarrow> snd (shared (ext s)) (gs_Role (grant_Spec grant)) \<noteq> None \<Longrightarrow>
     gs_Schema (grant_Spec grant) \<in> schemas \<Longrightarrow> good_opts ps (grant_opts grant) \<Longrightarrow> all_privileges ps \<Longrightarrow> succeeded d r s s'"
proof -
  note want = wants [OF assms(2)]
  obtain y s1 where y: "Get_Grant d (object_key (grant_ObjectMeta grant)) s = (Inr y, s1)" "up (ext s1)"
    "shared (ext s1) = shared (ext s)" and e: "erased (Grant_object y) = erased (Grant_object grant)"
    and cur: "Grant_object y \<in> stored (ext s1)"
    using reads_Grant [OF assms(1,2)]
    by (cases "k8s_Get_Grant d (object_key (grant_ObjectMeta grant)) (ext s)") (auto simp: call_defs)
  note m = erased_meta_eq [OF erased_Grant(2) [OF e]] and spec = erased_Grant(1) [OF e]
  have opts: "grant_opts y = grant_opts grant" using spec by (simp add: grant_opts_def)
  have t: "Time_IsZero d (om_DeletionTimestamp (grant_ObjectMeta y))" using want m by simp
  obtain rc s2 where con: "connectToDatabase d (om_Namespace (grant_ObjectMeta y)) (gs_PostgresRef (grant_Spec y))
      (gs_Database (grant_Spec y)) s1 = (rc, s2)"
    by (cases "connectToDatabase d (om_Namespace (grant_ObjectMeta y)) (gs_PostgresRef (grant_Spec y)) (gs_Database (grant_Spec y)) s1")
  have res: "resolvable inst secrets (\<lambda>_. gs_Database (grant_Spec y)) (om_Namespace (grant_ObjectMeta y)) (gs_PostgresRef (grant_Spec y))"
    using want m spec by simp
  note c = connection(2) [OF y(2) res con refl]
  obtain qs where qs: "good_opts qs (grant_opts y)" using want opts by auto
  let ?D = "shared (ext s)"
  have tried: "(up (ext s4) \<and> shared (ext s4) = ?D) \<and> stored (ext s4) = stored (ext s1)" if ap: "grant_apply d y c' s2 = (ra, s4)" for c' ra s4
  proof -
    obtain rg where "GrantPrivileges d c' (grant_opts y) s2 = (rg, s4)"
      using ap by (auto simp: grant_apply_def split: prod.splits option.splits)
    from live_server.GrantPrivileges_up(1-3) [OF server_keeps [of "stored (ext s1)"] _ qs this] c y(3)
      shared_view [of _ "conn c'"] show ?thesis by auto
  qed
  have I2: "up (ext s2) \<and> shared (ext s2) = ?D" using c y(3) by simp
  note upd = updates(3) [OF _ assms(2) e]
  show "up (ext s') \<and> shared (ext s') = ?D"
  proof (rule gr.reconcile_keeps [OF y(1) t con rec, where Q = "\<lambda>z. erased (Grant_object z) = erased (Grant_object grant)"])
    show "up (ext s4) \<and> shared (ext s4) = ?D" if "rc = Inr c'" "grant_apply d y c' s2 = (ra', s4)" for c' ra' s4
      using tried [OF that(2)] by blast
    show "(up (ext s4) \<and> shared (ext s4) = ?D) \<and> (\<forall>z. ru = Inr z \<longrightarrow> erased (Grant_object z) = erased (Grant_object grant))"
      if "rc = Inr c'" "grant_apply d y c' s2 = (None, s0)" "Update_Grant d (grant_add_finalizer d y) s0 = (ru, s4)" for c' s0 ru s4
      using upd [OF _ _ that(3)] tried [OF that(2)] cur by auto
    show "up (ext s4) \<and> shared (ext s4) = ?D" if "up (ext s0) \<and> shared (ext s0) = ?D"
      "erased (Grant_object z) = erased (Grant_object grant)" "grant_patch d z st reason msg s0 = (z', s4)"
      for z st reason msg s0 z' s4
      by (rule rest_keeps(4) [OF that(1) that(3) [unfolded grant_patch_def] assms(2)]) (simp only: erased_conditions that(2) simp_thms)
  qed (use I2 e rest_keeps in blast)+
  show "succeeded d r s s'"
    if there: "gs_Database (grant_Spec grant) \<in> fst ?D" "snd ?D (gs_Role (grant_Spec grant)) \<noteq> None"
      "gs_Schema (grant_Spec grant) \<in> schemas" and all: "good_opts ps (grant_opts grant)" "all_privileges ps"
  proof -
    obtain cl where cl: "rc = Inr cl" "schemas \<subseteq> pg_schemas (view (conn cl) (ext s2))"
      using c y(3) there(1) spec by auto
    obtain rg s3 where a: "GrantPrivileges d cl (grant_opts y) s2 = (rg, s3)" by (cases "GrantPrivileges d cl (grant_opts y) s2")
    have sh: "shared (ext s) = (pg_databases (view (conn cl) (ext s2)), pg_roles (view (conn cl) (ext s2)))"
      using I2 shared_view [of "ext s2" "conn cl"] by simp
    have "grantable (grant_opts grant) (view (conn cl) (ext s2))"
      using there cl(2) unfolding sh by (auto simp: grantable_def grant_opts_def role_exists_def)
    with GrantPrivileges_up(4) [OF _ all(1) a [unfolded opts] all(2)] c want have "rg = None" by simp
    with a have ap: "grant_apply d y cl s2 = (None, s3)" by (simp add: grant_apply_def)
    obtain ru s5 where ru: "Update_Grant d (grant_add_finalizer d y) s3 = (ru, s5)"
      by (cases "Update_Grant d (grant_add_finalizer d y) s3")
    with upd [OF _ _ ru] tried [OF ap] cur have "ContainsFinalizer d (grant_ObjectMeta y) FinalizerName
        \<or> (\<exists>z s5. Update_Grant d (grant_add_finalizer d y) s3 = (Inr z, s5))" by auto
    from gr.progress [OF y(1) t con [unfolded cl(1)] ap this rec] patched_ready(3) [OF status]
    show ?thesis unfolding succeeded_def reports_ready_def by metis
  qed
qed

end

section \<open>Runs\<close>

text \<open>
  A calm run: reconciliations of the objects in the list, oldest first, with changes of the world between
  them that leave the services up and remove no database and no role.
\<close>

inductive calm_run ::
  "'w deps \<Rightarrow> ('w \<Rightarrow> bool) \<Rightarrow> ('w \<Rightarrow> string set \<times> (string \<rightharpoonup> bool \<times> string)) \<Rightarrow> client_object list \<Rightarrow> 'w world \<Rightarrow> 'w world \<Rightarrow> bool"
  for d up shared where
  start: "calm_run d up shared [] s s"
| request: "calm_run d up shared xs s s1 \<Longrightarrow>
    Reconcile d (kind_of x) (object_key (object_meta x)) s1 = (r, s2) \<Longrightarrow> calm_run d up shared (xs @ [x]) s s2"
| calm: "calm_run d up shared xs s s1 \<Longrightarrow> up w \<Longrightarrow> fst (shared (ext s1)) \<subseteq> fst (shared w) \<Longrightarrow>
    dom (snd (shared (ext s1))) \<subseteq> dom (snd (shared w)) \<Longrightarrow> calm_run d up shared xs s (s1\<lparr>ext := w\<rparr>)"

context live_services
begin

lemma grant_included:
  "st' = st\<lparr>pg_acl := pg_acl st \<union> granted_entries opts st \<union> {usage_entry opts}\<rparr> \<Longrightarrow>
   granted_entries opts st' \<union> {usage_entry opts} \<subseteq> pg_acl st'"
  by (simp add: granted_entries_def) blast

lemma bases_mono: "bases w \<Longrightarrow> fst (shared w) \<subseteq> fst (shared w') \<Longrightarrow> bases w'"
  by (auto simp: bases_def)

lemma request_grows:
  assumes "up (ext s)" "bases (ext s)" "x \<in> wanted" "Reconcile d (kind_of x) (object_key (object_meta x)) s = (r, s')"
  shows "up (ext s')" "fst (shared (ext s)) \<subseteq> fst (shared (ext s'))" "dom (snd (shared (ext s))) \<subseteq> dom (snd (shared (ext s')))"
    "x = Database_object db \<Longrightarrow> DatabaseName db \<in> fst (shared (ext s')) \<and> succeeded d r s s'"
    "x = User_object user \<Longrightarrow> RoleName user \<in> dom (snd (shared (ext s'))) \<and> succeeded d r s s'"
proof -
  have "up (ext s') \<and> fst (shared (ext s)) \<subseteq> fst (shared (ext s')) \<and> dom (snd (shared (ext s))) \<subseteq> dom (snd (shared (ext s'))) \<and>
    (\<forall>db. x = Database_object db \<longrightarrow> DatabaseName db \<in> fst (shared (ext s')) \<and> succeeded d r s s') \<and>
    (\<forall>user. x = User_object user \<longrightarrow> RoleName user \<in> dom (snd (shared (ext s'))) \<and> succeeded d r s s')"
  proof (cases x)
    case (PostgreSQL_object pg)
    with wants [OF assms(3)] show ?thesis by simp
  next
    case (Database_object db)
    with assms(3,4) database_session [OF assms(1,2), of db r s'] show ?thesis by auto
  next
    case (User_object user)
    with assms(3,4) user_session [OF assms(1,2), of user r s'] show ?thesis by auto
  next
    case (Grant_object grant)
    with assms(3,4) grant_session(1) [OF assms(1), of grant r s'] show ?thesis by auto
  qed
  then show "up (ext s')" "fst (shared (ext s)) \<subseteq> fst (shared (ext s'))" "dom (snd (shared (ext s))) \<subseteq> dom (snd (shared (ext s')))"
    "x = Database_object db \<Longrightarrow> DatabaseName db \<in> fst (shared (ext s')) \<and> succeeded d r s s'"
    "x = User_object user \<Longrightarrow> RoleName user \<in> dom (snd (shared (ext s'))) \<and> succeeded d r s s'"
    by blast+
qed

lemma calm_run_grows:
  assumes "calm_run d up shared xs s s'" "up (ext s)" "bases (ext s)" "set xs \<subseteq> wanted"
  shows "up (ext s') \<and> bases (ext s') \<and>
    (\<forall>db. Database_object db \<in> set xs \<longrightarrow> DatabaseName db \<in> fst (shared (ext s'))) \<and>
    (\<forall>user. User_object user \<in> set xs \<longrightarrow> RoleName user \<in> dom (snd (shared (ext s'))))"
  using assms
proof (induction rule: calm_run.induct)
  case (request xs s s1 x r s2)
  then have IH: "up (ext s1)" "bases (ext s1)" and x: "x \<in> wanted"
    "\<forall>db. Database_object db \<in> set xs \<longrightarrow> DatabaseName db \<in> fst (shared (ext s1))"
    "\<forall>user. User_object user \<in> set xs \<longrightarrow> RoleName user \<in> dom (snd (shared (ext s1)))" by auto
  note g = request_grows [OF IH x(1) request.hyps(2)]
  have set_eq: "set (xs @ [x]) = insert x (set xs)" by auto
  have "\<forall>db. Database_object db \<in> set (xs @ [x]) \<longrightarrow> DatabaseName db \<in> fst (shared (ext s2))"
    unfolding set_eq using g(2,4) x(2) by blast
  moreover have "\<forall>user. User_object user \<in> set (xs @ [x]) \<longrightarrow> RoleName user \<in> dom (snd (shared (ext s2)))"
    unfolding set_eq using g(3,5) x(3) by blast
  ultimately show ?case using g(1) bases_mono [OF IH(2) g(2)] by blast
next
  case (calm xs s s1 w)
  then show ?case using bases_mono [of "ext s1" w] by (simp add: subset_eq)
qed simp

text \<open>The grant converges once its database and its role were reconciled, in whatever order and however often.\<close>

lemma grant_converges:
  assumes "calm_run d up shared xs s s1" "up (ext s)" "bases (ext s)" "set xs \<subseteq> wanted"
    and "Database_object db \<in> set xs" "DatabaseName db = gs_Database (grant_Spec grant)"
    and "User_object user \<in> set xs" "RoleName user = gs_Role (grant_Spec grant)"
    and "Grant_object grant \<in> wanted" "gs_Schema (grant_Spec grant) \<in> schemas"
    and "good_opts ps (grant_opts grant)" "all_privileges ps"
    and rec: "Reconcile_Grant d (object_key (grant_ObjectMeta grant)) s1 = (r, s')"
  shows "succeeded d r s1 s'"
    "\<exists>c s2. connectToDatabase d (om_Namespace (grant_ObjectMeta grant)) (gs_PostgresRef (grant_Spec grant))
        (gs_Database (grant_Spec grant)) (snd (Get_Grant d (object_key (grant_ObjectMeta grant)) s1)) = (Inr c, s2) \<and>
      granted_entries (grant_opts grant) (view (conn c) (ext s')) \<union> {usage_entry (grant_opts grant)}
        \<subseteq> pg_acl (view (conn c) (ext s'))"
proof -
  have there: "up (ext s1)" "gs_Database (grant_Spec grant) \<in> fst (shared (ext s1))"
    "snd (shared (ext s1)) (gs_Role (grant_Spec grant)) \<noteq> None"
    using calm_run_grows [OF assms(1-4)] assms(5-8) by (auto simp: dom_def)
  from grant_session(2) [OF there(1) assms(9) rec there(2,3) assms(10-12)]
  show ready: "succeeded d r s1 s'" .
  then obtain pre orig ob e post where ev: "emits s1 s' (pre @ EvPatch orig ob e # post)" "object_ready ob"
    by (auto simp: succeeded_def reports_ready_def)
  obtain y s2 c s3 s4 where run: "Get_Grant d (object_key (grant_ObjectMeta grant)) s1 = (Inr y, s2)"
    "connectToDatabase d (om_Namespace (grant_ObjectMeta y)) (gs_PostgresRef (grant_Spec y)) (gs_Database (grant_Spec y)) s2 = (Inr c, s3)"
    "GrantPrivileges d c (grant_opts y) s3 = (None, s4)" "view (conn c) (ext s') = view (conn c) (ext s4)"
    by (rule grant_ready_run [OF isolated status rec ev]) (rule that)
  obtain w where "k8s_Get_Grant d (object_key (grant_ObjectMeta grant)) (ext s1) = (Inr y, w)"
    using run(1) by (auto simp: call_defs split: prod.splits)
  with reads_Grant [OF there(1) assms(9)] have "erased (Grant_object y) = erased (Grant_object grant)" by blast
  note m = erased_meta_eq [OF erased_Grant(2) [OF this]] and spec = erased_Grant(1) [OF this]
  have opts: "grant_opts y = grant_opts grant" using spec by (simp add: grant_opts_def)
  have "ps \<noteq> []" using assms(12) by (auto simp: all_privileges_def)
  note eff = grant_effect(2) [OF GrantPrivileges_abs [OF server sanitize assms(11) run(3) [unfolded opts]] this]
  have "granted_entries (grant_opts grant) (view (conn c) (ext s')) \<union> {usage_entry (grant_opts grant)}
      \<subseteq> pg_acl (view (conn c) (ext s'))"
    by (rule grant_included) (rule trans [OF run(4) eff])
  with run(1,2) m spec show "\<exists>c s2. connectToDatabase d (om_Namespace (grant_ObjectMeta grant)) (gs_PostgresRef (grant_Spec grant))
        (gs_Database (grant_Spec grant)) (snd (Get_Grant d (object_key (grant_ObjectMeta grant)) s1)) = (Inr c, s2) \<and>
      granted_entries (grant_opts grant) (view (conn c) (ext s')) \<union> {usage_entry (grant_opts grant)}
        \<subseteq> pg_acl (view (conn c) (ext s'))" by auto
qed

end

end
