(* ===== verification/ConvergenceProperties.thy ===== *)
theory ConvergenceProperties
  imports Convergence SchemaProperties
begin

text \<open>
  Convergence as a property of the operator, and the services of \<open>RefWorld\<close> as an instance of those it
  asks for.
\<close>

section \<open>The reference world is up\<close>












lemma same_key:
  "erased (Database_object y) = erased (Database_object db) \<Longrightarrow> object_key (db_ObjectMeta y) = object_key (db_ObjectMeta db)"
  "erased (User_object yu) = erased (User_object user) \<Longrightarrow> object_key (user_ObjectMeta yu) = object_key (user_ObjectMeta user)"
  "erased (Grant_object yg) = erased (Grant_object grant) \<Longrightarrow> object_key (grant_ObjectMeta yg) = object_key (grant_ObjectMeta grant)"
  unfolding object_key_def
  by (drule erased_Database(2) erased_User(2) erased_Grant(2), frule erased_meta_eq(1), drule erased_meta_eq(2), simp)+








section \<open>Convergence\<close>








end
