(* ===== verification/GoHeap.thy ===== *)
theory GoHeap
  imports ApiTypes "HOL-Library.Monad_Syntax"
begin

text \<open>
  Memory with pointers and slices, for the code that copies objects: the structs of
  \<open>api/v1alpha1\<close> as they lie in memory, the heap they lie in, what it means for a function to be a
  deep copy, and the ways deep copies are composed. The values themselves are those of \<open>ApiTypes\<close>.
\<close>

section \<open>Structs in memory\<close>

text \<open>
  A pointer is an address or nil. A slice is nil or a window of an array. Structs without pointers
  are the records of \<open>ApiTypes\<close>. Of \<open>metav1.ObjectMeta\<close> and \<open>metav1.ListMeta\<close> the records hold the
  fields the operator uses and one field for each way they own memory.
\<close>

type_synonym addr = nat

record slice =
  sl_array :: addr
  sl_off :: nat
  sl_len :: nat

record mem_SQLTemplate =
  mt_RequeueInterval :: "addr option"
  mt_RetryInterval :: "addr option"
  mt_CleanupPolicy :: CleanupPolicy

record mem_ObjectMeta =
  mo_Name :: string
  mo_Namespace :: string
  mo_Generation :: int64
  mo_DeletionTimestamp :: "addr option"
  mo_Finalizers :: "slice option"

record mem_ListMeta =
  ml_ResourceVersion :: string
  ml_Continue :: string
  ml_RemainingItemCount :: "addr option"

record mem_Status =
  ms_Conditions :: "slice option"

record mem_DatabaseSpec =
  mds_SQLTemplate :: mem_SQLTemplate
  mds_PostgresRef :: PostgresRef
  mds_Name :: string

record mem_UserSpec =
  mus_SQLTemplate :: mem_SQLTemplate
  mus_PostgresRef :: PostgresRef
  mus_Name :: string
  mus_PasswordSecretKeyRef :: SecretKeyRef

record mem_GrantSpec =
  mgs_SQLTemplate :: mem_SQLTemplate
  mgs_PostgresRef :: PostgresRef
  mgs_Privileges :: "slice option"
  mgs_Database :: string
  mgs_Schema :: string
  mgs_Role :: string

text \<open>The four kinds of objects differ in their spec only, and their lists in the kind of item.\<close>

record 's mem_object =
  mob_TypeMeta :: TypeMeta
  mob_ObjectMeta :: mem_ObjectMeta
  mob_Spec :: 's
  mob_Status :: mem_Status

record mem_List =
  mli_TypeMeta :: TypeMeta
  mli_ListMeta :: mem_ListMeta
  mli_Items :: "slice option"

type_synonym mem_PostgreSQL = "PostgreSQLSpec mem_object"
type_synonym mem_Database = "mem_DatabaseSpec mem_object"
type_synonym mem_User = "mem_UserSpec mem_object"
type_synonym mem_Grant = "mem_GrantSpec mem_object"

section \<open>The heap\<close>

text \<open>What lies at an address: a struct or value that a pointer leads to, or the array of a slice.\<close>

datatype cell =
    Duration_cell duration | Time_cell metav1_time | Int64_cell int64
  | Strings_cell "string list" | Conditions_cell "Condition list"
  | PostgreSQLs_cell "mem_PostgreSQL list" | Databases_cell "mem_Database list"
  | Users_cell "mem_User list" | Grants_cell "mem_Grant list"
  | SQLTemplate_cell mem_SQLTemplate | PostgresRef_cell PostgresRef | SecretKeyRef_cell SecretKeyRef
  | PostgreSQLSpec_cell PostgreSQLSpec | DatabaseSpec_cell mem_DatabaseSpec
  | UserSpec_cell mem_UserSpec | GrantSpec_cell mem_GrantSpec
  | Status_cell object_kind mem_Status
  | PostgreSQL_cell mem_PostgreSQL | Database_cell mem_Database | User_cell mem_User | Grant_cell mem_Grant
  | List_cell object_kind mem_List

text \<open>Addresses from \<open>next_addr\<close> on are unused.\<close>

record heap =
  cells :: "addr \<rightharpoonup> cell"
  next_addr :: addr

text \<open>
  \<open>new(T)\<close> and \<open>make([]T, n)\<close> take an unused address. The cell is empty until it is written: the
  zero value in between is never read by the code modelled.
\<close>

definition reserve :: "heap \<Rightarrow> addr \<times> heap" where
  "reserve h = (next_addr h, h\<lparr>next_addr := Suc (next_addr h)\<rparr>)"

definition store :: "addr \<Rightarrow> cell \<Rightarrow> heap \<Rightarrow> heap" where
  "store a c h = h\<lparr>cells := (cells h)(a \<mapsto> c)\<rparr>"

text \<open>Reading through a pointer to a value of one type; anything else is a fault.\<close>

definition load :: "(cell \<Rightarrow> 'a option) \<Rightarrow> addr \<Rightarrow> heap \<Rightarrow> 'a option" where
  "load un a h = Option.bind (cells h a) un"

definition extends :: "heap \<Rightarrow> heap \<Rightarrow> bool" where
  "extends h h' \<longleftrightarrow> next_addr h \<le> next_addr h' \<and> (\<forall>a < next_addr h. cells h' a = cells h a)"

definition same_on :: "addr set \<Rightarrow> heap \<Rightarrow> heap \<Rightarrow> bool" where
  "same_on A h h' \<longleftrightarrow> next_addr h \<le> next_addr h' \<and> (\<forall>a \<in> A. cells h' a = cells h a)"

lemma extends_refl [simp]: "extends h h"
  by (simp add: extends_def)

lemma extends_trans: "extends h h' \<Longrightarrow> extends h' h'' \<Longrightarrow> extends h h''"
  by (simp add: extends_def)

lemma extends_next: "extends h h' \<Longrightarrow> next_addr h \<le> next_addr h'"
  by (simp add: extends_def)

lemma extends_same: "extends h h' \<Longrightarrow> A \<subseteq> {..<next_addr h} \<Longrightarrow> same_on A h h'"
  by (auto simp: extends_def same_on_def)

lemma extends_reserve: "reserve h = (a, h') \<Longrightarrow> extends h h' \<and> a = next_addr h \<and> next_addr h' = Suc a"
  by (auto simp: reserve_def extends_def)

lemma next_store [simp]: "next_addr (store a c h) = next_addr h"
  by (simp add: store_def)

lemma cells_store [simp]: "cells (store a c h) = (cells h)(a \<mapsto> c)"
  by (simp add: store_def)

lemma extends_store: "extends h h' \<Longrightarrow> next_addr h \<le> a \<Longrightarrow> extends h (store a c h')"
  by (auto simp: extends_def)

lemma same_on_mono: "same_on B h h' \<Longrightarrow> A \<subseteq> B \<Longrightarrow> same_on A h h'"
  by (auto simp: same_on_def)

lemma same_on_load: "same_on A h h' \<Longrightarrow> a \<in> A \<Longrightarrow> load un a h' = load un a h"
  by (simp add: same_on_def load_def)

lemma load_store [simp]: "load un a (store a c h) = un c"
  by (simp add: load_def)

section \<open>Deep copies\<close>

text \<open>
  A \<open>DeepCopyInto\<close> is given the struct its receiver points to and returns the struct written
  through \<open>out\<close>; \<open>out\<close> does not overlap the receiver. \<open>None\<close> is a fault. \<open>valid\<close> says that all
  pointers of a struct are good, \<open>fp\<close> which addresses they reach, \<open>val\<close> which value it represents.
  The contract: validity and value depend on the reachable cells only, and copying a valid struct
  does not fault, changes no used address, and yields a valid struct of the same value that only
  reaches fresh addresses.
\<close>

locale deep_copy =
  fixes copy :: "'r \<Rightarrow> heap \<Rightarrow> ('r \<times> heap) option"
    and valid :: "heap \<Rightarrow> 'r \<Rightarrow> bool"
    and fp :: "heap \<Rightarrow> 'r \<Rightarrow> addr set"
    and val :: "heap \<Rightarrow> 'r \<Rightarrow> 'v"
  assumes bounded: "valid h r \<Longrightarrow> fp h r \<subseteq> {..<next_addr h}"
    and framed: "valid h r \<Longrightarrow> same_on (fp h r) h h' \<Longrightarrow> valid h' r \<and> fp h' r = fp h r \<and> val h' r = val h r"
    and copied: "valid h r \<Longrightarrow> \<exists>r' h'. copy r h = Some (r', h') \<and> extends h h' \<and> valid h' r' \<and>
      val h' r' = val h r \<and> fp h' r' \<subseteq> {next_addr h..}"
begin

lemma extended: "valid h r \<Longrightarrow> extends h h' \<Longrightarrow> valid h' r \<and> fp h' r = fp h r \<and> val h' r = val h r"
  by (intro framed extends_same bounded)

lemma total: "valid h r \<Longrightarrow> copy r h \<noteq> None"
  using copied by force

lemma copy_cases:
  assumes "valid h r" "copy r h = Some (r', h')"
  shows "extends h h'" "valid h' r'" "val h' r' = val h r" "fp h' r' \<subseteq> {next_addr h..}"
  using copied [OF assms(1)] assms(2) by auto

lemma original_kept:
  assumes "valid h r" "copy r h = Some (r', h')"
  shows "valid h' r" "val h' r = val h r" "fp h' r = fp h r" "fp h' r \<inter> fp h' r' = {}"
proof -
  note c = copy_cases [OF assms]
  from extended [OF assms(1) c(1)] show "valid h' r" "val h' r = val h r" "fp h' r = fp h r" by simp_all
  with bounded [OF assms(1)] c(4) show "fp h' r \<inter> fp h' r' = {}" by (fastforce simp: subset_iff)
qed

text \<open>Writes to the memory of one of the two do not show in the other.\<close>

lemma isolated:
  assumes "valid h r" "copy r h = Some (r', h')" "next_addr h' \<le> next_addr h''"
  shows "(\<forall>a. a \<notin> fp h' r \<longrightarrow> a < next_addr h' \<longrightarrow> cells h'' a = cells h' a) \<Longrightarrow> val h'' r' = val h r"
    "(\<forall>a. a \<notin> fp h' r' \<longrightarrow> a < next_addr h' \<longrightarrow> cells h'' a = cells h' a) \<Longrightarrow> val h'' r = val h r"
proof -
  note c = copy_cases [OF assms(1,2)] and k = original_kept [OF assms(1,2)]
  have b: "fp h' r \<subseteq> {..<next_addr h'}" "fp h' r' \<subseteq> {..<next_addr h'}"
    using bounded k(1) c(2) by blast+
  show "val h'' r' = val h r" if "\<forall>a. a \<notin> fp h' r \<longrightarrow> a < next_addr h' \<longrightarrow> cells h'' a = cells h' a"
  proof -
    have "same_on (fp h' r') h' h''" using that assms(3) b k(4) by (auto simp: same_on_def)
    with framed [OF c(2)] c(3) show ?thesis by simp
  qed
  show "val h'' r = val h r" if "\<forall>a. a \<notin> fp h' r' \<longrightarrow> a < next_addr h' \<longrightarrow> cells h'' a = cells h' a"
  proof -
    have "same_on (fp h' r) h' h''" using that assms(3) b k(4) by (auto simp: same_on_def)
    with framed [OF k(1)] k(2) show ?thesis by simp
  qed
qed

end

section \<open>How deep copies are composed\<close>

text \<open>A value without pointers is copied by the assignment \<open>*out = *in\<close>.\<close>

lemma deep_copy_flat: "deep_copy (\<lambda>r h. Some (r, h)) (\<lambda>_ _. True) (\<lambda>_ _. {}) (\<lambda>_ r. r)"
  by unfold_locales simp_all

text \<open>Two fields one after the other.\<close>

definition copy_both ::
  "('a \<Rightarrow> heap \<Rightarrow> ('a \<times> heap) option) \<Rightarrow> ('b \<Rightarrow> heap \<Rightarrow> ('b \<times> heap) option) \<Rightarrow>
   'a \<times> 'b \<Rightarrow> heap \<Rightarrow> (('a \<times> 'b) \<times> heap) option" where
  "copy_both f g r h = do { (a, h) \<leftarrow> f (fst r) h; (b, h) \<leftarrow> g (snd r) h; Some ((a, b), h) }"

lemma deep_copy_both:
  assumes "deep_copy f valid1 fp1 val1" "deep_copy g valid2 fp2 val2"
  shows "deep_copy (copy_both f g) (\<lambda>h r. valid1 h (fst r) \<and> valid2 h (snd r))
    (\<lambda>h r. fp1 h (fst r) \<union> fp2 h (snd r)) (\<lambda>h r. (val1 h (fst r), val2 h (snd r)))"
proof
  fix h r
  assume v: "valid1 h (fst r) \<and> valid2 h (snd r)"
  then show "fp1 h (fst r) \<union> fp2 h (snd r) \<subseteq> {..<next_addr h}"
    using deep_copy.bounded [OF assms(1)] deep_copy.bounded [OF assms(2)] by blast
  fix h'
  assume "same_on (fp1 h (fst r) \<union> fp2 h (snd r)) h h'"
  then have "same_on (fp1 h (fst r)) h h'" "same_on (fp2 h (snd r)) h h'" by (auto intro: same_on_mono)
  with v show "(valid1 h' (fst r) \<and> valid2 h' (snd r)) \<and>
      fp1 h' (fst r) \<union> fp2 h' (snd r) = fp1 h (fst r) \<union> fp2 h (snd r) \<and>
      (val1 h' (fst r), val2 h' (snd r)) = (val1 h (fst r), val2 h (snd r))"
    using deep_copy.framed [OF assms(1)] deep_copy.framed [OF assms(2)] by blast
next
  fix h r
  assume v: "valid1 h (fst r) \<and> valid2 h (snd r)"
  obtain a h1 where a: "f (fst r) h = Some (a, h1)" using deep_copy.copied [OF assms(1)] v by blast
  note c1 = deep_copy.copy_cases [OF assms(1) conjunct1 [OF v] a]
  have v2: "valid2 h1 (snd r)" "val2 h1 (snd r) = val2 h (snd r)"
    using deep_copy.extended [OF assms(2) conjunct2 [OF v] c1(1)] by simp_all
  obtain b h2 where b: "g (snd r) h1 = Some (b, h2)" using deep_copy.copied [OF assms(2) v2(1)] by blast
  note c2 = deep_copy.copy_cases [OF assms(2) v2(1) b]
  have k: "valid1 h2 a" "fp1 h2 a = fp1 h1 a" "val1 h2 a = val1 h1 a"
    using deep_copy.extended [OF assms(1) c1(2) c2(1)] by simp_all
  have "fp1 h2 a \<union> fp2 h2 b \<subseteq> {next_addr h..}"
    using k(2) c1(4) c2(4) extends_next [OF c1(1)] by fastforce
  then show "\<exists>r' h'. copy_both f g r h = Some (r', h') \<and> extends h h' \<and> (valid1 h' (fst r') \<and> valid2 h' (snd r')) \<and>
      (val1 h' (fst r'), val2 h' (snd r')) = (val1 h (fst r), val2 h (snd r)) \<and>
      fp1 h' (fst r') \<union> fp2 h' (snd r') \<subseteq> {next_addr h..}"
    using a b k c1 c2 v2(2) extends_trans [OF c1(1) c2(1)] by (simp add: copy_both_def)
qed

text \<open>
  A struct: \<open>*out = *in\<close> copies it as it is, then the parts that own memory, \<open>part r\<close>, are copied
  and put into \<open>out\<close> by \<open>put\<close>.
\<close>

lemma deep_copy_struct:
  assumes "deep_copy f valid fp val"
    and "\<And>r h. copy r h = map_option (\<lambda>(x, h). (put x r, h)) (f (part r) h)"
    and "\<And>h r. valid' h r \<longleftrightarrow> valid h (part r)" "\<And>h r. fp' h r = fp h (part r)"
    and "\<And>h r. val' h r = build r (val h (part r))"
    and "\<And>x r. part (put x r) = x" "\<And>x r. build (put x r) = build r"
  shows "deep_copy copy valid' fp' val'"
proof
  fix h r
  assume v: "valid' h r"
  with assms(1,3,4) show "fp' h r \<subseteq> {..<next_addr h}" by (simp add: deep_copy.bounded)
  from v assms(3) have w: "valid h (part r)" by simp
  obtain x h1 where x: "f (part r) h = Some (x, h1)" using deep_copy.copied [OF assms(1) w] by blast
  show "\<exists>r' h'. copy r h = Some (r', h') \<and> extends h h' \<and> valid' h' r' \<and> val' h' r' = val' h r \<and>
      fp' h' r' \<subseteq> {next_addr h..}"
    using deep_copy.copy_cases [OF assms(1) w x] x by (simp add: assms(2-7))
  fix h'
  assume "same_on (fp' h r) h h'"
  with deep_copy.framed [OF assms(1) w] assms(3-5)
  show "valid' h' r \<and> fp' h' r = fp' h r \<and> val' h' r = val' h r" by simp
qed

text \<open>
  A pointer: nil stays nil; otherwise \<open>out := new(T)\<close>, then the struct is copied into \<open>*out\<close>. For a
  value without pointers the second step is \<open>**out = **in\<close>.
\<close>

definition copy_new ::
  "(cell \<Rightarrow> 'a option) \<Rightarrow> ('a \<Rightarrow> cell) \<Rightarrow> ('a \<Rightarrow> heap \<Rightarrow> ('a \<times> heap) option) \<Rightarrow> addr option \<Rightarrow> heap \<Rightarrow> (addr option \<times> heap) option" where
  "copy_new un mk f p h =
     (case p of
        None \<Rightarrow> Some (None, h)
      | Some a \<Rightarrow>
          (case reserve h of (b, h) \<Rightarrow>
             do { x \<leftarrow> load un a h; (y, h) \<leftarrow> f x h; Some (Some b, store b (mk y) h) }))"

definition new_valid :: "(cell \<Rightarrow> 'a option) \<Rightarrow> (heap \<Rightarrow> 'a \<Rightarrow> bool) \<Rightarrow> heap \<Rightarrow> addr option \<Rightarrow> bool" where
  "new_valid un valid h p = (case p of None \<Rightarrow> True | Some a \<Rightarrow>
     a < next_addr h \<and> (case load un a h of None \<Rightarrow> False | Some x \<Rightarrow> valid h x))"

definition new_fp :: "(cell \<Rightarrow> 'a option) \<Rightarrow> (heap \<Rightarrow> 'a \<Rightarrow> addr set) \<Rightarrow> heap \<Rightarrow> addr option \<Rightarrow> addr set" where
  "new_fp un fp h p = (case p of None \<Rightarrow> {} | Some a \<Rightarrow>
     insert a (case load un a h of None \<Rightarrow> {} | Some x \<Rightarrow> fp h x))"

definition new_val :: "(cell \<Rightarrow> 'a option) \<Rightarrow> (heap \<Rightarrow> 'a \<Rightarrow> 'v) \<Rightarrow> heap \<Rightarrow> addr option \<Rightarrow> 'v option" where
  "new_val un val h p = Option.bind p (\<lambda>a. map_option (val h) (load un a h))"

lemmas new_defs = new_valid_def new_fp_def new_val_def

lemma deep_copy_new:
  assumes "deep_copy f valid fp val" "\<And>x. un (mk x) = Some x"
  shows "deep_copy (copy_new un mk f) (new_valid un valid) (new_fp un fp) (new_val un val)"
proof
  fix h p
  assume v: "new_valid un valid h p"
  show "new_fp un fp h p \<subseteq> {..<next_addr h}"
    using v deep_copy.bounded [OF assms(1)] by (fastforce simp: new_defs split: option.splits)
  show "\<exists>p' h'. copy_new un mk f p h = Some (p', h') \<and> extends h h' \<and> new_valid un valid h' p' \<and>
      new_val un val h' p' = new_val un val h p \<and> new_fp un fp h' p' \<subseteq> {next_addr h..}"
  proof (cases p)
    case (Some a)
    with v obtain x where a: "load un a h = Some x" "a < next_addr h" "valid h x"
      by (auto simp: new_valid_def split: option.splits)
    define h1 where "h1 = snd (reserve h)"
    have e1: "extends h h1" "next_addr h1 = Suc (next_addr h)" "reserve h = (next_addr h, h1)"
      by (simp_all add: h1_def reserve_def extends_def)
    have l: "load un a h1 = Some x" using a(1) by (simp add: load_def h1_def reserve_def)
    have v1: "valid h1 x" "val h1 x = val h x" using deep_copy.extended [OF assms(1) a(3) e1(1)] by simp_all
    obtain y h2 where y: "f x h1 = Some (y, h2)" using deep_copy.copied [OF assms(1) v1(1)] by blast
    note c = deep_copy.copy_cases [OF assms(1) v1(1) y]
    let ?h3 = "store (next_addr h) (mk y) h2"
    have "next_addr h \<notin> fp h2 y" using c(4) e1(2) by fastforce
    then have "same_on (fp h2 y) h2 ?h3" by (auto simp: same_on_def)
    from deep_copy.framed [OF assms(1) c(2) this]
    have "valid ?h3 y" "val ?h3 y = val h x" "fp ?h3 y \<subseteq> {next_addr h..}"
      using c(3,4) v1(2) e1(2) by auto
    moreover have "extends h ?h3" using extends_store [OF extends_trans [OF e1(1) c(1)]] by simp
    moreover have "next_addr h < next_addr h2" using extends_next [OF c(1)] e1(2) by simp
    ultimately show ?thesis
      using Some a(1) e1(3) l y assms(2) by (simp add: copy_new_def new_defs)
  qed (simp add: copy_new_def new_defs)
  fix h'
  assume s: "same_on (new_fp un fp h p) h h'"
  show "new_valid un valid h' p \<and> new_fp un fp h' p = new_fp un fp h p \<and> new_val un val h' p = new_val un val h p"
  proof (cases p)
    case (Some a)
    with v obtain x where a: "load un a h = Some x" "a < next_addr h" "valid h x"
      by (auto simp: new_valid_def split: option.splits)
    have "load un a h' = Some x"
      using same_on_load [OF s, of a un] a(1) Some by (simp add: new_fp_def)
    moreover have "same_on (fp h x) h h'" using s by (rule same_on_mono) (use Some a in \<open>auto simp: new_fp_def\<close>)
    note deep_copy.framed [OF assms(1) a(3) this]
    moreover have "next_addr h \<le> next_addr h'" using s by (simp add: same_on_def)
    ultimately show ?thesis using Some a(1,2) by (simp add: new_defs)
  qed (simp add: new_defs)
qed

abbreviation "copy_pointer un mk \<equiv> copy_new un mk (\<lambda>x h. Some (x, h))"
abbreviation "pointer_valid un \<equiv> new_valid un (\<lambda>_ _. True)"
abbreviation "pointer_fp un \<equiv> new_fp un (\<lambda>_ _. {})"
abbreviation "pointer_val un \<equiv> new_val un (\<lambda>_ x. x)"

lemmas deep_copy_pointer = deep_copy_new [OF deep_copy_flat]

section \<open>Slices\<close>

text \<open>
  The loop \<open>for i := range *in { (*in)[i].DeepCopyInto(&(*out)[i]) }\<close>: the element is read when its
  turn comes. The elements are collected and lie in the new array once the loop is done; the array
  is not read before.
\<close>

fun copy_elements ::
  "(cell \<Rightarrow> 'a list option) \<Rightarrow> ('a \<Rightarrow> heap \<Rightarrow> ('a \<times> heap) option) \<Rightarrow> addr \<Rightarrow> nat list \<Rightarrow> heap \<Rightarrow> ('a list \<times> heap) option" where
  "copy_elements un f a [] h = Some ([], h)"
| "copy_elements un f a (i # is) h =
     do { xs \<leftarrow> load un a h;
          if i < length xs then do { (y, h) \<leftarrow> f (xs ! i) h; (ys, h) \<leftarrow> copy_elements un f a is h; Some (y # ys, h) }
          else None }"

text \<open>A nil slice stays nil; any other gets an array of its own, of exactly its length.\<close>

definition copy_slice ::
  "(cell \<Rightarrow> 'a list option) \<Rightarrow> ('a list \<Rightarrow> cell) \<Rightarrow> ('a \<Rightarrow> heap \<Rightarrow> ('a \<times> heap) option) \<Rightarrow>
   slice option \<Rightarrow> heap \<Rightarrow> (slice option \<times> heap) option" where
  "copy_slice un mk f s h =
     (case s of
        None \<Rightarrow> Some (None, h)
      | Some s \<Rightarrow>
          (case reserve h of (b, h) \<Rightarrow>
             do { (ys, h) \<leftarrow> copy_elements un f (sl_array s) [sl_off s..<sl_off s + sl_len s] h;
                  Some (Some \<lparr>sl_array = b, sl_off = 0, sl_len = sl_len s\<rparr>, store b (mk ys) h) }))"

definition elements :: "(cell \<Rightarrow> 'a list option) \<Rightarrow> heap \<Rightarrow> slice \<Rightarrow> 'a list" where
  "elements un h s = (case load un (sl_array s) h of
     None \<Rightarrow> [] | Some xs \<Rightarrow> take (sl_len s) (drop (sl_off s) xs))"

definition slice_valid :: "(cell \<Rightarrow> 'a list option) \<Rightarrow> (heap \<Rightarrow> 'a \<Rightarrow> bool) \<Rightarrow> heap \<Rightarrow> slice option \<Rightarrow> bool" where
  "slice_valid un valid h s = (case s of None \<Rightarrow> True | Some s \<Rightarrow>
     sl_array s < next_addr h \<and>
     (case load un (sl_array s) h of None \<Rightarrow> False | Some xs \<Rightarrow> sl_off s + sl_len s \<le> length xs) \<and>
     list_all (valid h) (elements un h s))"

definition slice_fp :: "(cell \<Rightarrow> 'a list option) \<Rightarrow> (heap \<Rightarrow> 'a \<Rightarrow> addr set) \<Rightarrow> heap \<Rightarrow> slice option \<Rightarrow> addr set" where
  "slice_fp un fp h s = (case s of None \<Rightarrow> {} | Some s \<Rightarrow>
     insert (sl_array s) (\<Union>x \<in> set (elements un h s). fp h x))"

definition slice_val :: "(cell \<Rightarrow> 'a list option) \<Rightarrow> (heap \<Rightarrow> 'a \<Rightarrow> 'v) \<Rightarrow> heap \<Rightarrow> slice option \<Rightarrow> 'v list" where
  "slice_val un val h s = (case s of None \<Rightarrow> [] | Some s \<Rightarrow> map (val h) (elements un h s))"

text \<open>
  A nil slice and an empty one have the same value, as in the abstract objects; that a copy is nil exactly
  when the original is, is a fact of its own.
\<close>

lemma copy_slice_nil: "copy_slice un mk f s h = Some (s', h') \<Longrightarrow> s' = None \<longleftrightarrow> s = None"
  by (cases s) (auto simp: copy_slice_def bind_eq_Some_conv split: prod.splits)

lemmas slice_defs = slice_valid_def slice_fp_def slice_val_def elements_def

text \<open>One pass of the loop, over the elements from \<open>i\<close> on.\<close>

lemma copy_elements_copied:
  assumes "deep_copy f valid fp val" "load un a h = Some xs" "a < next_addr h"
    and "i + k \<le> length xs" "list_all (valid h) (take k (drop i xs))"
  shows "\<exists>ys h'. copy_elements un f a [i..<i + k] h = Some (ys, h') \<and> extends h h' \<and> list_all (valid h') ys \<and>
    map (val h') ys = map (val h) (take k (drop i xs)) \<and> (\<Union>y \<in> set ys. fp h' y) \<subseteq> {next_addr h..}"
  using assms(2-5)
proof (induction k arbitrary: i h)
  case (Suc k)
  then have i: "i < length xs" and split: "take (Suc k) (drop i xs) = xs ! i # take k (drop (Suc i) xs)"
    by (simp_all add: Cons_nth_drop_Suc [symmetric])
  with Suc.prems have v: "valid h (xs ! i)" and vs: "list_all (valid h) (take k (drop (Suc i) xs))" by simp_all
  obtain y h1 where y: "f (xs ! i) h = Some (y, h1)" using deep_copy.copied [OF assms(1) v] by blast
  note c = deep_copy.copy_cases [OF assms(1) v y]
  have "load un a h1 = Some xs" "a < next_addr h1" "Suc i + k \<le> length xs"
    using c(1) Suc.prems by (simp_all add: extends_def load_def)
  moreover have vs1: "list_all (valid h1) (take k (drop (Suc i) xs))"
      "map (val h1) (take k (drop (Suc i) xs)) = map (val h) (take k (drop (Suc i) xs))"
    using vs deep_copy.extended [OF assms(1) _ c(1)] by (auto simp: list_all_iff)
  ultimately obtain ys h2 where ys: "copy_elements un f a [Suc i..<Suc i + k] h1 = Some (ys, h2)" "extends h1 h2"
    "list_all (valid h2) ys" "map (val h2) ys = map (val h1) (take k (drop (Suc i) xs))"
    "(\<Union>y \<in> set ys. fp h2 y) \<subseteq> {next_addr h1..}" using Suc.IH by blast
  have "[i..<i + Suc k] = i # [Suc i..<Suc i + k]" by (simp add: upt_conv_Cons)
  then have "copy_elements un f a [i..<i + Suc k] h = Some (y # ys, h2)"
    using y ys(1) i Suc.prems(1) by simp
  moreover have "valid h2 y" "val h2 y = val h (xs ! i)" "fp h2 y \<subseteq> {next_addr h..}"
    using deep_copy.extended [OF assms(1) c(2) ys(2)] c by simp_all
  moreover have "(\<Union>y \<in> set ys. fp h2 y) \<subseteq> {next_addr h..}"
    using ys(5) extends_next [OF c(1)] by fastforce
  ultimately show ?case using extends_trans [OF c(1) ys(2)] ys(3,4) vs1(2) split by auto
qed simp

lemma deep_copy_slice:
  assumes "deep_copy f valid fp val" "\<And>xs. un (mk xs) = Some xs"
  shows "deep_copy (copy_slice un mk f) (slice_valid un valid) (slice_fp un fp) (slice_val un val)"
proof
  fix h s
  assume v: "slice_valid un valid h s"
  show "slice_fp un fp h s \<subseteq> {..<next_addr h}"
    using v deep_copy.bounded [OF assms(1)]
    by (cases s) (fastforce simp: slice_valid_def slice_fp_def list_all_iff split: option.splits)+
  show "\<exists>s' h'. copy_slice un mk f s h = Some (s', h') \<and> extends h h' \<and> slice_valid un valid h' s' \<and>
      slice_val un val h' s' = slice_val un val h s \<and> slice_fp un fp h' s' \<subseteq> {next_addr h..}"
  proof (cases s)
    case (Some t)
    with v obtain xs where t: "load un (sl_array t) h = Some xs" "sl_array t < next_addr h"
      "sl_off t + sl_len t \<le> length xs" "list_all (valid h) (take (sl_len t) (drop (sl_off t) xs))"
      by (auto simp: slice_valid_def elements_def split: option.splits)
    define h1 where "h1 = snd (reserve h)"
    have e1: "extends h h1" "next_addr h1 = Suc (next_addr h)" "reserve h = (next_addr h, h1)"
      by (simp_all add: h1_def reserve_def extends_def)
    have "load un (sl_array t) h1 = Some xs" "sl_array t < next_addr h1"
      using e1 t by (simp_all add: extends_def load_def)
    moreover have v1: "list_all (valid h1) (take (sl_len t) (drop (sl_off t) xs))"
        "map (val h1) (take (sl_len t) (drop (sl_off t) xs)) = map (val h) (take (sl_len t) (drop (sl_off t) xs))"
      using t(4) deep_copy.extended [OF assms(1) _ e1(1)] by (auto simp: list_all_iff)
    ultimately obtain ys h2 where ys: "copy_elements un f (sl_array t) [sl_off t..<sl_off t + sl_len t] h1 = Some (ys, h2)"
      "extends h1 h2" "list_all (valid h2) ys"
      "map (val h2) ys = map (val h1) (take (sl_len t) (drop (sl_off t) xs))"
      "(\<Union>y \<in> set ys. fp h2 y) \<subseteq> {next_addr h1..}"
      using copy_elements_copied [OF assms(1)] t(3) by blast
    let ?h3 = "store (next_addr h) (mk ys) h2"
    have same: "valid ?h3 y \<and> fp ?h3 y = fp h2 y \<and> val ?h3 y = val h2 y" if "y \<in> set ys" for y
    proof (rule deep_copy.framed [OF assms(1)])
      show "valid h2 y" using ys(3) that by (simp add: list_all_iff)
      from that ys(5) e1(2) have "next_addr h \<notin> fp h2 y" by fastforce
      then show "same_on (fp h2 y) h2 ?h3" by (auto simp: same_on_def)
    qed
    have l: "length ys = sl_len t" using arg_cong [OF ys(4), of length] t(3) by simp
    have e: "extends h ?h3"
      using extends_store [OF extends_trans [OF e1(1) ys(2)]] by simp
    have el: "elements un ?h3 \<lparr>sl_array = next_addr h, sl_off = 0, sl_len = sl_len t\<rparr> = ys"
      using l by (simp add: elements_def assms(2))
    have "map (val ?h3) ys = map (val h2) ys" using same by simp
    then have "map (val ?h3) ys = map (val h) (elements un h t)"
      unfolding ys(4) v1(2) by (simp add: elements_def t(1))
    moreover have "list_all (valid ?h3) ys" using same by (simp add: list_all_iff)
    moreover have "(\<Union>y \<in> set ys. fp ?h3 y) \<subseteq> {next_addr h..}" using same ys(5) e1(2) by fastforce
    moreover have "next_addr h < next_addr h2" using extends_next [OF ys(2)] e1(2) by simp
    ultimately show ?thesis
      using Some ys(1) e1(3) e el l assms(2)
      by (simp add: copy_slice_def slice_valid_def slice_val_def slice_fp_def)
  qed (simp add: copy_slice_def slice_valid_def slice_val_def slice_fp_def)
  fix h'
  assume s: "same_on (slice_fp un fp h s) h h'"
  show "slice_valid un valid h' s \<and> slice_fp un fp h' s = slice_fp un fp h s \<and> slice_val un val h' s = slice_val un val h s"
  proof (cases s)
    case (Some t)
    with s have l: "load un (sl_array t) h' = load un (sl_array t) h"
      using same_on_load [OF s, of "sl_array t" un] by (simp add: slice_fp_def)
    then have el: "elements un h' t = elements un h t" by (simp add: elements_def)
    have "valid h' x \<and> fp h' x = fp h x \<and> val h' x = val h x" if "x \<in> set (elements un h t)" for x
    proof (rule deep_copy.framed [OF assms(1)])
      show "valid h x" using v Some that by (simp add: slice_valid_def list_all_iff)
      show "same_on (fp h x) h h'" using s by (rule same_on_mono) (use Some that in \<open>auto simp: slice_fp_def\<close>)
    qed
    with Some v s el l show ?thesis
      by (auto simp: slice_valid_def slice_val_def slice_fp_def list_all_iff same_on_def split: option.splits)
  qed (simp add: slice_valid_def slice_val_def slice_fp_def)
qed

section \<open>Reading cells\<close>

text \<open>The content of a cell of each type.\<close>

definition un_Duration :: "cell \<Rightarrow> duration option" where
  "un_Duration c = (case c of Duration_cell x \<Rightarrow> Some x | _ \<Rightarrow> None)"

definition un_Time :: "cell \<Rightarrow> metav1_time option" where
  "un_Time c = (case c of Time_cell x \<Rightarrow> Some x | _ \<Rightarrow> None)"

definition un_Int64 :: "cell \<Rightarrow> int64 option" where
  "un_Int64 c = (case c of Int64_cell x \<Rightarrow> Some x | _ \<Rightarrow> None)"

definition un_Strings :: "cell \<Rightarrow> string list option" where
  "un_Strings c = (case c of Strings_cell x \<Rightarrow> Some x | _ \<Rightarrow> None)"

definition un_Conditions :: "cell \<Rightarrow> Condition list option" where
  "un_Conditions c = (case c of Conditions_cell x \<Rightarrow> Some x | _ \<Rightarrow> None)"

definition un_PostgreSQLs :: "cell \<Rightarrow> mem_PostgreSQL list option" where
  "un_PostgreSQLs c = (case c of PostgreSQLs_cell x \<Rightarrow> Some x | _ \<Rightarrow> None)"

definition un_Databases :: "cell \<Rightarrow> mem_Database list option" where
  "un_Databases c = (case c of Databases_cell x \<Rightarrow> Some x | _ \<Rightarrow> None)"

definition un_Users :: "cell \<Rightarrow> mem_User list option" where
  "un_Users c = (case c of Users_cell x \<Rightarrow> Some x | _ \<Rightarrow> None)"

definition un_Grants :: "cell \<Rightarrow> mem_Grant list option" where
  "un_Grants c = (case c of Grants_cell x \<Rightarrow> Some x | _ \<Rightarrow> None)"

definition un_SQLTemplate :: "cell \<Rightarrow> mem_SQLTemplate option" where
  "un_SQLTemplate c = (case c of SQLTemplate_cell x \<Rightarrow> Some x | _ \<Rightarrow> None)"

definition un_PostgresRef :: "cell \<Rightarrow> PostgresRef option" where
  "un_PostgresRef c = (case c of PostgresRef_cell x \<Rightarrow> Some x | _ \<Rightarrow> None)"

definition un_SecretKeyRef :: "cell \<Rightarrow> SecretKeyRef option" where
  "un_SecretKeyRef c = (case c of SecretKeyRef_cell x \<Rightarrow> Some x | _ \<Rightarrow> None)"

definition un_PostgreSQLSpec :: "cell \<Rightarrow> PostgreSQLSpec option" where
  "un_PostgreSQLSpec c = (case c of PostgreSQLSpec_cell x \<Rightarrow> Some x | _ \<Rightarrow> None)"

definition un_DatabaseSpec :: "cell \<Rightarrow> mem_DatabaseSpec option" where
  "un_DatabaseSpec c = (case c of DatabaseSpec_cell x \<Rightarrow> Some x | _ \<Rightarrow> None)"

definition un_UserSpec :: "cell \<Rightarrow> mem_UserSpec option" where
  "un_UserSpec c = (case c of UserSpec_cell x \<Rightarrow> Some x | _ \<Rightarrow> None)"

definition un_GrantSpec :: "cell \<Rightarrow> mem_GrantSpec option" where
  "un_GrantSpec c = (case c of GrantSpec_cell x \<Rightarrow> Some x | _ \<Rightarrow> None)"

definition un_PostgreSQL :: "cell \<Rightarrow> mem_PostgreSQL option" where
  "un_PostgreSQL c = (case c of PostgreSQL_cell x \<Rightarrow> Some x | _ \<Rightarrow> None)"

definition un_Database :: "cell \<Rightarrow> mem_Database option" where
  "un_Database c = (case c of Database_cell x \<Rightarrow> Some x | _ \<Rightarrow> None)"

definition un_User :: "cell \<Rightarrow> mem_User option" where
  "un_User c = (case c of User_cell x \<Rightarrow> Some x | _ \<Rightarrow> None)"

definition un_Grant :: "cell \<Rightarrow> mem_Grant option" where
  "un_Grant c = (case c of Grant_cell x \<Rightarrow> Some x | _ \<Rightarrow> None)"

definition un_Status :: "object_kind \<Rightarrow> cell \<Rightarrow> mem_Status option" where
  "un_Status k c = (case c of Status_cell k' x \<Rightarrow> if k' = k then Some x else None | _ \<Rightarrow> None)"

definition un_List :: "object_kind \<Rightarrow> cell \<Rightarrow> mem_List option" where
  "un_List k c = (case c of List_cell k' x \<Rightarrow> if k' = k then Some x else None | _ \<Rightarrow> None)"

lemmas un_defs = un_Duration_def un_Time_def un_Int64_def un_Strings_def un_Conditions_def un_PostgreSQLs_def un_Databases_def un_Users_def un_Grants_def un_SQLTemplate_def un_PostgresRef_def un_SecretKeyRef_def un_PostgreSQLSpec_def un_DatabaseSpec_def un_UserSpec_def un_GrantSpec_def un_PostgreSQL_def un_Database_def un_User_def un_Grant_def un_Status_def un_List_def

lemma un_cells [simp]:
  "un_Duration (Duration_cell x0) = Some x0"
  "un_Time (Time_cell x1) = Some x1"
  "un_Int64 (Int64_cell x2) = Some x2"
  "un_Strings (Strings_cell x3) = Some x3"
  "un_Conditions (Conditions_cell x4) = Some x4"
  "un_PostgreSQLs (PostgreSQLs_cell x5) = Some x5"
  "un_Databases (Databases_cell x6) = Some x6"
  "un_Users (Users_cell x7) = Some x7"
  "un_Grants (Grants_cell x8) = Some x8"
  "un_SQLTemplate (SQLTemplate_cell x9) = Some x9"
  "un_PostgresRef (PostgresRef_cell x10) = Some x10"
  "un_SecretKeyRef (SecretKeyRef_cell x11) = Some x11"
  "un_PostgreSQLSpec (PostgreSQLSpec_cell x12) = Some x12"
  "un_DatabaseSpec (DatabaseSpec_cell x13) = Some x13"
  "un_UserSpec (UserSpec_cell x14) = Some x14"
  "un_GrantSpec (GrantSpec_cell x15) = Some x15"
  "un_PostgreSQL (PostgreSQL_cell x16) = Some x16"
  "un_Database (Database_cell x17) = Some x17"
  "un_User (User_cell x18) = Some x18"
  "un_Grant (Grant_cell x19) = Some x19"
  "un_Status k (Status_cell k y) = Some y" "un_List k (List_cell k z) = Some z"
  by (simp_all add: un_defs)

end
