(* ===== verification/DeepCopy.thy ===== *)
theory DeepCopy
  imports GoHeap
begin

text \<open>
  \<open>api/v1alpha1/zz_generated.deepcopy.go\<close>: \<open>DeepCopyInto\<close>, \<open>DeepCopy\<close> and \<open>DeepCopyObject\<close> of every
  type, and that each of them is a deep copy in the sense of \<open>GoHeap\<close>. The file is generated, but
  the snapshot a status patch is computed from rests on it.
\<close>

section \<open>The copies the library provides\<close>

record lib_copies =
  ObjectMeta_DeepCopyInto :: "mem_ObjectMeta \<Rightarrow> heap \<Rightarrow> (mem_ObjectMeta \<times> heap) option"
  ListMeta_DeepCopyInto :: "mem_ListMeta \<Rightarrow> heap \<Rightarrow> (mem_ListMeta \<times> heap) option"
  Condition_DeepCopyInto :: "Condition \<Rightarrow> heap \<Rightarrow> (Condition \<times> heap) option"

definition ObjectMeta_valid :: "heap \<Rightarrow> mem_ObjectMeta \<Rightarrow> bool" where
  "ObjectMeta_valid h m \<longleftrightarrow> pointer_valid un_Time h (mo_DeletionTimestamp m) \<and>
     slice_valid un_Strings (\<lambda>_ _. True) h (mo_Finalizers m)"

definition ObjectMeta_fp :: "heap \<Rightarrow> mem_ObjectMeta \<Rightarrow> addr set" where
  "ObjectMeta_fp h m = pointer_fp un_Time h (mo_DeletionTimestamp m) \<union> slice_fp un_Strings (\<lambda>_ _. {}) h (mo_Finalizers m)"

definition ObjectMeta_val :: "heap \<Rightarrow> mem_ObjectMeta \<Rightarrow> ObjectMeta" where
  "ObjectMeta_val h m = \<lparr>om_Name = mo_Name m, om_Namespace = mo_Namespace m, om_Generation = mo_Generation m,
     om_DeletionTimestamp = pointer_val un_Time h (mo_DeletionTimestamp m),
     om_Finalizers = slice_val un_Strings (\<lambda>_ x. x) h (mo_Finalizers m)\<rparr>"

definition ListMeta_valid :: "heap \<Rightarrow> mem_ListMeta \<Rightarrow> bool" where
  "ListMeta_valid h m \<longleftrightarrow> pointer_valid un_Int64 h (ml_RemainingItemCount m)"

definition ListMeta_fp :: "heap \<Rightarrow> mem_ListMeta \<Rightarrow> addr set" where
  "ListMeta_fp h m = pointer_fp un_Int64 h (ml_RemainingItemCount m)"

definition ListMeta_val :: "heap \<Rightarrow> mem_ListMeta \<Rightarrow> ListMeta" where
  "ListMeta_val h m = \<lparr>lm_ResourceVersion = ml_ResourceVersion m, lm_Continue = ml_Continue m,
     lm_RemainingItemCount = pointer_val un_Int64 h (ml_RemainingItemCount m)\<rparr>"

text \<open>Each of the library's copies is documented to be a deep copy; a condition owns no memory.\<close>

definition lib_ok :: "lib_copies \<Rightarrow> bool" where
  "lib_ok L \<longleftrightarrow>
     deep_copy (ObjectMeta_DeepCopyInto L) ObjectMeta_valid ObjectMeta_fp ObjectMeta_val \<and>
     deep_copy (ListMeta_DeepCopyInto L) ListMeta_valid ListMeta_fp ListMeta_val \<and>
     deep_copy (Condition_DeepCopyInto L) (\<lambda>_ _. True) (\<lambda>_ _. {}) (\<lambda>_ c. c)"

section \<open>Types without library parts\<close>

definition PostgresRef_DeepCopyInto :: "PostgresRef \<Rightarrow> heap \<Rightarrow> (PostgresRef \<times> heap) option" where
  "PostgresRef_DeepCopyInto r h = Some (r, h)"

definition SecretKeyRef_DeepCopyInto :: "SecretKeyRef \<Rightarrow> heap \<Rightarrow> (SecretKeyRef \<times> heap) option" where
  "SecretKeyRef_DeepCopyInto r h = Some (r, h)"

definition PostgreSQLSpec_DeepCopyInto :: "PostgreSQLSpec \<Rightarrow> heap \<Rightarrow> (PostgreSQLSpec \<times> heap) option" where
  "PostgreSQLSpec_DeepCopyInto r h =
     (let out = r in
      let out = out\<lparr>pgs_SuperuserSecretKeyRef := pgs_SuperuserSecretKeyRef r\<rparr> in Some (out, h))"

definition SQLTemplate_DeepCopyInto :: "mem_SQLTemplate \<Rightarrow> heap \<Rightarrow> (mem_SQLTemplate \<times> heap) option" where
  "SQLTemplate_DeepCopyInto r h = do {
     let out = r;
     (p, h) \<leftarrow> copy_pointer un_Duration Duration_cell (mt_RequeueInterval r) h;
     let out = out\<lparr>mt_RequeueInterval := p\<rparr>;
     (p, h) \<leftarrow> copy_pointer un_Duration Duration_cell (mt_RetryInterval r) h;
     let out = out\<lparr>mt_RetryInterval := p\<rparr>;
     Some (out, h) }"

definition SQLTemplate_valid :: "heap \<Rightarrow> mem_SQLTemplate \<Rightarrow> bool" where
  "SQLTemplate_valid h r \<longleftrightarrow>
     pointer_valid un_Duration h (mt_RequeueInterval r) \<and> pointer_valid un_Duration h (mt_RetryInterval r)"

definition SQLTemplate_fp :: "heap \<Rightarrow> mem_SQLTemplate \<Rightarrow> addr set" where
  "SQLTemplate_fp h r = pointer_fp un_Duration h (mt_RequeueInterval r) \<union> pointer_fp un_Duration h (mt_RetryInterval r)"

definition SQLTemplate_val :: "heap \<Rightarrow> mem_SQLTemplate \<Rightarrow> SQLTemplate" where
  "SQLTemplate_val h r = \<lparr>RequeueInterval = pointer_val un_Duration h (mt_RequeueInterval r),
     RetryInterval = pointer_val un_Duration h (mt_RetryInterval r), CleanupPolicy = mt_CleanupPolicy r\<rparr>"

interpretation ref_copy: deep_copy PostgresRef_DeepCopyInto "\<lambda>_ _. True" "\<lambda>_ _. {}" "\<lambda>_ r. r"
  by unfold_locales (simp_all add: PostgresRef_DeepCopyInto_def)

interpretation key_copy: deep_copy SecretKeyRef_DeepCopyInto "\<lambda>_ _. True" "\<lambda>_ _. {}" "\<lambda>_ r. r"
  by unfold_locales (simp_all add: SecretKeyRef_DeepCopyInto_def)

interpretation pgs_copy: deep_copy PostgreSQLSpec_DeepCopyInto "\<lambda>_ _. True" "\<lambda>_ _. {}" "\<lambda>_ r. r"
  by unfold_locales (simp_all add: PostgreSQLSpec_DeepCopyInto_def)

lemmas duration_copy = deep_copy_pointer [of un_Duration Duration_cell, OF un_cells(1)]

interpretation tmpl_copy: deep_copy SQLTemplate_DeepCopyInto SQLTemplate_valid SQLTemplate_fp SQLTemplate_val
proof (rule deep_copy_struct [OF deep_copy_both [OF duration_copy duration_copy]])
  show "SQLTemplate_DeepCopyInto r h = map_option (\<lambda>(x, h). (r\<lparr>mt_RequeueInterval := fst x, mt_RetryInterval := snd x\<rparr>, h))
      (copy_both (copy_pointer un_Duration Duration_cell) (copy_pointer un_Duration Duration_cell)
        (mt_RequeueInterval r, mt_RetryInterval r) h)" for r h
    by (auto simp: SQLTemplate_DeepCopyInto_def copy_both_def split: bind_splits)
  show "SQLTemplate_val h r = (\<lambda>r (i, j). \<lparr>RequeueInterval = i, RetryInterval = j, CleanupPolicy = mt_CleanupPolicy r\<rparr>) r
      (pointer_val un_Duration h (fst (mt_RequeueInterval r, mt_RetryInterval r)),
       pointer_val un_Duration h (snd (mt_RequeueInterval r, mt_RetryInterval r)))" for h r
    by (simp add: SQLTemplate_val_def)
qed (simp_all add: SQLTemplate_valid_def SQLTemplate_fp_def)

section \<open>Specs\<close>

definition PostgreSQLDatabaseSpec_DeepCopyInto :: "mem_DatabaseSpec \<Rightarrow> heap \<Rightarrow> (mem_DatabaseSpec \<times> heap) option" where
  "PostgreSQLDatabaseSpec_DeepCopyInto r h = do {
     let out = r;
     (t, h) \<leftarrow> SQLTemplate_DeepCopyInto (mds_SQLTemplate r) h;
     let out = out\<lparr>mds_SQLTemplate := t\<rparr>;
     let out = out\<lparr>mds_PostgresRef := mds_PostgresRef r\<rparr>;
     Some (out, h) }"

definition PostgreSQLUserSpec_DeepCopyInto :: "mem_UserSpec \<Rightarrow> heap \<Rightarrow> (mem_UserSpec \<times> heap) option" where
  "PostgreSQLUserSpec_DeepCopyInto r h = do {
     let out = r;
     (t, h) \<leftarrow> SQLTemplate_DeepCopyInto (mus_SQLTemplate r) h;
     let out = out\<lparr>mus_SQLTemplate := t\<rparr>;
     let out = out\<lparr>mus_PostgresRef := mus_PostgresRef r\<rparr>;
     let out = out\<lparr>mus_PasswordSecretKeyRef := mus_PasswordSecretKeyRef r\<rparr>;
     Some (out, h) }"

text \<open>The builtin \<open>copy\<close> copies the strings as they are.\<close>

definition copy_strings :: "slice option \<Rightarrow> heap \<Rightarrow> (slice option \<times> heap) option" where
  "copy_strings = copy_slice un_Strings Strings_cell (\<lambda>x h. Some (x, h))"

definition PostgreSQLGrantSpec_DeepCopyInto :: "mem_GrantSpec \<Rightarrow> heap \<Rightarrow> (mem_GrantSpec \<times> heap) option" where
  "PostgreSQLGrantSpec_DeepCopyInto r h = do {
     let out = r;
     (t, h) \<leftarrow> SQLTemplate_DeepCopyInto (mgs_SQLTemplate r) h;
     let out = out\<lparr>mgs_SQLTemplate := t\<rparr>;
     let out = out\<lparr>mgs_PostgresRef := mgs_PostgresRef r\<rparr>;
     (s, h) \<leftarrow> copy_strings (mgs_Privileges r) h;
     let out = out\<lparr>mgs_Privileges := s\<rparr>;
     Some (out, h) }"

definition DatabaseSpec_val :: "heap \<Rightarrow> mem_DatabaseSpec \<Rightarrow> PostgreSQLDatabaseSpec" where
  "DatabaseSpec_val h r = \<lparr>dbs_SQLTemplate = SQLTemplate_val h (mds_SQLTemplate r),
     dbs_PostgresRef = mds_PostgresRef r, dbs_Name = mds_Name r\<rparr>"

definition UserSpec_val :: "heap \<Rightarrow> mem_UserSpec \<Rightarrow> PostgreSQLUserSpec" where
  "UserSpec_val h r = \<lparr>us_SQLTemplate = SQLTemplate_val h (mus_SQLTemplate r),
     us_PostgresRef = mus_PostgresRef r, us_Name = mus_Name r, us_PasswordSecretKeyRef = mus_PasswordSecretKeyRef r\<rparr>"

definition GrantSpec_valid :: "heap \<Rightarrow> mem_GrantSpec \<Rightarrow> bool" where
  "GrantSpec_valid h r \<longleftrightarrow> SQLTemplate_valid h (mgs_SQLTemplate r) \<and>
     slice_valid un_Strings (\<lambda>_ _. True) h (mgs_Privileges r)"

definition GrantSpec_fp :: "heap \<Rightarrow> mem_GrantSpec \<Rightarrow> addr set" where
  "GrantSpec_fp h r = SQLTemplate_fp h (mgs_SQLTemplate r) \<union> slice_fp un_Strings (\<lambda>_ _. {}) h (mgs_Privileges r)"

definition GrantSpec_val :: "heap \<Rightarrow> mem_GrantSpec \<Rightarrow> PostgreSQLGrantSpec" where
  "GrantSpec_val h r = \<lparr>gs_SQLTemplate = SQLTemplate_val h (mgs_SQLTemplate r),
     gs_PostgresRef = mgs_PostgresRef r, gs_Privileges = slice_val un_Strings (\<lambda>_ x. x) h (mgs_Privileges r),
     gs_Database = mgs_Database r, gs_Schema = mgs_Schema r, gs_Role = mgs_Role r\<rparr>"

interpretation dbs_copy: deep_copy PostgreSQLDatabaseSpec_DeepCopyInto
    "\<lambda>h r. SQLTemplate_valid h (mds_SQLTemplate r)" "\<lambda>h r. SQLTemplate_fp h (mds_SQLTemplate r)" DatabaseSpec_val
proof (rule deep_copy_struct [OF tmpl_copy.deep_copy_axioms])
  show "PostgreSQLDatabaseSpec_DeepCopyInto r h = map_option (\<lambda>(x, h). (r\<lparr>mds_SQLTemplate := x\<rparr>, h))
      (SQLTemplate_DeepCopyInto (mds_SQLTemplate r) h)" for r h
    by (auto simp: PostgreSQLDatabaseSpec_DeepCopyInto_def split: bind_splits)
  show "DatabaseSpec_val h r = (\<lambda>r t. \<lparr>dbs_SQLTemplate = t, dbs_PostgresRef = mds_PostgresRef r, dbs_Name = mds_Name r\<rparr>)
      r (SQLTemplate_val h (mds_SQLTemplate r))" for h r
    by (simp add: DatabaseSpec_val_def)
qed simp_all

interpretation us_copy: deep_copy PostgreSQLUserSpec_DeepCopyInto
    "\<lambda>h r. SQLTemplate_valid h (mus_SQLTemplate r)" "\<lambda>h r. SQLTemplate_fp h (mus_SQLTemplate r)" UserSpec_val
proof (rule deep_copy_struct [OF tmpl_copy.deep_copy_axioms])
  show "PostgreSQLUserSpec_DeepCopyInto r h = map_option (\<lambda>(x, h). (r\<lparr>mus_SQLTemplate := x\<rparr>, h))
      (SQLTemplate_DeepCopyInto (mus_SQLTemplate r) h)" for r h
    by (auto simp: PostgreSQLUserSpec_DeepCopyInto_def split: bind_splits)
  show "UserSpec_val h r = (\<lambda>r t. \<lparr>us_SQLTemplate = t, us_PostgresRef = mus_PostgresRef r, us_Name = mus_Name r,
      us_PasswordSecretKeyRef = mus_PasswordSecretKeyRef r\<rparr>) r (SQLTemplate_val h (mus_SQLTemplate r))" for h r
    by (simp add: UserSpec_val_def)
qed simp_all

lemma strings_copy: "deep_copy copy_strings (slice_valid un_Strings (\<lambda>_ _. True)) (slice_fp un_Strings (\<lambda>_ _. {}))
    (slice_val un_Strings (\<lambda>_ x. x))"
  unfolding copy_strings_def by (rule deep_copy_slice [OF deep_copy_flat]) simp

interpretation gs_copy: deep_copy PostgreSQLGrantSpec_DeepCopyInto GrantSpec_valid GrantSpec_fp GrantSpec_val
proof (rule deep_copy_struct [OF deep_copy_both [OF tmpl_copy.deep_copy_axioms strings_copy]])
  show "PostgreSQLGrantSpec_DeepCopyInto r h = map_option (\<lambda>(x, h). (r\<lparr>mgs_SQLTemplate := fst x, mgs_Privileges := snd x\<rparr>, h))
      (copy_both SQLTemplate_DeepCopyInto copy_strings (mgs_SQLTemplate r, mgs_Privileges r) h)" for r h
    by (auto simp: PostgreSQLGrantSpec_DeepCopyInto_def copy_both_def split: bind_splits)
  show "GrantSpec_val h r = (\<lambda>r (t, p). \<lparr>gs_SQLTemplate = t, gs_PostgresRef = mgs_PostgresRef r, gs_Privileges = p,
        gs_Database = mgs_Database r, gs_Schema = mgs_Schema r, gs_Role = mgs_Role r\<rparr>) r
      (SQLTemplate_val h (fst (mgs_SQLTemplate r, mgs_Privileges r)),
       slice_val un_Strings (\<lambda>_ x. x) h (snd (mgs_SQLTemplate r, mgs_Privileges r)))" for h r
    by (simp add: GrantSpec_val_def)
qed (simp_all add: GrantSpec_valid_def GrantSpec_fp_def)

section \<open>Statuses\<close>

definition copy_conditions :: "lib_copies \<Rightarrow> slice option \<Rightarrow> heap \<Rightarrow> (slice option \<times> heap) option" where
  "copy_conditions L = copy_slice un_Conditions Conditions_cell (Condition_DeepCopyInto L)"

definition PostgreSQLStatus_DeepCopyInto :: "lib_copies \<Rightarrow> mem_Status \<Rightarrow> heap \<Rightarrow> (mem_Status \<times> heap) option" where
  "PostgreSQLStatus_DeepCopyInto L r h = do {
     let out = r;
     (s, h) \<leftarrow> copy_conditions L (ms_Conditions r) h;
     let out = out\<lparr>ms_Conditions := s\<rparr>;
     Some (out, h) }"

definition PostgreSQLDatabaseStatus_DeepCopyInto :: "lib_copies \<Rightarrow> mem_Status \<Rightarrow> heap \<Rightarrow> (mem_Status \<times> heap) option" where
  "PostgreSQLDatabaseStatus_DeepCopyInto L r h = do {
     let out = r;
     (s, h) \<leftarrow> copy_conditions L (ms_Conditions r) h;
     let out = out\<lparr>ms_Conditions := s\<rparr>;
     Some (out, h) }"

definition PostgreSQLUserStatus_DeepCopyInto :: "lib_copies \<Rightarrow> mem_Status \<Rightarrow> heap \<Rightarrow> (mem_Status \<times> heap) option" where
  "PostgreSQLUserStatus_DeepCopyInto L r h = do {
     let out = r;
     (s, h) \<leftarrow> copy_conditions L (ms_Conditions r) h;
     let out = out\<lparr>ms_Conditions := s\<rparr>;
     Some (out, h) }"

definition PostgreSQLGrantStatus_DeepCopyInto :: "lib_copies \<Rightarrow> mem_Status \<Rightarrow> heap \<Rightarrow> (mem_Status \<times> heap) option" where
  "PostgreSQLGrantStatus_DeepCopyInto L r h = do {
     let out = r;
     (s, h) \<leftarrow> copy_conditions L (ms_Conditions r) h;
     let out = out\<lparr>ms_Conditions := s\<rparr>;
     Some (out, h) }"

definition Status_valid :: "heap \<Rightarrow> mem_Status \<Rightarrow> bool" where
  "Status_valid h r \<longleftrightarrow> slice_valid un_Conditions (\<lambda>_ _. True) h (ms_Conditions r)"

definition Status_fp :: "heap \<Rightarrow> mem_Status \<Rightarrow> addr set" where
  "Status_fp h r = slice_fp un_Conditions (\<lambda>_ _. {}) h (ms_Conditions r)"

definition Status_val :: "heap \<Rightarrow> mem_Status \<Rightarrow> Condition list" where
  "Status_val h r = slice_val un_Conditions (\<lambda>_ c. c) h (ms_Conditions r)"

lemma Status_copy:
  assumes "lib_ok L"
  shows "deep_copy (PostgreSQLStatus_DeepCopyInto L) Status_valid Status_fp Status_val"
proof (rule deep_copy_struct)
  show "deep_copy (copy_conditions L) (slice_valid un_Conditions (\<lambda>_ _. True)) (slice_fp un_Conditions (\<lambda>_ _. {}))
      (slice_val un_Conditions (\<lambda>_ c. c))"
    unfolding copy_conditions_def by (rule deep_copy_slice) (use assms in \<open>simp_all add: lib_ok_def\<close>)
  show "PostgreSQLStatus_DeepCopyInto L r h = map_option (\<lambda>(x, h). (r\<lparr>ms_Conditions := x\<rparr>, h))
      (copy_conditions L (ms_Conditions r) h)" for r h
    by (auto simp: PostgreSQLStatus_DeepCopyInto_def split: bind_splits)
  show "Status_val h r = (\<lambda>_ x. x) r (slice_val un_Conditions (\<lambda>_ c. c) h (ms_Conditions r))" for h r
    by (simp add: Status_val_def)
qed (simp_all add: Status_valid_def Status_fp_def)

lemma Status_same:
  "PostgreSQLDatabaseStatus_DeepCopyInto = PostgreSQLStatus_DeepCopyInto"
  "PostgreSQLUserStatus_DeepCopyInto = PostgreSQLStatus_DeepCopyInto"
  "PostgreSQLGrantStatus_DeepCopyInto = PostgreSQLStatus_DeepCopyInto"
  by (simp_all add: fun_eq_iff PostgreSQLStatus_DeepCopyInto_def PostgreSQLDatabaseStatus_DeepCopyInto_def
    PostgreSQLUserStatus_DeepCopyInto_def PostgreSQLGrantStatus_DeepCopyInto_def)

section \<open>Objects\<close>

definition PostgreSQL_DeepCopyInto :: "lib_copies \<Rightarrow> mem_PostgreSQL \<Rightarrow> heap \<Rightarrow> (mem_PostgreSQL \<times> heap) option" where
  "PostgreSQL_DeepCopyInto L r h = do {
     let out = r;
     let out = out\<lparr>mob_TypeMeta := mob_TypeMeta r\<rparr>;
     (m, h) \<leftarrow> ObjectMeta_DeepCopyInto L (mob_ObjectMeta r) h;
     let out = out\<lparr>mob_ObjectMeta := m\<rparr>;
     let out = out\<lparr>mob_Spec := mob_Spec r\<rparr>;
     (st, h) \<leftarrow> PostgreSQLStatus_DeepCopyInto L (mob_Status r) h;
     let out = out\<lparr>mob_Status := st\<rparr>;
     Some (out, h) }"

definition PostgreSQLDatabase_DeepCopyInto :: "lib_copies \<Rightarrow> mem_Database \<Rightarrow> heap \<Rightarrow> (mem_Database \<times> heap) option" where
  "PostgreSQLDatabase_DeepCopyInto L r h = do {
     let out = r;
     let out = out\<lparr>mob_TypeMeta := mob_TypeMeta r\<rparr>;
     (m, h) \<leftarrow> ObjectMeta_DeepCopyInto L (mob_ObjectMeta r) h;
     let out = out\<lparr>mob_ObjectMeta := m\<rparr>;
     (s, h) \<leftarrow> PostgreSQLDatabaseSpec_DeepCopyInto (mob_Spec r) h;
     let out = out\<lparr>mob_Spec := s\<rparr>;
     (st, h) \<leftarrow> PostgreSQLDatabaseStatus_DeepCopyInto L (mob_Status r) h;
     let out = out\<lparr>mob_Status := st\<rparr>;
     Some (out, h) }"

definition PostgreSQLUser_DeepCopyInto :: "lib_copies \<Rightarrow> mem_User \<Rightarrow> heap \<Rightarrow> (mem_User \<times> heap) option" where
  "PostgreSQLUser_DeepCopyInto L r h = do {
     let out = r;
     let out = out\<lparr>mob_TypeMeta := mob_TypeMeta r\<rparr>;
     (m, h) \<leftarrow> ObjectMeta_DeepCopyInto L (mob_ObjectMeta r) h;
     let out = out\<lparr>mob_ObjectMeta := m\<rparr>;
     (s, h) \<leftarrow> PostgreSQLUserSpec_DeepCopyInto (mob_Spec r) h;
     let out = out\<lparr>mob_Spec := s\<rparr>;
     (st, h) \<leftarrow> PostgreSQLUserStatus_DeepCopyInto L (mob_Status r) h;
     let out = out\<lparr>mob_Status := st\<rparr>;
     Some (out, h) }"

definition PostgreSQLGrant_DeepCopyInto :: "lib_copies \<Rightarrow> mem_Grant \<Rightarrow> heap \<Rightarrow> (mem_Grant \<times> heap) option" where
  "PostgreSQLGrant_DeepCopyInto L r h = do {
     let out = r;
     let out = out\<lparr>mob_TypeMeta := mob_TypeMeta r\<rparr>;
     (m, h) \<leftarrow> ObjectMeta_DeepCopyInto L (mob_ObjectMeta r) h;
     let out = out\<lparr>mob_ObjectMeta := m\<rparr>;
     (s, h) \<leftarrow> PostgreSQLGrantSpec_DeepCopyInto (mob_Spec r) h;
     let out = out\<lparr>mob_Spec := s\<rparr>;
     (st, h) \<leftarrow> PostgreSQLGrantStatus_DeepCopyInto L (mob_Status r) h;
     let out = out\<lparr>mob_Status := st\<rparr>;
     Some (out, h) }"

definition object_valid :: "(heap \<Rightarrow> 's \<Rightarrow> bool) \<Rightarrow> heap \<Rightarrow> 's mem_object \<Rightarrow> bool" where
  "object_valid spec h r \<longleftrightarrow> ObjectMeta_valid h (mob_ObjectMeta r) \<and> spec h (mob_Spec r) \<and> Status_valid h (mob_Status r)"

definition object_fp :: "(heap \<Rightarrow> 's \<Rightarrow> addr set) \<Rightarrow> heap \<Rightarrow> 's mem_object \<Rightarrow> addr set" where
  "object_fp spec h r = ObjectMeta_fp h (mob_ObjectMeta r) \<union> (spec h (mob_Spec r) \<union> Status_fp h (mob_Status r))"

definition PostgreSQL_val :: "heap \<Rightarrow> mem_PostgreSQL \<Rightarrow> PostgreSQL" where
  "PostgreSQL_val h r = \<lparr>pg_TypeMeta = mob_TypeMeta r, pg_ObjectMeta = ObjectMeta_val h (mob_ObjectMeta r),
     pg_Spec = mob_Spec r, pg_Status = \<lparr>pgst_Conditions = Status_val h (mob_Status r)\<rparr>\<rparr>"

definition Database_val :: "heap \<Rightarrow> mem_Database \<Rightarrow> PostgreSQLDatabase" where
  "Database_val h r = \<lparr>db_TypeMeta = mob_TypeMeta r, db_ObjectMeta = ObjectMeta_val h (mob_ObjectMeta r),
     db_Spec = DatabaseSpec_val h (mob_Spec r), db_Status = \<lparr>dbst_Conditions = Status_val h (mob_Status r)\<rparr>\<rparr>"

definition User_val :: "heap \<Rightarrow> mem_User \<Rightarrow> PostgreSQLUser" where
  "User_val h r = \<lparr>user_TypeMeta = mob_TypeMeta r, user_ObjectMeta = ObjectMeta_val h (mob_ObjectMeta r),
     user_Spec = UserSpec_val h (mob_Spec r), user_Status = \<lparr>ust_Conditions = Status_val h (mob_Status r)\<rparr>\<rparr>"

definition Grant_val :: "heap \<Rightarrow> mem_Grant \<Rightarrow> PostgreSQLGrant" where
  "Grant_val h r = \<lparr>grant_TypeMeta = mob_TypeMeta r, grant_ObjectMeta = ObjectMeta_val h (mob_ObjectMeta r),
     grant_Spec = GrantSpec_val h (mob_Spec r), grant_Status = \<lparr>gst_Conditions = Status_val h (mob_Status r)\<rparr>\<rparr>"

text \<open>One lemma for the four kinds, which differ in the copy of the spec.\<close>

lemma object_copy:
  assumes "lib_ok L" "deep_copy spec valid fp sval"
    and "\<And>r h. copy r h = map_option (\<lambda>(x, h). (r\<lparr>mob_ObjectMeta := fst x, mob_Spec := fst (snd x), mob_Status := snd (snd x)\<rparr>, h))
      (copy_both (ObjectMeta_DeepCopyInto L) (copy_both spec (PostgreSQLStatus_DeepCopyInto L))
        (mob_ObjectMeta r, mob_Spec r, mob_Status r) h)"
    and "\<And>h r. val h r = mk (mob_TypeMeta r) (ObjectMeta_val h (mob_ObjectMeta r)) (sval h (mob_Spec r)) (Status_val h (mob_Status r))"
  shows "deep_copy copy (object_valid valid) (object_fp fp) val"
proof (rule deep_copy_struct [OF deep_copy_both [OF _ deep_copy_both [OF assms(2) Status_copy [OF assms(1)]]] assms(3)])
  show "deep_copy (ObjectMeta_DeepCopyInto L) ObjectMeta_valid ObjectMeta_fp ObjectMeta_val"
    using assms(1) by (simp add: lib_ok_def)
  show "val h r = (\<lambda>r (m, s, st). mk (mob_TypeMeta r) m s st) r
      (ObjectMeta_val h (fst (mob_ObjectMeta r, mob_Spec r, mob_Status r)),
       sval h (fst (snd (mob_ObjectMeta r, mob_Spec r, mob_Status r))),
       Status_val h (snd (snd (mob_ObjectMeta r, mob_Spec r, mob_Status r))))" for h r
    by (simp add: assms(4))
qed (simp_all add: object_valid_def object_fp_def)

lemmas object_copy_defs = PostgreSQL_DeepCopyInto_def PostgreSQLDatabase_DeepCopyInto_def
  PostgreSQLUser_DeepCopyInto_def PostgreSQLGrant_DeepCopyInto_def Status_same copy_both_def
lemmas object_val_defs = PostgreSQL_val_def Database_val_def User_val_def Grant_val_def

lemma PostgreSQL_copy:
  assumes "lib_ok L"
  shows "deep_copy (PostgreSQL_DeepCopyInto L) (object_valid (\<lambda>_ _. True)) (object_fp (\<lambda>_ _. {})) PostgreSQL_val"
proof (rule object_copy [OF assms deep_copy_flat])
  show "PostgreSQL_val h r = (\<lambda>t m s st. \<lparr>pg_TypeMeta = t, pg_ObjectMeta = m, pg_Spec = s, pg_Status = \<lparr>pgst_Conditions = st\<rparr>\<rparr>) (mob_TypeMeta r) (ObjectMeta_val h (mob_ObjectMeta r))
      ((\<lambda>_ r. r) h (mob_Spec r)) (Status_val h (mob_Status r))" for h r
    by (simp add: PostgreSQL_val_def)
qed (auto simp: object_copy_defs split: bind_splits)

lemma Database_copy:
  assumes "lib_ok L"
  shows "deep_copy (PostgreSQLDatabase_DeepCopyInto L) (object_valid (\<lambda>h s. SQLTemplate_valid h (mds_SQLTemplate s))) (object_fp (\<lambda>h s. SQLTemplate_fp h (mds_SQLTemplate s))) Database_val"
proof (rule object_copy [OF assms dbs_copy.deep_copy_axioms])
  show "Database_val h r = (\<lambda>t m s st. \<lparr>db_TypeMeta = t, db_ObjectMeta = m, db_Spec = s, db_Status = \<lparr>dbst_Conditions = st\<rparr>\<rparr>) (mob_TypeMeta r) (ObjectMeta_val h (mob_ObjectMeta r))
      (DatabaseSpec_val h (mob_Spec r)) (Status_val h (mob_Status r))" for h r
    by (simp add: Database_val_def)
qed (auto simp: object_copy_defs split: bind_splits)

lemma User_copy:
  assumes "lib_ok L"
  shows "deep_copy (PostgreSQLUser_DeepCopyInto L) (object_valid (\<lambda>h s. SQLTemplate_valid h (mus_SQLTemplate s))) (object_fp (\<lambda>h s. SQLTemplate_fp h (mus_SQLTemplate s))) User_val"
proof (rule object_copy [OF assms us_copy.deep_copy_axioms])
  show "User_val h r = (\<lambda>t m s st. \<lparr>user_TypeMeta = t, user_ObjectMeta = m, user_Spec = s, user_Status = \<lparr>ust_Conditions = st\<rparr>\<rparr>) (mob_TypeMeta r) (ObjectMeta_val h (mob_ObjectMeta r))
      (UserSpec_val h (mob_Spec r)) (Status_val h (mob_Status r))" for h r
    by (simp add: User_val_def)
qed (auto simp: object_copy_defs split: bind_splits)

lemma Grant_copy:
  assumes "lib_ok L"
  shows "deep_copy (PostgreSQLGrant_DeepCopyInto L) (object_valid GrantSpec_valid) (object_fp GrantSpec_fp) Grant_val"
proof (rule object_copy [OF assms gs_copy.deep_copy_axioms])
  show "Grant_val h r = (\<lambda>t m s st. \<lparr>grant_TypeMeta = t, grant_ObjectMeta = m, grant_Spec = s, grant_Status = \<lparr>gst_Conditions = st\<rparr>\<rparr>) (mob_TypeMeta r) (ObjectMeta_val h (mob_ObjectMeta r))
      (GrantSpec_val h (mob_Spec r)) (Status_val h (mob_Status r))" for h r
    by (simp add: Grant_val_def)
qed (auto simp: object_copy_defs split: bind_splits)

section \<open>Lists\<close>

definition PostgreSQLList_DeepCopyInto :: "lib_copies \<Rightarrow> mem_List \<Rightarrow> heap \<Rightarrow> (mem_List \<times> heap) option" where
  "PostgreSQLList_DeepCopyInto L r h = do {
     let out = r;
     let out = out\<lparr>mli_TypeMeta := mli_TypeMeta r\<rparr>;
     (m, h) \<leftarrow> ListMeta_DeepCopyInto L (mli_ListMeta r) h;
     let out = out\<lparr>mli_ListMeta := m\<rparr>;
     (s, h) \<leftarrow> copy_slice un_PostgreSQLs PostgreSQLs_cell (PostgreSQL_DeepCopyInto L) (mli_Items r) h;
     let out = out\<lparr>mli_Items := s\<rparr>;
     Some (out, h) }"

definition PostgreSQLDatabaseList_DeepCopyInto :: "lib_copies \<Rightarrow> mem_List \<Rightarrow> heap \<Rightarrow> (mem_List \<times> heap) option" where
  "PostgreSQLDatabaseList_DeepCopyInto L r h = do {
     let out = r;
     let out = out\<lparr>mli_TypeMeta := mli_TypeMeta r\<rparr>;
     (m, h) \<leftarrow> ListMeta_DeepCopyInto L (mli_ListMeta r) h;
     let out = out\<lparr>mli_ListMeta := m\<rparr>;
     (s, h) \<leftarrow> copy_slice un_Databases Databases_cell (PostgreSQLDatabase_DeepCopyInto L) (mli_Items r) h;
     let out = out\<lparr>mli_Items := s\<rparr>;
     Some (out, h) }"

definition PostgreSQLUserList_DeepCopyInto :: "lib_copies \<Rightarrow> mem_List \<Rightarrow> heap \<Rightarrow> (mem_List \<times> heap) option" where
  "PostgreSQLUserList_DeepCopyInto L r h = do {
     let out = r;
     let out = out\<lparr>mli_TypeMeta := mli_TypeMeta r\<rparr>;
     (m, h) \<leftarrow> ListMeta_DeepCopyInto L (mli_ListMeta r) h;
     let out = out\<lparr>mli_ListMeta := m\<rparr>;
     (s, h) \<leftarrow> copy_slice un_Users Users_cell (PostgreSQLUser_DeepCopyInto L) (mli_Items r) h;
     let out = out\<lparr>mli_Items := s\<rparr>;
     Some (out, h) }"

definition PostgreSQLGrantList_DeepCopyInto :: "lib_copies \<Rightarrow> mem_List \<Rightarrow> heap \<Rightarrow> (mem_List \<times> heap) option" where
  "PostgreSQLGrantList_DeepCopyInto L r h = do {
     let out = r;
     let out = out\<lparr>mli_TypeMeta := mli_TypeMeta r\<rparr>;
     (m, h) \<leftarrow> ListMeta_DeepCopyInto L (mli_ListMeta r) h;
     let out = out\<lparr>mli_ListMeta := m\<rparr>;
     (s, h) \<leftarrow> copy_slice un_Grants Grants_cell (PostgreSQLGrant_DeepCopyInto L) (mli_Items r) h;
     let out = out\<lparr>mli_Items := s\<rparr>;
     Some (out, h) }"

definition list_valid :: "(cell \<Rightarrow> 'a list option) \<Rightarrow> (heap \<Rightarrow> 'a \<Rightarrow> bool) \<Rightarrow> heap \<Rightarrow> mem_List \<Rightarrow> bool" where
  "list_valid un valid h r \<longleftrightarrow> ListMeta_valid h (mli_ListMeta r) \<and> slice_valid un valid h (mli_Items r)"

definition list_fp :: "(cell \<Rightarrow> 'a list option) \<Rightarrow> (heap \<Rightarrow> 'a \<Rightarrow> addr set) \<Rightarrow> heap \<Rightarrow> mem_List \<Rightarrow> addr set" where
  "list_fp un fp h r = ListMeta_fp h (mli_ListMeta r) \<union> slice_fp un fp h (mli_Items r)"

definition list_val :: "(cell \<Rightarrow> 'a list option) \<Rightarrow> (heap \<Rightarrow> 'a \<Rightarrow> 'o) \<Rightarrow> heap \<Rightarrow> mem_List \<Rightarrow> 'o object_list" where
  "list_val un val h r = \<lparr>list_TypeMeta = mli_TypeMeta r, list_ListMeta = ListMeta_val h (mli_ListMeta r),
     list_Items = slice_val un val h (mli_Items r)\<rparr>"

lemma list_copy:
  assumes "lib_ok L" "deep_copy f valid fp val" "\<And>xs. un (mk xs) = Some xs"
    and "\<And>r h. copy r h = map_option (\<lambda>(x, h). (r\<lparr>mli_ListMeta := fst x, mli_Items := snd x\<rparr>, h))
      (copy_both (ListMeta_DeepCopyInto L) (copy_slice un mk f) (mli_ListMeta r, mli_Items r) h)"
  shows "deep_copy copy (list_valid un valid) (list_fp un fp) (list_val un val)"
proof (rule deep_copy_struct [OF deep_copy_both [OF _ deep_copy_slice [OF assms(2,3)]] assms(4)])
  show "deep_copy (ListMeta_DeepCopyInto L) ListMeta_valid ListMeta_fp ListMeta_val"
    using assms(1) by (simp add: lib_ok_def)
  show "list_val un val h r = (\<lambda>r (m, xs). \<lparr>list_TypeMeta = mli_TypeMeta r, list_ListMeta = m, list_Items = xs\<rparr>) r
      (ListMeta_val h (fst (mli_ListMeta r, mli_Items r)), slice_val un val h (snd (mli_ListMeta r, mli_Items r)))" for h r
    by (simp add: list_val_def)
qed (simp_all add: list_valid_def list_fp_def)

lemmas list_copy_defs = PostgreSQLList_DeepCopyInto_def PostgreSQLDatabaseList_DeepCopyInto_def
  PostgreSQLUserList_DeepCopyInto_def PostgreSQLGrantList_DeepCopyInto_def copy_both_def

text \<open>Nil slices stay nil, and empty ones do not become nil: the privileges, the conditions and the items.\<close>

lemma nil_kept:
  "PostgreSQLGrantSpec_DeepCopyInto spec h = Some (spec', h') \<Longrightarrow> mgs_Privileges spec' = None \<longleftrightarrow> mgs_Privileges spec = None"
  "PostgreSQLStatus_DeepCopyInto L st h = Some (st', h') \<Longrightarrow> ms_Conditions st' = None \<longleftrightarrow> ms_Conditions st = None"
  "PostgreSQLList_DeepCopyInto L li h = Some (li', h') \<Longrightarrow> mli_Items li' = None \<longleftrightarrow> mli_Items li = None"
  "PostgreSQLDatabaseList_DeepCopyInto L li h = Some (li', h') \<Longrightarrow> mli_Items li' = None \<longleftrightarrow> mli_Items li = None"
  "PostgreSQLUserList_DeepCopyInto L li h = Some (li', h') \<Longrightarrow> mli_Items li' = None \<longleftrightarrow> mli_Items li = None"
  "PostgreSQLGrantList_DeepCopyInto L li h = Some (li', h') \<Longrightarrow> mli_Items li' = None \<longleftrightarrow> mli_Items li = None"
  by (auto simp: PostgreSQLGrantSpec_DeepCopyInto_def PostgreSQLStatus_DeepCopyInto_def list_copy_defs
    copy_strings_def copy_conditions_def dest!: copy_slice_nil split: bind_splits)

lemma PostgreSQLList_copy:
  "lib_ok L \<Longrightarrow> deep_copy (PostgreSQLList_DeepCopyInto L) (list_valid un_PostgreSQLs (object_valid (\<lambda>_ _. True)))
     (list_fp un_PostgreSQLs (object_fp (\<lambda>_ _. {}))) (list_val un_PostgreSQLs PostgreSQL_val)"
  by (rule list_copy [OF _ PostgreSQL_copy, where mk = PostgreSQLs_cell])
    (auto simp: list_copy_defs split: bind_splits)

lemma DatabaseList_copy:
  "lib_ok L \<Longrightarrow> deep_copy (PostgreSQLDatabaseList_DeepCopyInto L)
     (list_valid un_Databases (object_valid (\<lambda>h s. SQLTemplate_valid h (mds_SQLTemplate s))))
     (list_fp un_Databases (object_fp (\<lambda>h s. SQLTemplate_fp h (mds_SQLTemplate s)))) (list_val un_Databases Database_val)"
  by (rule list_copy [OF _ Database_copy, where mk = Databases_cell])
    (auto simp: list_copy_defs split: bind_splits)

lemma UserList_copy:
  "lib_ok L \<Longrightarrow> deep_copy (PostgreSQLUserList_DeepCopyInto L)
     (list_valid un_Users (object_valid (\<lambda>h s. SQLTemplate_valid h (mus_SQLTemplate s))))
     (list_fp un_Users (object_fp (\<lambda>h s. SQLTemplate_fp h (mus_SQLTemplate s)))) (list_val un_Users User_val)"
  by (rule list_copy [OF _ User_copy, where mk = Users_cell])
    (auto simp: list_copy_defs split: bind_splits)

lemma GrantList_copy:
  "lib_ok L \<Longrightarrow> deep_copy (PostgreSQLGrantList_DeepCopyInto L) (list_valid un_Grants (object_valid GrantSpec_valid))
     (list_fp un_Grants (object_fp GrantSpec_fp)) (list_val un_Grants Grant_val)"
  by (rule list_copy [OF _ Grant_copy, where mk = Grants_cell])
    (auto simp: list_copy_defs split: bind_splits)

section \<open>\<open>DeepCopy\<close>\<close>

text \<open>\<open>if in == nil { return nil }; out := new(T); in.DeepCopyInto(out); return out\<close>, for each type.\<close>

definition PostgreSQL_DeepCopy :: "lib_copies \<Rightarrow> addr option \<Rightarrow> heap \<Rightarrow> (addr option \<times> heap) option" where
  "PostgreSQL_DeepCopy L = copy_new un_PostgreSQL PostgreSQL_cell (PostgreSQL_DeepCopyInto L)"

definition PostgreSQLDatabase_DeepCopy :: "lib_copies \<Rightarrow> addr option \<Rightarrow> heap \<Rightarrow> (addr option \<times> heap) option" where
  "PostgreSQLDatabase_DeepCopy L = copy_new un_Database Database_cell (PostgreSQLDatabase_DeepCopyInto L)"

definition PostgreSQLDatabaseList_DeepCopy :: "lib_copies \<Rightarrow> addr option \<Rightarrow> heap \<Rightarrow> (addr option \<times> heap) option" where
  "PostgreSQLDatabaseList_DeepCopy L = copy_new (un_List Database_kind) (List_cell Database_kind) (PostgreSQLDatabaseList_DeepCopyInto L)"

definition PostgreSQLDatabaseSpec_DeepCopy :: "addr option \<Rightarrow> heap \<Rightarrow> (addr option \<times> heap) option" where
  "PostgreSQLDatabaseSpec_DeepCopy = copy_new un_DatabaseSpec DatabaseSpec_cell PostgreSQLDatabaseSpec_DeepCopyInto"

definition PostgreSQLDatabaseStatus_DeepCopy :: "lib_copies \<Rightarrow> addr option \<Rightarrow> heap \<Rightarrow> (addr option \<times> heap) option" where
  "PostgreSQLDatabaseStatus_DeepCopy L = copy_new (un_Status Database_kind) (Status_cell Database_kind) (PostgreSQLDatabaseStatus_DeepCopyInto L)"

definition PostgreSQLGrant_DeepCopy :: "lib_copies \<Rightarrow> addr option \<Rightarrow> heap \<Rightarrow> (addr option \<times> heap) option" where
  "PostgreSQLGrant_DeepCopy L = copy_new un_Grant Grant_cell (PostgreSQLGrant_DeepCopyInto L)"

definition PostgreSQLGrantList_DeepCopy :: "lib_copies \<Rightarrow> addr option \<Rightarrow> heap \<Rightarrow> (addr option \<times> heap) option" where
  "PostgreSQLGrantList_DeepCopy L = copy_new (un_List Grant_kind) (List_cell Grant_kind) (PostgreSQLGrantList_DeepCopyInto L)"

definition PostgreSQLGrantSpec_DeepCopy :: "addr option \<Rightarrow> heap \<Rightarrow> (addr option \<times> heap) option" where
  "PostgreSQLGrantSpec_DeepCopy = copy_new un_GrantSpec GrantSpec_cell PostgreSQLGrantSpec_DeepCopyInto"

definition PostgreSQLGrantStatus_DeepCopy :: "lib_copies \<Rightarrow> addr option \<Rightarrow> heap \<Rightarrow> (addr option \<times> heap) option" where
  "PostgreSQLGrantStatus_DeepCopy L = copy_new (un_Status Grant_kind) (Status_cell Grant_kind) (PostgreSQLGrantStatus_DeepCopyInto L)"

definition PostgreSQLList_DeepCopy :: "lib_copies \<Rightarrow> addr option \<Rightarrow> heap \<Rightarrow> (addr option \<times> heap) option" where
  "PostgreSQLList_DeepCopy L = copy_new (un_List PostgreSQL_kind) (List_cell PostgreSQL_kind) (PostgreSQLList_DeepCopyInto L)"

definition PostgreSQLSpec_DeepCopy :: "addr option \<Rightarrow> heap \<Rightarrow> (addr option \<times> heap) option" where
  "PostgreSQLSpec_DeepCopy = copy_new un_PostgreSQLSpec PostgreSQLSpec_cell PostgreSQLSpec_DeepCopyInto"

definition PostgreSQLStatus_DeepCopy :: "lib_copies \<Rightarrow> addr option \<Rightarrow> heap \<Rightarrow> (addr option \<times> heap) option" where
  "PostgreSQLStatus_DeepCopy L = copy_new (un_Status PostgreSQL_kind) (Status_cell PostgreSQL_kind) (PostgreSQLStatus_DeepCopyInto L)"

definition PostgreSQLUser_DeepCopy :: "lib_copies \<Rightarrow> addr option \<Rightarrow> heap \<Rightarrow> (addr option \<times> heap) option" where
  "PostgreSQLUser_DeepCopy L = copy_new un_User User_cell (PostgreSQLUser_DeepCopyInto L)"

definition PostgreSQLUserList_DeepCopy :: "lib_copies \<Rightarrow> addr option \<Rightarrow> heap \<Rightarrow> (addr option \<times> heap) option" where
  "PostgreSQLUserList_DeepCopy L = copy_new (un_List User_kind) (List_cell User_kind) (PostgreSQLUserList_DeepCopyInto L)"

definition PostgreSQLUserSpec_DeepCopy :: "addr option \<Rightarrow> heap \<Rightarrow> (addr option \<times> heap) option" where
  "PostgreSQLUserSpec_DeepCopy = copy_new un_UserSpec UserSpec_cell PostgreSQLUserSpec_DeepCopyInto"

definition PostgreSQLUserStatus_DeepCopy :: "lib_copies \<Rightarrow> addr option \<Rightarrow> heap \<Rightarrow> (addr option \<times> heap) option" where
  "PostgreSQLUserStatus_DeepCopy L = copy_new (un_Status User_kind) (Status_cell User_kind) (PostgreSQLUserStatus_DeepCopyInto L)"

definition PostgresRef_DeepCopy :: "addr option \<Rightarrow> heap \<Rightarrow> (addr option \<times> heap) option" where
  "PostgresRef_DeepCopy = copy_new un_PostgresRef PostgresRef_cell PostgresRef_DeepCopyInto"

definition SQLTemplate_DeepCopy :: "addr option \<Rightarrow> heap \<Rightarrow> (addr option \<times> heap) option" where
  "SQLTemplate_DeepCopy = copy_new un_SQLTemplate SQLTemplate_cell SQLTemplate_DeepCopyInto"

definition SecretKeyRef_DeepCopy :: "addr option \<Rightarrow> heap \<Rightarrow> (addr option \<times> heap) option" where
  "SecretKeyRef_DeepCopy = copy_new un_SecretKeyRef SecretKeyRef_cell SecretKeyRef_DeepCopyInto"

section \<open>\<open>DeepCopyObject\<close>\<close>

text \<open>
  A value of the interface \<open>runtime.Object\<close> is nil or holds a pointer of one of the eight types that
  implement it. A nil pointer gives the nil interface, not an interface that holds a nil pointer.
\<close>

datatype runtime_object =
    PostgreSQL_ptr addr | Database_ptr addr | User_ptr addr | Grant_ptr addr
  | PostgreSQLList_ptr addr | DatabaseList_ptr addr | UserList_ptr addr | GrantList_ptr addr

definition PostgreSQL_DeepCopyObject ::
  "lib_copies \<Rightarrow> addr option \<Rightarrow> heap \<Rightarrow> (runtime_object option \<times> heap) option" where
  "PostgreSQL_DeepCopyObject L p h = do {
     (c, h) \<leftarrow> PostgreSQL_DeepCopy L p h;
     case c of Some a \<Rightarrow> Some (Some (PostgreSQL_ptr a), h) | None \<Rightarrow> Some (None, h) }"

definition PostgreSQLDatabase_DeepCopyObject ::
  "lib_copies \<Rightarrow> addr option \<Rightarrow> heap \<Rightarrow> (runtime_object option \<times> heap) option" where
  "PostgreSQLDatabase_DeepCopyObject L p h = do {
     (c, h) \<leftarrow> PostgreSQLDatabase_DeepCopy L p h;
     case c of Some a \<Rightarrow> Some (Some (Database_ptr a), h) | None \<Rightarrow> Some (None, h) }"

definition PostgreSQLDatabaseList_DeepCopyObject ::
  "lib_copies \<Rightarrow> addr option \<Rightarrow> heap \<Rightarrow> (runtime_object option \<times> heap) option" where
  "PostgreSQLDatabaseList_DeepCopyObject L p h = do {
     (c, h) \<leftarrow> PostgreSQLDatabaseList_DeepCopy L p h;
     case c of Some a \<Rightarrow> Some (Some (DatabaseList_ptr a), h) | None \<Rightarrow> Some (None, h) }"

definition PostgreSQLGrant_DeepCopyObject ::
  "lib_copies \<Rightarrow> addr option \<Rightarrow> heap \<Rightarrow> (runtime_object option \<times> heap) option" where
  "PostgreSQLGrant_DeepCopyObject L p h = do {
     (c, h) \<leftarrow> PostgreSQLGrant_DeepCopy L p h;
     case c of Some a \<Rightarrow> Some (Some (Grant_ptr a), h) | None \<Rightarrow> Some (None, h) }"

definition PostgreSQLGrantList_DeepCopyObject ::
  "lib_copies \<Rightarrow> addr option \<Rightarrow> heap \<Rightarrow> (runtime_object option \<times> heap) option" where
  "PostgreSQLGrantList_DeepCopyObject L p h = do {
     (c, h) \<leftarrow> PostgreSQLGrantList_DeepCopy L p h;
     case c of Some a \<Rightarrow> Some (Some (GrantList_ptr a), h) | None \<Rightarrow> Some (None, h) }"

definition PostgreSQLList_DeepCopyObject ::
  "lib_copies \<Rightarrow> addr option \<Rightarrow> heap \<Rightarrow> (runtime_object option \<times> heap) option" where
  "PostgreSQLList_DeepCopyObject L p h = do {
     (c, h) \<leftarrow> PostgreSQLList_DeepCopy L p h;
     case c of Some a \<Rightarrow> Some (Some (PostgreSQLList_ptr a), h) | None \<Rightarrow> Some (None, h) }"

definition PostgreSQLUser_DeepCopyObject ::
  "lib_copies \<Rightarrow> addr option \<Rightarrow> heap \<Rightarrow> (runtime_object option \<times> heap) option" where
  "PostgreSQLUser_DeepCopyObject L p h = do {
     (c, h) \<leftarrow> PostgreSQLUser_DeepCopy L p h;
     case c of Some a \<Rightarrow> Some (Some (User_ptr a), h) | None \<Rightarrow> Some (None, h) }"

definition PostgreSQLUserList_DeepCopyObject ::
  "lib_copies \<Rightarrow> addr option \<Rightarrow> heap \<Rightarrow> (runtime_object option \<times> heap) option" where
  "PostgreSQLUserList_DeepCopyObject L p h = do {
     (c, h) \<leftarrow> PostgreSQLUserList_DeepCopy L p h;
     case c of Some a \<Rightarrow> Some (Some (UserList_ptr a), h) | None \<Rightarrow> Some (None, h) }"

text \<open>The call \<open>obj.DeepCopyObject()\<close> on an interface that is not nil: the method of the pointer it holds.\<close>

fun DeepCopyObject :: "lib_copies \<Rightarrow> runtime_object \<Rightarrow> heap \<Rightarrow> (runtime_object option \<times> heap) option" where
  "DeepCopyObject L (PostgreSQL_ptr a) h = PostgreSQL_DeepCopyObject L (Some a) h"
| "DeepCopyObject L (Database_ptr a) h = PostgreSQLDatabase_DeepCopyObject L (Some a) h"
| "DeepCopyObject L (DatabaseList_ptr a) h = PostgreSQLDatabaseList_DeepCopyObject L (Some a) h"
| "DeepCopyObject L (Grant_ptr a) h = PostgreSQLGrant_DeepCopyObject L (Some a) h"
| "DeepCopyObject L (GrantList_ptr a) h = PostgreSQLGrantList_DeepCopyObject L (Some a) h"
| "DeepCopyObject L (PostgreSQLList_ptr a) h = PostgreSQLList_DeepCopyObject L (Some a) h"
| "DeepCopyObject L (User_ptr a) h = PostgreSQLUser_DeepCopyObject L (Some a) h"
| "DeepCopyObject L (UserList_ptr a) h = PostgreSQLUserList_DeepCopyObject L (Some a) h"

text \<open>Validity, memory and value of an object behind an interface.\<close>

datatype object_value =
    Object_value client_object
  | PostgreSQLs_value PostgreSQLList | Databases_value PostgreSQLDatabaseList
  | Users_value PostgreSQLUserList | Grants_value PostgreSQLGrantList

fun runtime_valid :: "heap \<Rightarrow> runtime_object \<Rightarrow> bool" where
  "runtime_valid h (PostgreSQL_ptr a) = new_valid un_PostgreSQL (object_valid (\<lambda>_ _. True)) h (Some a)"
| "runtime_valid h (Database_ptr a) = new_valid un_Database (object_valid (\<lambda>h s. SQLTemplate_valid h (mds_SQLTemplate s))) h (Some a)"
| "runtime_valid h (User_ptr a) = new_valid un_User (object_valid (\<lambda>h s. SQLTemplate_valid h (mus_SQLTemplate s))) h (Some a)"
| "runtime_valid h (Grant_ptr a) = new_valid un_Grant (object_valid GrantSpec_valid) h (Some a)"
| "runtime_valid h (PostgreSQLList_ptr a) = new_valid (un_List PostgreSQL_kind) (list_valid un_PostgreSQLs (object_valid (\<lambda>_ _. True))) h (Some a)"
| "runtime_valid h (DatabaseList_ptr a) = new_valid (un_List Database_kind) (list_valid un_Databases (object_valid (\<lambda>h s. SQLTemplate_valid h (mds_SQLTemplate s)))) h (Some a)"
| "runtime_valid h (UserList_ptr a) = new_valid (un_List User_kind) (list_valid un_Users (object_valid (\<lambda>h s. SQLTemplate_valid h (mus_SQLTemplate s)))) h (Some a)"
| "runtime_valid h (GrantList_ptr a) = new_valid (un_List Grant_kind) (list_valid un_Grants (object_valid GrantSpec_valid)) h (Some a)"

fun runtime_fp :: "heap \<Rightarrow> runtime_object \<Rightarrow> addr set" where
  "runtime_fp h (PostgreSQL_ptr a) = new_fp un_PostgreSQL (object_fp (\<lambda>_ _. {})) h (Some a)"
| "runtime_fp h (Database_ptr a) = new_fp un_Database (object_fp (\<lambda>h s. SQLTemplate_fp h (mds_SQLTemplate s))) h (Some a)"
| "runtime_fp h (User_ptr a) = new_fp un_User (object_fp (\<lambda>h s. SQLTemplate_fp h (mus_SQLTemplate s))) h (Some a)"
| "runtime_fp h (Grant_ptr a) = new_fp un_Grant (object_fp GrantSpec_fp) h (Some a)"
| "runtime_fp h (PostgreSQLList_ptr a) = new_fp (un_List PostgreSQL_kind) (list_fp un_PostgreSQLs (object_fp (\<lambda>_ _. {}))) h (Some a)"
| "runtime_fp h (DatabaseList_ptr a) = new_fp (un_List Database_kind) (list_fp un_Databases (object_fp (\<lambda>h s. SQLTemplate_fp h (mds_SQLTemplate s)))) h (Some a)"
| "runtime_fp h (UserList_ptr a) = new_fp (un_List User_kind) (list_fp un_Users (object_fp (\<lambda>h s. SQLTemplate_fp h (mus_SQLTemplate s)))) h (Some a)"
| "runtime_fp h (GrantList_ptr a) = new_fp (un_List Grant_kind) (list_fp un_Grants (object_fp GrantSpec_fp)) h (Some a)"

fun runtime_val :: "heap \<Rightarrow> runtime_object \<Rightarrow> object_value option" where
  "runtime_val h (PostgreSQL_ptr a) = map_option (Object_value \<circ> PostgreSQL_object) (new_val un_PostgreSQL PostgreSQL_val h (Some a))"
| "runtime_val h (Database_ptr a) = map_option (Object_value \<circ> Database_object) (new_val un_Database Database_val h (Some a))"
| "runtime_val h (User_ptr a) = map_option (Object_value \<circ> User_object) (new_val un_User User_val h (Some a))"
| "runtime_val h (Grant_ptr a) = map_option (Object_value \<circ> Grant_object) (new_val un_Grant Grant_val h (Some a))"
| "runtime_val h (PostgreSQLList_ptr a) = map_option PostgreSQLs_value (new_val (un_List PostgreSQL_kind) (list_val un_PostgreSQLs PostgreSQL_val) h (Some a))"
| "runtime_val h (DatabaseList_ptr a) = map_option Databases_value (new_val (un_List Database_kind) (list_val un_Databases Database_val) h (Some a))"
| "runtime_val h (UserList_ptr a) = map_option Users_value (new_val (un_List User_kind) (list_val un_Users User_val) h (Some a))"
| "runtime_val h (GrantList_ptr a) = map_option Grants_value (new_val (un_List Grant_kind) (list_val un_Grants Grant_val) h (Some a))"

lemma new_copied:
  assumes "deep_copy f valid fp val" "\<And>x. un (mk x) = Some x" "new_valid un valid h (Some a)"
  shows "\<exists>b h'. copy_new un mk f (Some a) h = Some (Some b, h') \<and> extends h h' \<and> new_valid un valid h' (Some b) \<and>
    new_val un val h' (Some b) = new_val un val h (Some a) \<and> new_fp un fp h' (Some b) \<subseteq> {next_addr h..}"
proof -
  obtain p h' where c: "copy_new un mk f (Some a) h = Some (p, h')" "extends h h' \<and> new_valid un valid h' p \<and>
      new_val un val h' p = new_val un val h (Some a) \<and> new_fp un fp h' p \<subseteq> {next_addr h..}"
    using deep_copy.copied [OF deep_copy_new [OF assms(1,2)] assms(3)] by blast
  then obtain b where "p = Some b" by (auto simp: copy_new_def split: bind_splits prod.splits)
  with c show ?thesis by blast
qed

lemmas DeepCopy_defs = PostgreSQL_DeepCopy_def PostgreSQLDatabase_DeepCopy_def PostgreSQLUser_DeepCopy_def
  PostgreSQLGrant_DeepCopy_def PostgreSQLList_DeepCopy_def PostgreSQLDatabaseList_DeepCopy_def
  PostgreSQLUserList_DeepCopy_def PostgreSQLGrantList_DeepCopy_def
lemmas DeepCopyObject_defs = PostgreSQL_DeepCopyObject_def PostgreSQLDatabase_DeepCopyObject_def
  PostgreSQLUser_DeepCopyObject_def PostgreSQLGrant_DeepCopyObject_def PostgreSQLList_DeepCopyObject_def
  PostgreSQLDatabaseList_DeepCopyObject_def PostgreSQLUserList_DeepCopyObject_def PostgreSQLGrantList_DeepCopyObject_def

section \<open>The snapshot of a status patch\<close>

text \<open>
  \<open>obj.DeepCopyObject().(client.Object)\<close> in \<open>patchCondition\<close>; the type assertion panics on nil.
\<close>

definition snapshot :: "lib_copies \<Rightarrow> runtime_object \<Rightarrow> heap \<Rightarrow> (runtime_object \<times> heap) option" where
  "snapshot L ob h = do {
     (c, h) \<leftarrow> DeepCopyObject L ob h;
     case c of Some ob' \<Rightarrow> Some (ob', h) | None \<Rightarrow> None }"

lemmas snapshot_defs = snapshot_def DeepCopyObject_defs DeepCopy_defs

lemma snapshot_copied:
  assumes "lib_ok L" "runtime_valid h ob"
  shows "\<exists>ob' h'. snapshot L ob h = Some (ob', h') \<and> extends h h' \<and> runtime_valid h' ob' \<and>
    runtime_val h' ob' = runtime_val h ob \<and> runtime_fp h' ob' \<subseteq> {next_addr h..}"
proof (cases ob)
  case (PostgreSQL_ptr a)
  with assms(2) show ?thesis
    using new_copied [OF PostgreSQL_copy [OF assms(1)], of un_PostgreSQL PostgreSQL_cell h a]
    by (auto simp: snapshot_defs)
next
  case (Database_ptr a)
  with assms(2) show ?thesis
    using new_copied [OF Database_copy [OF assms(1)], of un_Database Database_cell h a]
    by (auto simp: snapshot_defs)
next
  case (User_ptr a)
  with assms(2) show ?thesis
    using new_copied [OF User_copy [OF assms(1)], of un_User User_cell h a]
    by (auto simp: snapshot_defs)
next
  case (Grant_ptr a)
  with assms(2) show ?thesis
    using new_copied [OF Grant_copy [OF assms(1)], of un_Grant Grant_cell h a]
    by (auto simp: snapshot_defs)
next
  case (PostgreSQLList_ptr a)
  with assms(2) show ?thesis
    using new_copied [OF PostgreSQLList_copy [OF assms(1)], of "un_List PostgreSQL_kind" "List_cell PostgreSQL_kind" h a]
    by (auto simp: snapshot_defs)
next
  case (DatabaseList_ptr a)
  with assms(2) show ?thesis
    using new_copied [OF DatabaseList_copy [OF assms(1)], of "un_List Database_kind" "List_cell Database_kind" h a]
    by (auto simp: snapshot_defs)
next
  case (UserList_ptr a)
  with assms(2) show ?thesis
    using new_copied [OF UserList_copy [OF assms(1)], of "un_List User_kind" "List_cell User_kind" h a]
    by (auto simp: snapshot_defs)
next
  case (GrantList_ptr a)
  with assms(2) show ?thesis
    using new_copied [OF GrantList_copy [OF assms(1)], of "un_List Grant_kind" "List_cell Grant_kind" h a]
    by (auto simp: snapshot_defs)
qed

lemma new_laws:
  assumes "deep_copy f valid fp val" "\<And>x. un (mk x) = Some x" "new_valid un valid h p"
  shows "new_fp un fp h p \<subseteq> {..<next_addr h}"
    "same_on (new_fp un fp h p) h h' \<Longrightarrow>
     new_valid un valid h' p \<and> new_fp un fp h' p = new_fp un fp h p \<and> new_val un val h' p = new_val un val h p"
  using deep_copy.bounded [OF deep_copy_new [OF assms(1,2)] assms(3)]
    deep_copy.framed [OF deep_copy_new [OF assms(1,2)] assms(3)] by simp_all

lemma object_copies:
  assumes "lib_ok L"
  shows "deep_copy (snapshot L) runtime_valid runtime_fp runtime_val"
proof
  note laws = new_laws [OF PostgreSQL_copy [OF assms] un_cells(17)] new_laws [OF Database_copy [OF assms] un_cells(18)]
    new_laws [OF User_copy [OF assms] un_cells(19)] new_laws [OF Grant_copy [OF assms] un_cells(20)]
    new_laws [OF PostgreSQLList_copy [OF assms] un_cells(22) [of PostgreSQL_kind]]
    new_laws [OF DatabaseList_copy [OF assms] un_cells(22) [of Database_kind]]
    new_laws [OF UserList_copy [OF assms] un_cells(22) [of User_kind]]
    new_laws [OF GrantList_copy [OF assms] un_cells(22) [of Grant_kind]]
  fix h ob
  assume v: "runtime_valid h ob"
  show "runtime_fp h ob \<subseteq> {..<next_addr h}"
  proof (cases ob)
    case (PostgreSQL_ptr a)
    with v laws(1) [of h "Some a"] show ?thesis by simp
  next
    case (Database_ptr a)
    with v laws(3) [of h "Some a"] show ?thesis by simp
  next
    case (User_ptr a)
    with v laws(5) [of h "Some a"] show ?thesis by simp
  next
    case (Grant_ptr a)
    with v laws(7) [of h "Some a"] show ?thesis by simp
  next
    case (PostgreSQLList_ptr a)
    with v laws(9) [of h "Some a"] show ?thesis by simp
  next
    case (DatabaseList_ptr a)
    with v laws(11) [of h "Some a"] show ?thesis by simp
  next
    case (UserList_ptr a)
    with v laws(13) [of h "Some a"] show ?thesis by simp
  next
    case (GrantList_ptr a)
    with v laws(15) [of h "Some a"] show ?thesis by simp
  qed
  show "\<exists>ob' h'. snapshot L ob h = Some (ob', h') \<and> extends h h' \<and> runtime_valid h' ob' \<and>
      runtime_val h' ob' = runtime_val h ob \<and> runtime_fp h' ob' \<subseteq> {next_addr h..}"
    by (rule snapshot_copied [OF assms v])
  fix h'
  assume s: "same_on (runtime_fp h ob) h h'"
  show "runtime_valid h' ob \<and> runtime_fp h' ob = runtime_fp h ob \<and> runtime_val h' ob = runtime_val h ob"
  proof (cases ob)
    case (PostgreSQL_ptr a)
    with v s laws(2) [of h "Some a" h'] show ?thesis by simp
  next
    case (Database_ptr a)
    with v s laws(4) [of h "Some a" h'] show ?thesis by simp
  next
    case (User_ptr a)
    with v s laws(6) [of h "Some a" h'] show ?thesis by simp
  next
    case (Grant_ptr a)
    with v s laws(8) [of h "Some a" h'] show ?thesis by simp
  next
    case (PostgreSQLList_ptr a)
    with v s laws(10) [of h "Some a" h'] show ?thesis by simp
  next
    case (DatabaseList_ptr a)
    with v s laws(12) [of h "Some a" h'] show ?thesis by simp
  next
    case (UserList_ptr a)
    with v s laws(14) [of h "Some a" h'] show ?thesis by simp
  next
    case (GrantList_ptr a)
    with v s laws(16) [of h "Some a" h'] show ?thesis by simp
  qed
qed

end
