(* ===== verification/CopyProperties.thy ===== *)
theory CopyProperties
  imports DeepCopy
begin

text \<open>
  The properties of the generated deep copies, with a concrete instance of the copies the library
  provides and a concrete heap for the witnesses.
\<close>

section \<open>An instance\<close>

definition ref_ObjectMeta_copy :: "mem_ObjectMeta \<Rightarrow> heap \<Rightarrow> (mem_ObjectMeta \<times> heap) option" where
  "ref_ObjectMeta_copy r h = map_option (\<lambda>(x, h). (r\<lparr>mo_DeletionTimestamp := fst x, mo_Finalizers := snd x\<rparr>, h))
     (copy_both (copy_pointer un_Time Time_cell) copy_strings (mo_DeletionTimestamp r, mo_Finalizers r) h)"

definition ref_ListMeta_copy :: "mem_ListMeta \<Rightarrow> heap \<Rightarrow> (mem_ListMeta \<times> heap) option" where
  "ref_ListMeta_copy r h = map_option (\<lambda>(x, h). (r\<lparr>ml_RemainingItemCount := x\<rparr>, h))
     (copy_pointer un_Int64 Int64_cell (ml_RemainingItemCount r) h)"

definition ref_lib :: lib_copies where
  "ref_lib = \<lparr>ObjectMeta_DeepCopyInto = ref_ObjectMeta_copy, ListMeta_DeepCopyInto = ref_ListMeta_copy,
     Condition_DeepCopyInto = \<lambda>c h. Some (c, h)\<rparr>"

interpretation ref_meta: deep_copy ref_ObjectMeta_copy ObjectMeta_valid ObjectMeta_fp ObjectMeta_val
proof (rule deep_copy_struct [OF deep_copy_both [OF deep_copy_pointer [of un_Time Time_cell, OF un_cells(2)] strings_copy] ref_ObjectMeta_copy_def])
  show "ObjectMeta_val h r = (\<lambda>r (t, f). \<lparr>om_Name = mo_Name r, om_Namespace = mo_Namespace r,
        om_Generation = mo_Generation r, om_DeletionTimestamp = t, om_Finalizers = f\<rparr>) r
      (pointer_val un_Time h (fst (mo_DeletionTimestamp r, mo_Finalizers r)),
       slice_val un_Strings (\<lambda>_ x. x) h (snd (mo_DeletionTimestamp r, mo_Finalizers r)))" for h r
    by (simp add: ObjectMeta_val_def)
qed (simp_all add: ObjectMeta_valid_def ObjectMeta_fp_def)

interpretation ref_list_meta: deep_copy ref_ListMeta_copy ListMeta_valid ListMeta_fp ListMeta_val
proof (rule deep_copy_struct [OF deep_copy_pointer [of un_Int64 Int64_cell, OF un_cells(3)] ref_ListMeta_copy_def])
  show "ListMeta_val h r = (\<lambda>r n. \<lparr>lm_ResourceVersion = ml_ResourceVersion r, lm_Continue = ml_Continue r,
      lm_RemainingItemCount = n\<rparr>) r (pointer_val un_Int64 h (ml_RemainingItemCount r))" for h r
    by (simp add: ListMeta_val_def)
qed (simp_all add: ListMeta_valid_def ListMeta_fp_def)

lemma ref_lib_ok: "lib_ok ref_lib"
  using ref_meta.deep_copy_axioms ref_list_meta.deep_copy_axioms deep_copy_flat by (simp add: lib_ok_def ref_lib_def)

text \<open>A \<open>PostgreSQLUser\<close> with an interval and a condition, and a pointer to it.\<close>

definition sample_heap :: heap where
  "sample_heap = \<lparr>cells = [0 \<mapsto> Duration_cell 60,
     1 \<mapsto> Conditions_cell [\<lparr>cond_Type = ConditionTypeReady, cond_Status = ConditionFalse, cond_ObservedGeneration = 1,
       cond_LastTransitionTime = 7, cond_Reason = ReasonFailed, cond_Message = ''''\<rparr>],
     2 \<mapsto> User_cell \<lparr>mob_TypeMeta = \<lparr>tm_Kind = ''PostgreSQLUser'', tm_APIVersion = ''db.zernico.de/v1alpha1''\<rparr>,
       mob_ObjectMeta = \<lparr>mo_Name = ''alice'', mo_Namespace = ''team'', mo_Generation = 1,
         mo_DeletionTimestamp = None, mo_Finalizers = None\<rparr>,
       mob_Spec = \<lparr>mus_SQLTemplate = \<lparr>mt_RequeueInterval = Some 0, mt_RetryInterval = None, mt_CleanupPolicy = CleanupPolicySkip\<rparr>,
         mus_PostgresRef = \<lparr>ref_Name = ''pg'', ref_Namespace = ''infra''\<rparr>, mus_Name = '''',
         mus_PasswordSecretKeyRef = \<lparr>skr_Name = ''alice'', skr_Key = ''password''\<rparr>\<rparr>,
       mob_Status = \<lparr>ms_Conditions = Some \<lparr>sl_array = 1, sl_off = 0, sl_len = 1\<rparr>\<rparr>\<rparr>],
     next_addr = 3\<rparr>"

lemma sample_heap_valid: "runtime_valid sample_heap (User_ptr 2)"
  by (simp add: sample_heap_def new_valid_def load_def un_defs object_valid_def ObjectMeta_valid_def
    slice_valid_def SQLTemplate_valid_def Status_valid_def elements_def)

section \<open>Properties\<close>

text \<open>The generated \<open>DeepCopyInto\<close> of every type is a deep copy, provided those of the library are:
for a struct whose pointers are good it does not fault, writes to no address in use, and yields a
struct of the same value that shares no memory with the original.\<close>

theorem DeepCopyInto_deep:
  assumes "lib_ok L"
  shows "deep_copy SQLTemplate_DeepCopyInto SQLTemplate_valid SQLTemplate_fp SQLTemplate_val \<and>
    deep_copy PostgreSQLGrantSpec_DeepCopyInto GrantSpec_valid GrantSpec_fp GrantSpec_val \<and>
    deep_copy (PostgreSQLStatus_DeepCopyInto L) Status_valid Status_fp Status_val \<and>
    deep_copy (PostgreSQL_DeepCopyInto L) (object_valid (\<lambda>_ _. True)) (object_fp (\<lambda>_ _. {})) PostgreSQL_val \<and>
    deep_copy (PostgreSQLDatabase_DeepCopyInto L) (object_valid (\<lambda>h s. SQLTemplate_valid h (mds_SQLTemplate s)))
      (object_fp (\<lambda>h s. SQLTemplate_fp h (mds_SQLTemplate s))) Database_val \<and>
    deep_copy (PostgreSQLUser_DeepCopyInto L) (object_valid (\<lambda>h s. SQLTemplate_valid h (mus_SQLTemplate s)))
      (object_fp (\<lambda>h s. SQLTemplate_fp h (mus_SQLTemplate s))) User_val \<and>
    deep_copy (PostgreSQLGrant_DeepCopyInto L) (object_valid GrantSpec_valid) (object_fp GrantSpec_fp) Grant_val \<and>
    deep_copy (PostgreSQLGrantList_DeepCopyInto L) (list_valid un_Grants (object_valid GrantSpec_valid))
      (list_fp un_Grants (object_fp GrantSpec_fp)) (list_val un_Grants Grant_val)"
  using tmpl_copy.deep_copy_axioms gs_copy.deep_copy_axioms Status_copy [OF assms] PostgreSQL_copy [OF assms]
    Database_copy [OF assms] User_copy [OF assms] Grant_copy [OF assms] GrantList_copy [OF assms] by blast

theorem DeepCopyInto_deep_witness:
  "deep_copy (PostgreSQLGrant_DeepCopyInto ref_lib) (object_valid GrantSpec_valid) (object_fp GrantSpec_fp) Grant_val"
  using DeepCopyInto_deep [OF ref_lib_ok] by blast

text \<open>C34: \<open>DeepCopyObject\<close> of an object or list with good pointers returns a pointer to a new object of
the same kind and value, which shares no memory with the original; the original is unchanged.\<close>

theorem DeepCopyObject_copies:
  assumes "lib_ok L" "runtime_valid h ob"
  shows "\<exists>ob' h'. DeepCopyObject L ob h = Some (Some ob', h') \<and> runtime_val h' ob' = runtime_val h ob \<and>
    runtime_val h' ob = runtime_val h ob \<and> runtime_valid h' ob' \<and> runtime_fp h' ob \<inter> runtime_fp h' ob' = {}"
proof -
  obtain ob' h' where s: "snapshot L ob h = Some (ob', h')" using snapshot_copied [OF assms] by blast
  note deep_copy.copy_cases [OF object_copies [OF assms(1)] assms(2) s]
    deep_copy.original_kept [OF object_copies [OF assms(1)] assms(2) s]
  with s show ?thesis by (auto simp: snapshot_def split: bind_splits option.splits)
qed

theorem DeepCopyObject_copies_witness:
  "\<exists>ob' h' u. DeepCopyObject ref_lib (User_ptr 2) sample_heap = Some (Some ob', h') \<and>
     runtime_val h' ob' = Some (Object_value (User_object u)) \<and> RoleName u = ''alice''"
proof -
  obtain ob' h' where c: "DeepCopyObject ref_lib (User_ptr 2) sample_heap = Some (Some ob', h')"
    "runtime_val h' ob' = runtime_val sample_heap (User_ptr 2)"
    using DeepCopyObject_copies [OF ref_lib_ok sample_heap_valid] by blast
  then show ?thesis
    by (simp add: sample_heap_def new_val_def load_def un_defs RoleName_def User_val_def UserSpec_val_def ObjectMeta_val_def)
qed

text \<open>C35: The snapshot \<open>patchCondition\<close> computes its patch from keeps the value the object had, whatever
is then written to the memory of the object, such as a condition set in place; and a write to the
snapshot does not show in the object.\<close>

theorem snapshot_isolated:
  assumes "lib_ok L" "runtime_valid h ob" "snapshot L ob h = Some (ob', h')" "next_addr h' \<le> next_addr h''"
  shows "((\<forall>a. a \<notin> runtime_fp h' ob \<longrightarrow> a < next_addr h' \<longrightarrow> cells h'' a = cells h' a) \<longrightarrow> runtime_val h'' ob' = runtime_val h ob) \<and>
    ((\<forall>a. a \<notin> runtime_fp h' ob' \<longrightarrow> a < next_addr h' \<longrightarrow> cells h'' a = cells h' a) \<longrightarrow> runtime_val h'' ob = runtime_val h ob)"
  using deep_copy.isolated [OF object_copies [OF assms(1)] assms(2-4)] by simp

theorem snapshot_isolated_witness:
  "\<exists>ob' h'. snapshot ref_lib (User_ptr 2) sample_heap = Some (ob', h') \<and>
     runtime_val (store 1 (Conditions_cell []) h') ob' = runtime_val sample_heap (User_ptr 2)"
proof -
  obtain ob' h' where s: "snapshot ref_lib (User_ptr 2) sample_heap = Some (ob', h')"
    using snapshot_copied [OF ref_lib_ok sample_heap_valid] by blast
  note fp = deep_copy.original_kept(3) [OF object_copies [OF ref_lib_ok] sample_heap_valid s]
  have "1 \<in> runtime_fp sample_heap (User_ptr 2)"
    by (simp add: sample_heap_def new_fp_def load_def un_defs object_fp_def Status_fp_def slice_fp_def)
  then have "\<forall>a. a \<notin> runtime_fp h' (User_ptr 2) \<longrightarrow> a < next_addr h' \<longrightarrow>
      cells (store 1 (Conditions_cell []) h') a = cells h' a" unfolding fp by auto
  with snapshot_isolated [OF ref_lib_ok sample_heap_valid s, of "store 1 (Conditions_cell []) h'"] s
  show ?thesis by auto
qed

text \<open>\<open>DeepCopy\<close> and \<open>DeepCopyObject\<close> of a nil pointer give nil and allocate nothing.\<close>

theorem nil_copies:
  "PostgreSQL_DeepCopyObject L None h = Some (None, h) \<and> PostgreSQLDatabase_DeepCopyObject L None h = Some (None, h) \<and>
   PostgreSQLUser_DeepCopyObject L None h = Some (None, h) \<and> PostgreSQLGrant_DeepCopyObject L None h = Some (None, h) \<and>
   PostgreSQLList_DeepCopyObject L None h = Some (None, h) \<and> PostgreSQLDatabaseList_DeepCopyObject L None h = Some (None, h) \<and>
   PostgreSQLUserList_DeepCopyObject L None h = Some (None, h) \<and> PostgreSQLGrantList_DeepCopyObject L None h = Some (None, h) \<and>
   SQLTemplate_DeepCopy None h = Some (None, h) \<and> SecretKeyRef_DeepCopy None h = Some (None, h)"
  by (simp add: DeepCopyObject_defs DeepCopy_defs SQLTemplate_DeepCopy_def SecretKeyRef_DeepCopy_def copy_new_def)

end
