(* ===== verification/Flags.thy ===== *)
theory Flags
  imports Prelude
begin

text \<open>
  Go's package \<open>flag\<close> as \<open>cmd/main.go\<close> uses it: flags registered with a name and a way to set them,
  and \<open>flag.Parse\<close> over the arguments of the command line.
\<close>

section \<open>Flags\<close>

text \<open>
  A flag has a method \<open>Set\<close> that may reject a text (here \<open>None\<close>), and a boolean flag may stand
  without a value. Setting one changes the variables \<open>'f\<close> the flags are bound to.
\<close>

datatype 'f flag_value = Flag_value bool "string \<Rightarrow> 'f \<Rightarrow> 'f option"

fun strconv_ParseBool :: "string \<Rightarrow> bool option" where
  "strconv_ParseBool s =
     (if s \<in> {''1'', ''t'', ''T'', ''TRUE'', ''true'', ''True''} then Some True
      else if s \<in> {''0'', ''f'', ''F'', ''FALSE'', ''false'', ''False''} then Some False
      else None)"

definition StringVar :: "(string \<Rightarrow> 'f \<Rightarrow> 'f) \<Rightarrow> 'f flag_value" where
  "StringVar p = Flag_value False (\<lambda>s f. Some (p s f))"

definition BoolVar :: "(bool \<Rightarrow> 'f \<Rightarrow> 'f) \<Rightarrow> 'f flag_value" where
  "BoolVar p = Flag_value True (\<lambda>s f. map_option (\<lambda>b. p b f) (strconv_ParseBool s))"

section \<open>One argument\<close>

text \<open>
  An argument is no flag, the terminator \<open>--\<close>, ill-formed, or a flag with one or two dashes, whose
  value may follow an equal sign.
\<close>

datatype flag_arg = No_flag | Terminator | Bad_syntax | Flag string "string option"

definition read_name :: "string \<Rightarrow> flag_arg" where
  "read_name s =
     (if s = [] \<or> hd s = CHR ''-'' \<or> hd s = CHR ''='' then Bad_syntax
      else Flag (takeWhile (\<lambda>c. c \<noteq> CHR ''='') s)
             (case dropWhile (\<lambda>c. c \<noteq> CHR ''='') s of [] \<Rightarrow> None | _ # v \<Rightarrow> Some v))"

definition read_arg :: "string \<Rightarrow> flag_arg" where
  "read_arg s =
     (if length s < 2 \<or> hd s \<noteq> CHR ''-'' then No_flag
      else if s = ''--'' then Terminator
      else if s ! 1 = CHR ''-'' then read_name (drop 2 s)
      else read_name (drop 1 s))"

section \<open>\<open>flag.Parse\<close>\<close>

text \<open>
  The flag set is \<open>flag.CommandLine\<close>, which exits on an error: with status 0 when help is asked for
  and no flag of that name exists, with status 2 otherwise. Parsing stops at the first argument
  that is no flag.
\<close>

datatype flag_error = Err_help | Err_flag

fun parse_flags :: "(string \<rightharpoonup> 'f flag_value) \<Rightarrow> string list \<Rightarrow> 'f \<Rightarrow> flag_error + 'f" where
  "parse_flags fs [] f = Inr f"
| "parse_flags fs (a # args) f =
     (case read_arg a of
        No_flag \<Rightarrow> Inr f
      | Terminator \<Rightarrow> Inr f
      | Bad_syntax \<Rightarrow> Inl Err_flag
      | Flag name value \<Rightarrow>
          (case fs name of
             None \<Rightarrow> Inl (if name = ''help'' \<or> name = ''h'' then Err_help else Err_flag)
           | Some (Flag_value is_bool set_to) \<Rightarrow>
               (case value of
                  Some v \<Rightarrow> (case set_to v f of None \<Rightarrow> Inl Err_flag | Some f \<Rightarrow> parse_flags fs args f)
                | None \<Rightarrow>
                    if is_bool then (case set_to ''true'' f of None \<Rightarrow> Inl Err_flag | Some f \<Rightarrow> parse_flags fs args f)
                    else
                      (case args of
                         [] \<Rightarrow> Inl Err_flag
                       | v # rest \<Rightarrow> (case set_to v f of None \<Rightarrow> Inl Err_flag | Some f \<Rightarrow> parse_flags fs rest f)))))"

text \<open>
  A property that every flag named on the command line keeps holds after parsing if it held before.
\<close>

definition names :: "string list \<Rightarrow> string \<Rightarrow> bool" where
  "names args n \<longleftrightarrow> (\<exists>a \<in> set args. \<exists>v. read_arg a = Flag n v)"

lemma parse_flags_keeps:
  assumes "parse_flags fs args f = Inr g" "P f"
    and "\<And>n b st v f f'. names args n \<Longrightarrow> fs n = Some (Flag_value b st) \<Longrightarrow> st v f = Some f' \<Longrightarrow> P f \<Longrightarrow> P f'"
  shows "P g"
  using assms
proof (induction fs args f rule: parse_flags.induct)
  case (2 fs a args f)
  have named: "names (a # args) n" if "names args n" for n using that by (auto simp: names_def)
  have later: "names (a # args) n" if "names (tl args) n" for n
    using that by (cases args) (auto simp: names_def)
  show ?case
  proof (cases "read_arg a")
    case (Flag n v)
    have nm: "names (a # args) n" using Flag by (auto simp: names_def)
    obtain b st where fv: "fs n = Some (Flag_value b st)"
      using "2.prems"(1) Flag by (cases "fs n") (auto split: flag_value.splits)
    show ?thesis
    proof (cases v)
      case (Some w)
      with "2.prems"(1) Flag fv obtain f' where f': "st w f = Some f'" "parse_flags fs args f' = Inr g"
        by (auto split: option.splits)
      show ?thesis
        by (rule "2.IH"(3) [OF Flag fv refl Some f'(1) f'(2) "2.prems"(3) [OF nm fv f'(1) "2.prems"(2)]])
          (use "2.prems"(3) named in blast)
    next
      case None
      show ?thesis
      proof (cases b)
        case True
        with "2.prems"(1) Flag fv None obtain f' where f': "st ''true'' f = Some f'" "parse_flags fs args f' = Inr g"
          by (auto split: option.splits)
        show ?thesis
          by (rule "2.IH"(1) [OF Flag fv refl None True f'(1) f'(2) "2.prems"(3) [OF nm fv f'(1) "2.prems"(2)]])
            (use "2.prems"(3) named in blast)
      next
        case False
        with "2.prems"(1) Flag fv None obtain w rest f' where args: "args = w # rest"
          and f': "st w f = Some f'" "parse_flags fs rest f' = Inr g"
          by (auto split: option.splits list.splits)
        show ?thesis
          by (rule "2.IH"(2) [OF Flag fv refl None False args f'(1) f'(2) "2.prems"(3) [OF nm fv f'(1) "2.prems"(2)]])
            (use "2.prems"(3) later args in fastforce)
      qed
    qed
  qed (use "2.prems" in simp_all)
qed simp

end
