(* ===== verification/Manager.thy ===== *)
theory Manager
  imports Flags Operator
begin

text \<open>
  The start of the program: the registration of the types of \<open>api/v1alpha1\<close>, \<open>SetupWithManager\<close> of
  the four controllers, and \<open>cmd/main.go\<close>, from the command line to the running manager.
\<close>

section \<open>Types and controllers\<close>

text \<open>
  The schemes the program names: the one \<open>main.go\<close> allocates with \<open>runtime.NewScheme()\<close>, and the one a
  manager returns as its own. (A manager is documented to take the scheme of its options, and the one of
  client-go when they name none.) A pointer to a scheme is one of the two, or nil.
\<close>

datatype runtime_Scheme = New_Scheme | Manager_GetScheme

definition scheme :: runtime_Scheme where
  "scheme = New_Scheme"

text \<open>\<open>groupversion_info.go\<close>, and the \<open>init\<close> functions of the four files of types, in file order.\<close>

record GroupVersion =
  gv_Group :: string
  gv_Version :: string

definition the_GroupVersion :: GroupVersion where
  "the_GroupVersion = \<lparr>gv_Group = ''db.zernico.de'', gv_Version = ''v1alpha1''\<rparr>"

text \<open>
  A \<open>scheme.Builder\<close> belongs to the library; here it is its group version and the calls of \<open>Register\<close>
  it received, each with the types registered: the type of a kind and the type of its list.
\<close>

datatype registered = Registered_object object_kind | Registered_list object_kind

record SchemeBuilder =
  sb_GroupVersion :: GroupVersion
  sb_calls :: "registered list list"

definition the_SchemeBuilder :: SchemeBuilder where
  "the_SchemeBuilder = \<lparr>sb_GroupVersion = the_GroupVersion, sb_calls = []\<rparr>"

definition Register :: "registered list \<Rightarrow> SchemeBuilder \<Rightarrow> SchemeBuilder" where
  "Register ts b = b\<lparr>sb_calls := sb_calls b @ [ts]\<rparr>"

definition init_PostgreSQL :: "SchemeBuilder \<Rightarrow> SchemeBuilder" where
  "init_PostgreSQL = Register [Registered_object PostgreSQL_kind, Registered_list PostgreSQL_kind]"

definition init_Database :: "SchemeBuilder \<Rightarrow> SchemeBuilder" where
  "init_Database = Register [Registered_object Database_kind, Registered_list Database_kind]"

definition init_Grant :: "SchemeBuilder \<Rightarrow> SchemeBuilder" where
  "init_Grant = Register [Registered_object Grant_kind, Registered_list Grant_kind]"

definition init_User :: "SchemeBuilder \<Rightarrow> SchemeBuilder" where
  "init_User = Register [Registered_object User_kind, Registered_list User_kind]"

definition api_SchemeBuilder :: SchemeBuilder where
  "api_SchemeBuilder = init_User (init_Grant (init_Database (init_PostgreSQL the_SchemeBuilder)))"

text \<open>
  A controller as its builder describes it: the kind it is for, its name, and the reconciler the
  manager calls for objects of that kind. A reconciler holds a client, whose answers are in the model's
  \<open>deps\<close>, and a scheme; both may be nil.
\<close>

datatype client_Client = Manager_GetClient

record reconciler_fields =
  rec_Client :: "client_Client option"
  rec_Scheme :: "runtime_Scheme option"

datatype reconciler =
    PostgreSQLReconciler (reconciler_fields: reconciler_fields)
  | PostgreSQLDatabaseReconciler (reconciler_fields: reconciler_fields)
  | PostgreSQLUserReconciler (reconciler_fields: reconciler_fields)
  | PostgreSQLGrantReconciler (reconciler_fields: reconciler_fields)

fun reconciler_Reconcile ::
  "reconciler \<Rightarrow> 'w deps \<Rightarrow> NamespacedName \<Rightarrow> 'w world \<Rightarrow> (Result \<times> gerror option) \<times> 'w world" where
  "reconciler_Reconcile (PostgreSQLReconciler r) d req s = Reconcile_PostgreSQL d req s"
| "reconciler_Reconcile (PostgreSQLDatabaseReconciler r) d req s = Reconcile_Database d req s"
| "reconciler_Reconcile (PostgreSQLUserReconciler r) d req s = Reconcile_User d req s"
| "reconciler_Reconcile (PostgreSQLGrantReconciler r) d req s = Reconcile_Grant d req s"

record controller =
  ctl_For :: object_kind
  ctl_Named :: string
  ctl_Reconciler :: reconciler

section \<open>Options\<close>

record tls_Config =
  NextProtos :: "string list"

record webhook_Options =
  wh_TLSOpts :: "(tls_Config \<Rightarrow> tls_Config) list"
  wh_CertDir :: string
  wh_CertName :: string
  wh_KeyName :: string

datatype filter_provider = WithAuthenticationAndAuthorization

record metrics_Options =
  mx_BindAddress :: string
  mx_SecureServing :: bool
  mx_TLSOpts :: "(tls_Config \<Rightarrow> tls_Config) list"
  mx_FilterProvider :: "filter_provider option"
  mx_CertDir :: string
  mx_CertName :: string
  mx_KeyName :: string

record manager_Options =
  mg_Scheme :: "runtime_Scheme option"
  mg_Metrics :: metrics_Options
  mg_WebhookServer :: webhook_Options
  mg_HealthProbeBindAddress :: string
  mg_LeaderElection :: bool
  mg_LeaderElectionID :: string

section \<open>The command line\<close>

record main_flags =
  metricsAddr :: string
  metricsCertPath :: string
  metricsCertName :: string
  metricsCertKey :: string
  webhookCertPath :: string
  webhookCertName :: string
  webhookCertKey :: string
  enableLeaderElection :: bool
  probeAddr :: string
  secureMetrics :: bool
  enableHTTP2 :: bool

text \<open>Registering a flag sets its variable to the default.\<close>

definition flag_defaults :: main_flags where
  "flag_defaults = \<lparr>metricsAddr = ''0'', metricsCertPath = '''', metricsCertName = ''tls.crt'', metricsCertKey = ''tls.key'',
     webhookCertPath = '''', webhookCertName = ''tls.crt'', webhookCertKey = ''tls.key'',
     enableLeaderElection = False, probeAddr = '':8081'', secureMetrics = True, enableHTTP2 = False\<rparr>"

definition main_flag_table :: "(string \<times> main_flags flag_value) list" where
  "main_flag_table =
    [(''metrics-bind-address'', StringVar (\<lambda>v. metricsAddr_update (\<lambda>_. v))),
     (''health-probe-bind-address'', StringVar (\<lambda>v. probeAddr_update (\<lambda>_. v))),
     (''leader-elect'', BoolVar (\<lambda>v. enableLeaderElection_update (\<lambda>_. v))),
     (''metrics-secure'', BoolVar (\<lambda>v. secureMetrics_update (\<lambda>_. v))),
     (''webhook-cert-path'', StringVar (\<lambda>v. webhookCertPath_update (\<lambda>_. v))),
     (''webhook-cert-name'', StringVar (\<lambda>v. webhookCertName_update (\<lambda>_. v))),
     (''webhook-cert-key'', StringVar (\<lambda>v. webhookCertKey_update (\<lambda>_. v))),
     (''metrics-cert-path'', StringVar (\<lambda>v. metricsCertPath_update (\<lambda>_. v))),
     (''metrics-cert-name'', StringVar (\<lambda>v. metricsCertName_update (\<lambda>_. v))),
     (''metrics-cert-key'', StringVar (\<lambda>v. metricsCertKey_update (\<lambda>_. v))),
     (''enable-http2'', BoolVar (\<lambda>v. enableHTTP2_update (\<lambda>_. v)))]"

definition main_flag :: "string \<rightharpoonup> main_flags flag_value" where
  "main_flag = map_of main_flag_table"

text \<open>
  The flags of the libraries are a parameter: a table of flags on a state \<open>'z\<close> of theirs. They are those
  \<open>zap.Options.BindFlags\<close> adds for the options of the logger, and those a package registers on
  \<open>flag.CommandLine\<close> when it is imported, as controller-runtime does with \<open>--kubeconfig\<close>. (They have names
  of their own; the package panics on a name registered twice.)
\<close>

definition command_line :: "(string \<rightharpoonup> 'z flag_value) \<Rightarrow> string \<rightharpoonup> (main_flags \<times> 'z) flag_value" where
  "command_line libs n =
     (case main_flag n of
        Some (Flag_value b st) \<Rightarrow> Some (Flag_value b (\<lambda>v (f, z). map_option (\<lambda>f. (f, z)) (st v f)))
      | None \<Rightarrow>
          (case libs n of
             Some (Flag_value b st) \<Rightarrow> Some (Flag_value b (\<lambda>v (f, z). map_option (\<lambda>z. (f, z)) (st v z)))
           | None \<Rightarrow> None))"

section \<open>From flags to options\<close>

definition disableHTTP2 :: "tls_Config \<Rightarrow> tls_Config" where
  "disableHTTP2 c = c\<lparr>NextProtos := [''http/1.1'']\<rparr>"

definition tlsOpts :: "main_flags \<Rightarrow> (tls_Config \<Rightarrow> tls_Config) list" where
  "tlsOpts f = (if \<not> enableHTTP2 f then [] @ [disableHTTP2] else [])"

definition webhookServerOptions :: "main_flags \<Rightarrow> webhook_Options" where
  "webhookServerOptions f =
     (let webhookTLSOpts = tlsOpts f;
          opts = \<lparr>wh_TLSOpts = webhookTLSOpts, wh_CertDir = '''', wh_CertName = '''', wh_KeyName = ''''\<rparr>
      in if length (webhookCertPath f) > 0
         then opts\<lparr>wh_CertDir := webhookCertPath f, wh_CertName := webhookCertName f, wh_KeyName := webhookCertKey f\<rparr>
         else opts)"

definition metricsServerOptions :: "main_flags \<Rightarrow> metrics_Options" where
  "metricsServerOptions f =
     (let opts = \<lparr>mx_BindAddress = metricsAddr f, mx_SecureServing = secureMetrics f, mx_TLSOpts = tlsOpts f,
                  mx_FilterProvider = None, mx_CertDir = '''', mx_CertName = '''', mx_KeyName = ''''\<rparr>;
          opts = (if secureMetrics f then opts\<lparr>mx_FilterProvider := Some WithAuthenticationAndAuthorization\<rparr> else opts)
      in if length (metricsCertPath f) > 0
         then opts\<lparr>mx_CertDir := metricsCertPath f, mx_CertName := metricsCertName f, mx_KeyName := metricsCertKey f\<rparr>
         else opts)"

definition managerOptions :: "main_flags \<Rightarrow> manager_Options" where
  "managerOptions f = \<lparr>mg_Scheme = Some scheme, mg_Metrics = metricsServerOptions f, mg_WebhookServer = webhookServerOptions f,
     mg_HealthProbeBindAddress = probeAddr f, mg_LeaderElection = enableLeaderElection f,
     mg_LeaderElectionID = ''98f1e7ed.zernico.de''\<rparr>"

text \<open>What a server does with its \<open>TLSOpts\<close>: each function changes the configuration in turn.\<close>

definition apply_tls :: "(tls_Config \<Rightarrow> tls_Config) list \<Rightarrow> tls_Config \<Rightarrow> tls_Config" where
  "apply_tls opts c = fold (\<lambda>f c. f c) opts c"

section \<open>\<open>main\<close>\<close>

text \<open>
  The calls of \<open>init\<close> and \<open>main\<close> that can fail, and how the process ends. The libraries answer each
  call from a state \<open>'e\<close>; the calls made are recorded with their results.
\<close>

datatype main_call =
    Add_clientgo_to_scheme runtime_Scheme
  | Add_to_scheme SchemeBuilder runtime_Scheme
  | Get_config
  | New_manager manager_Options
  | Complete controller
  | Add_healthz_check string
  | Add_readyz_check string
  | Start_manager

datatype outcome = Exited nat | Panicked | Returned

type_synonym 'e answers = "main_call \<Rightarrow> 'e \<Rightarrow> gerror option \<times> 'e"
type_synonym 'e main_state = "'e \<times> (main_call \<times> gerror option) list"

definition do_call :: "'e answers \<Rightarrow> main_call \<Rightarrow> 'e main_state \<Rightarrow> gerror option \<times> 'e main_state" where
  "do_call env c s = (case env c (fst s) of (r, e) \<Rightarrow> (r, (e, snd s @ [(c, r)])))"

text \<open>
  \<open>if err := ...; err != nil { ...; os.Exit(1) }\<close>, and \<open>utilruntime.Must\<close>, with the rest of the program.
\<close>

definition or_exit ::
  "'e answers \<Rightarrow> main_call \<Rightarrow> ('e main_state \<Rightarrow> outcome \<times> 'e main_state) \<Rightarrow> 'e main_state \<Rightarrow> outcome \<times> 'e main_state" where
  "or_exit env c k s = (case do_call env c s of (Some err, s) \<Rightarrow> (Exited 1, s) | (None, s) \<Rightarrow> k s)"

definition Must ::
  "'e answers \<Rightarrow> main_call \<Rightarrow> ('e main_state \<Rightarrow> outcome \<times> 'e main_state) \<Rightarrow> 'e main_state \<Rightarrow> outcome \<times> 'e main_state" where
  "Must env c k s = (case do_call env c s of (Some err, s) \<Rightarrow> (Panicked, s) | (None, s) \<Rightarrow> k s)"

definition SetupWithManager_PostgreSQL :: "reconciler_fields \<Rightarrow> main_call" where
  "SetupWithManager_PostgreSQL r =
     Complete \<lparr>ctl_For = PostgreSQL_kind, ctl_Named = ''postgresql'', ctl_Reconciler = PostgreSQLReconciler r\<rparr>"

definition SetupWithManager_Database :: "reconciler_fields \<Rightarrow> main_call" where
  "SetupWithManager_Database r =
     Complete \<lparr>ctl_For = Database_kind, ctl_Named = ''postgresqldatabase'', ctl_Reconciler = PostgreSQLDatabaseReconciler r\<rparr>"

definition SetupWithManager_User :: "reconciler_fields \<Rightarrow> main_call" where
  "SetupWithManager_User r =
     Complete \<lparr>ctl_For = User_kind, ctl_Named = ''postgresqluser'', ctl_Reconciler = PostgreSQLUserReconciler r\<rparr>"

definition SetupWithManager_Grant :: "reconciler_fields \<Rightarrow> main_call" where
  "SetupWithManager_Grant r =
     Complete \<lparr>ctl_For = Grant_kind, ctl_Named = ''postgresqlgrant'', ctl_Reconciler = PostgreSQLGrantReconciler r\<rparr>"

text \<open>The fields \<open>main\<close> gives each of its four reconcilers.\<close>

definition main_reconciler :: reconciler_fields where
  "main_reconciler = \<lparr>rec_Client = Some Manager_GetClient, rec_Scheme = Some Manager_GetScheme\<rparr>"

definition run_manager :: "'e answers \<Rightarrow> main_flags \<Rightarrow> 'e main_state \<Rightarrow> outcome \<times> 'e main_state" where
  "run_manager env f =
     or_exit env Get_config
     (or_exit env (New_manager (managerOptions f))
     (or_exit env (SetupWithManager_PostgreSQL main_reconciler)
     (or_exit env (SetupWithManager_Database main_reconciler)
     (or_exit env (SetupWithManager_User main_reconciler)
     (or_exit env (SetupWithManager_Grant main_reconciler)
     (or_exit env (Add_healthz_check ''healthz'')
     (or_exit env (Add_readyz_check ''readyz'')
     (or_exit env Start_manager
     (\<lambda>s. (Returned, s))))))))))"

definition main_init ::
  "'e answers \<Rightarrow> ('e main_state \<Rightarrow> outcome \<times> 'e main_state) \<Rightarrow> 'e main_state \<Rightarrow> outcome \<times> 'e main_state" where
  "main_init env k = Must env (Add_clientgo_to_scheme scheme) (Must env (Add_to_scheme api_SchemeBuilder scheme) k)"

definition main :: "'e answers \<Rightarrow> (string \<rightharpoonup> 'z flag_value) \<Rightarrow> 'z \<Rightarrow> string list \<Rightarrow> 'e main_state \<Rightarrow> outcome \<times> 'e main_state" where
  "main env libs opts args s =
     (case parse_flags (command_line libs) args (flag_defaults, opts) of
        Inl Err_help \<Rightarrow> (Exited 0, s)
      | Inl Err_flag \<Rightarrow> (Exited 2, s)
      | Inr (f, opts) \<Rightarrow> run_manager env f s)"

text \<open>The process: package initialisation, then \<open>main\<close>.\<close>

definition process ::
  "'e answers \<Rightarrow> (string \<rightharpoonup> 'z flag_value) \<Rightarrow> 'z \<Rightarrow> string list \<Rightarrow> 'e \<Rightarrow> outcome \<times> 'e main_state" where
  "process env libs opts args e = main_init env (main env libs opts args) (e, [])"

end
