(* ===== verification/ManagerProperties.thy ===== *)
theory ManagerProperties
  imports Manager RefWorld
begin

text \<open>
  The properties of the start of the program: how the process ends for every answer of the
  libraries, what is registered once the manager runs, and what the flags mean for its servers.
\<close>

section \<open>Chains of calls\<close>

definition succeeded :: "main_call list \<Rightarrow> (main_call \<times> gerror option) list" where
  "succeeded cs = map (\<lambda>c. (c, None)) cs"

lemma succeeded_simps [simp]: "succeeded [] = []" "succeeded (c # cs) = (c, None) # succeeded cs"
  "succeeded (cs @ ds) = succeeded cs @ succeeded ds"
  by (simp_all add: succeeded_def)

lemma succeeded_in: "(c, r) \<in> set (succeeded cs) \<longleftrightarrow> c \<in> set cs \<and> r = None"
  by (auto simp: succeeded_def)

text \<open>The calls of package initialisation.\<close>

definition init_sequence :: "main_call list" where
  "init_sequence = [Add_clientgo_to_scheme scheme, Add_to_scheme api_SchemeBuilder scheme]"

text \<open>The calls of \<open>main\<close> once the flags are parsed.\<close>

definition start_sequence :: "main_flags \<Rightarrow> main_call list" where
  "start_sequence f = [Get_config, New_manager (managerOptions f), SetupWithManager_PostgreSQL main_reconciler,
     SetupWithManager_Database main_reconciler, SetupWithManager_User main_reconciler, SetupWithManager_Grant main_reconciler,
     Add_healthz_check ''healthz'', Add_readyz_check ''readyz'', Start_manager]"

lemma run_manager_chain:
  "run_manager env f = foldr (or_exit env) (start_sequence f) (\<lambda>s. (Returned, s))"
  by (simp add: run_manager_def start_sequence_def)

lemma or_exit_step:
  "do_call env c s = (None, s1) \<Longrightarrow> or_exit env c k s = k s1"
  "do_call env c s = (Some err, s1) \<Longrightarrow> or_exit env c k s = (Exited 1, s1)"
  by (simp_all add: or_exit_def)

lemma chain_cases:
  assumes "foldr (or_exit env) cs k s = (r, s')"
  obtains (stopped) n err where "n < length cs" "snd s' = snd s @ succeeded (take n cs) @ [(cs ! n, Some err)]" "r = Exited 1"
  | (finished) s1 where "snd s1 = snd s @ succeeded cs" "k s1 = (r, s')"
  using assms
proof (induction cs arbitrary: s thesis)
  case (Cons c cs)
  obtain x s1 where c: "do_call env c s = (x, s1)" "snd s1 = snd s @ [(c, x)]"
    by (cases "env c (fst s)") (auto simp: do_call_def)
  show ?case
  proof (cases x)
    case None
    with c Cons.prems(3) have "foldr (or_exit env) cs k s1 = (r, s')" by (simp add: or_exit_step)
    from Cons.IH [OF _ _ this] show ?thesis
    proof cases
      case (1 n err)
      with c None show ?thesis by (intro Cons.prems(1) [of "Suc n" err]) simp_all
    next
      case (2 s2)
      with c None show ?thesis by (intro Cons.prems(2) [of s2]) simp_all
    qed
  next
    case (Some err)
    with c Cons.prems(3) have "s' = s1" "r = Exited 1" by (simp_all add: or_exit_step)
    with c Some show ?thesis by (intro Cons.prems(1) [of 0 err]) simp_all
  qed
qed simp

lemma process_cases:
  assumes "process env libs opts args e = (r, s')"
  obtains (init) n err where "n < 2" "r = Panicked"
      "snd s' = succeeded (take n init_sequence)
        @ [(init_sequence ! n, Some err)]"
  | (flags) fe where "parse_flags (command_line libs) args (flag_defaults, opts) = Inl fe"
      "snd s' = succeeded init_sequence"
      "r = Exited (case fe of Err_help \<Rightarrow> 0 | Err_flag \<Rightarrow> 2)"
  | (stopped) f z n err where "parse_flags (command_line libs) args (flag_defaults, opts) = Inr (f, z)"
      "n < length (start_sequence f)" "r = Exited 1"
      "snd s' = succeeded (init_sequence @ take n (start_sequence f))
        @ [(start_sequence f ! n, Some err)]"
  | (returned) f z where "parse_flags (command_line libs) args (flag_defaults, opts) = Inr (f, z)" "r = Returned"
      "snd s' = succeeded (init_sequence @ start_sequence f)"
proof -
  obtain x s1 where x: "do_call env (Add_clientgo_to_scheme scheme) (e, []) = (x, s1)" "snd s1 = [(Add_clientgo_to_scheme scheme, x)]"
    by (cases "env (Add_clientgo_to_scheme scheme) e") (auto simp: do_call_def)
  show ?thesis
  proof (cases x)
    case (Some err)
    with assms x show ?thesis by (intro init [of 0 err]) (auto simp: process_def main_init_def Must_def init_sequence_def)
  next
    case None
    obtain y s2 where y: "do_call env (Add_to_scheme api_SchemeBuilder scheme) s1 = (y, s2)"
      "snd s2 = snd s1 @ [(Add_to_scheme api_SchemeBuilder scheme, y)]"
      by (cases "env (Add_to_scheme api_SchemeBuilder scheme) (fst s1)") (auto simp: do_call_def)
    show ?thesis
    proof (cases y)
      case (Some err)
      with None assms x y show ?thesis by (intro init [of 1 err]) (auto simp: process_def main_init_def Must_def init_sequence_def)
    next
      case None
      with \<open>x = None\<close> assms x(1) y(1) have m: "main env libs opts args s2 = (r, s')"
        by (simp add: process_def main_init_def Must_def init_sequence_def)
      have s2: "snd s2 = succeeded init_sequence"
        using x(2) y(2) None \<open>x = None\<close> by (simp add: init_sequence_def)
      show ?thesis
      proof (cases "parse_flags (command_line libs) args (flag_defaults, opts)")
        case (Inl fe)
        with m s2 show ?thesis by (intro flags [of fe]) (auto simp: main_def split: flag_error.splits)
      next
        case (Inr g)
        obtain f z where g: "g = (f, z)" by (cases g)
        with Inr m have "foldr (or_exit env) (start_sequence f) (\<lambda>s. (Returned, s)) s2 = (r, s')"
          by (simp add: main_def run_manager_chain)
        then show ?thesis
        proof (cases rule: chain_cases)
          case (stopped n err)
          with Inr g s2 show ?thesis by (intro that(3) [of f z n err]) simp_all
        next
          case (finished s3)
          with Inr g s2 show ?thesis by (intro that(4) [of f z]) simp_all
        qed
      qed
    qed
  qed
qed

section \<open>How the process ends\<close>

text \<open>C37: The process makes the calls of its start in order up to the first that fails, and no other.
A failure while the scheme is filled panics; a bad command line exits with status 2 (0 if help is asked
for) before anything else is called; a later failure exits with status 1; and \<open>main\<close> returns only after
every call succeeded, the last being the run of the manager.\<close>

theorem process_outcome:
  assumes "process env libs opts args e = (r, s')"
  shows "case r of
      Panicked \<Rightarrow> \<exists>n err. n < 2 \<and> snd s' = succeeded (take n init_sequence) @ [(init_sequence ! n, Some err)]
    | Exited code \<Rightarrow>
        (\<exists>fe. parse_flags (command_line libs) args (flag_defaults, opts) = Inl fe \<and>
           code = (if fe = Err_help then 0 else 2) \<and> snd s' = succeeded init_sequence) \<or>
        (\<exists>f z n err. parse_flags (command_line libs) args (flag_defaults, opts) = Inr (f, z) \<and> code = 1 \<and>
           n < length (start_sequence f) \<and>
           snd s' = succeeded (init_sequence @ take n (start_sequence f)) @ [(start_sequence f ! n, Some err)])
    | Returned \<Rightarrow> \<exists>f z. parse_flags (command_line libs) args (flag_defaults, opts) = Inr (f, z) \<and>
        snd s' = succeeded (init_sequence @ start_sequence f)"
  using assms
proof (cases rule: process_cases)
  case (flags fe)
  then show ?thesis by (cases fe) simp_all
next
  case (stopped f z n err)
  then show ?thesis by simp blast
qed auto

definition all_well :: "unit answers" where
  "all_well c e = (None, e)"

definition no_libs :: "string \<rightharpoonup> unit flag_value" where
  "no_libs = (\<lambda>_. None)"

lemmas run_defs = process_def main_init_def Must_def do_call_def main_def run_manager_def or_exit_def
  all_well_def no_libs_def command_line_def main_flag_def main_flag_table_def StringVar_def BoolVar_def flag_defaults_def
  read_arg_def read_name_def

lemma sample_process:
  "\<exists>s'. process all_well no_libs () [''--metrics-secure=false'', ''-health-probe-bind-address'', '':9''] () = (Returned, s') \<and>
     (Start_manager, None) \<in> set (snd s')"
  by (simp add: run_defs)

lemma sample_parse:
  "parse_flags (command_line no_libs) [''--metrics-secure=false'', ''-health-probe-bind-address'', '':9''] (flag_defaults, ())
   = Inr (flag_defaults\<lparr>secureMetrics := False, probeAddr := '':9''\<rparr>, ())"
  by (simp add: run_defs)

theorem process_outcome_witness:
  "\<exists>s'. process all_well no_libs () [''--metrics-secure=false'', ''-health-probe-bind-address'', '':9''] () = (Returned, s') \<and>
     snd s' = succeeded (init_sequence @ start_sequence (flag_defaults\<lparr>secureMetrics := False, probeAddr := '':9''\<rparr>))"
proof -
  obtain s' where s': "process all_well no_libs () [''--metrics-secure=false'', ''-health-probe-bind-address'', '':9''] () = (Returned, s')"
    using sample_process by blast
  from process_outcome [OF this] s' show ?thesis unfolding sample_parse by simp
qed

section \<open>What runs\<close>

definition before_start :: "main_flags \<Rightarrow> main_call list" where
  "before_start f = butlast (start_sequence f)"

lemma start_sequence_split: "start_sequence f = before_start f @ [Start_manager]"
  by (simp add: before_start_def start_sequence_def)

lemma not_before_start: "Start_manager \<notin> set (init_sequence @ before_start f)"
  by (simp add: before_start_def start_sequence_def init_sequence_def SetupWithManager_PostgreSQL_def
    SetupWithManager_Database_def SetupWithManager_User_def SetupWithManager_Grant_def)

lemma failed_at_last:
  assumes "(x, r) \<in> set (succeeded (take n (front @ [x])) @ [((front @ [x]) ! n, Some err)])"
    and "n < length (front @ [x])" "x \<notin> set front"
  shows "n = length front"
proof (rule ccontr)
  assume "n \<noteq> length front"
  with assms(2) have n: "n < length front" by simp
  then have "x \<in> set (take n front) \<or> x = front ! n"
    using assms(1) by (auto simp: nth_append succeeded_in)
  with n assms(3) show False using in_set_takeD nth_mem by metis
qed

lemma started_calls:
  assumes "process env libs opts args e = (r, s')" "(Start_manager, x) \<in> set (snd s')"
  obtains f z where "parse_flags (command_line libs) args (flag_defaults, opts) = Inr (f, z)"
    "snd s' = succeeded (init_sequence @ before_start f) @ [(Start_manager, x)]"
  using assms(1)
proof (cases rule: process_cases)
  case (init n err)
  then have "n = 0 \<or> n = 1" by auto
  with init assms(2) show ?thesis by (auto simp: init_sequence_def)
next
  case (flags fe)
  with assms(2) show ?thesis by (auto simp: init_sequence_def)
next
  case (stopped f z n err)
  have "(Start_manager, x) \<in> set (succeeded (take n (before_start f @ [Start_manager])) @
      [((before_start f @ [Start_manager]) ! n, Some err)])"
    using assms(2) not_before_start [of f] unfolding stopped(4) start_sequence_split by (auto simp: succeeded_in)
  then have n: "n = length (before_start f)"
    by (rule failed_at_last) (use stopped(2) not_before_start [of f] in \<open>simp_all add: start_sequence_split\<close>)
  then have calls: "snd s' = succeeded (init_sequence @ before_start f) @ [(Start_manager, Some err)]"
    using stopped(4) by (simp add: start_sequence_split)
  with assms(2) not_before_start [of f] have "x = Some err" by (auto simp: succeeded_in)
  with calls stopped(1) show ?thesis by (intro that) simp_all
next
  case (returned f z)
  then have calls: "snd s' = succeeded (init_sequence @ before_start f) @ [(Start_manager, None)]"
    by (simp add: start_sequence_split)
  with assms(2) not_before_start [of f] have "x = None" by (auto simp: succeeded_in)
  with calls returned(1) show ?thesis by (intro that) simp_all
qed

fun controller_of :: "object_kind \<Rightarrow> controller" where
  "controller_of PostgreSQL_kind = \<lparr>ctl_For = PostgreSQL_kind, ctl_Named = ''postgresql'', ctl_Reconciler = PostgreSQLReconciler main_reconciler\<rparr>"
| "controller_of Database_kind = \<lparr>ctl_For = Database_kind, ctl_Named = ''postgresqldatabase'', ctl_Reconciler = PostgreSQLDatabaseReconciler main_reconciler\<rparr>"
| "controller_of User_kind = \<lparr>ctl_For = User_kind, ctl_Named = ''postgresqluser'', ctl_Reconciler = PostgreSQLUserReconciler main_reconciler\<rparr>"
| "controller_of _ = \<lparr>ctl_For = Grant_kind, ctl_Named = ''postgresqlgrant'', ctl_Reconciler = PostgreSQLGrantReconciler main_reconciler\<rparr>"

lemma controller_of_Reconcile:
  "k \<noteq> Secret_kind \<Longrightarrow> reconciler_Reconcile (ctl_Reconciler (controller_of k)) d req s = Reconcile d k req s"
  by (cases k) simp_all

lemma controller_of_fields: "reconciler_fields (ctl_Reconciler (controller_of k)) = main_reconciler"
  by (cases k) simp_all

lemma controllers_started:
  "Complete c \<in> set (init_sequence @ before_start f) \<longleftrightarrow> ctl_For c \<noteq> Secret_kind \<and> c = controller_of (ctl_For c)"
proof -
  have "Complete c \<in> set (init_sequence @ before_start f) \<longleftrightarrow>
      c \<in> {controller_of PostgreSQL_kind, controller_of Database_kind, controller_of User_kind, controller_of Grant_kind}"
    by (simp add: init_sequence_def before_start_def start_sequence_def SetupWithManager_PostgreSQL_def
      SetupWithManager_Database_def SetupWithManager_User_def SetupWithManager_Grant_def)
  also have "\<dots> \<longleftrightarrow> ctl_For c \<noteq> Secret_kind \<and> c = controller_of (ctl_For c)"
    by (cases "ctl_For c") auto
  finally show ?thesis .
qed

text \<open>The one manager that is made.\<close>

lemma manager_made: "New_manager mo \<in> set (init_sequence @ before_start f) \<longleftrightarrow> mo = managerOptions f"
  by (auto simp: init_sequence_def before_start_def start_sequence_def SetupWithManager_PostgreSQL_def
    SetupWithManager_Database_def SetupWithManager_User_def SetupWithManager_Grant_def)

lemma api_types:
  assumes "k \<noteq> Secret_kind"
  shows "{Registered_object k, Registered_list k} \<subseteq> set (concat (sb_calls api_SchemeBuilder))"
  using assms by (cases k) (simp_all add: api_SchemeBuilder_def init_PostgreSQL_def init_Database_def
    init_User_def init_Grant_def Register_def the_SchemeBuilder_def)

text \<open>C36: When the manager is started, each of the four kinds has exactly one controller, whose reconciler
is the one of that kind and has the client and the scheme of the manager. The scheme that \<open>main.go\<close>
allocates, and no other, is the one of the options the manager was made with; and to this very scheme the
types of client-go were added, and the four kinds and their lists under the group version of the
operator.\<close>

theorem registered_controllers:
  assumes "process env libs opts args e = (r, s')" "(Start_manager, x) \<in> set (snd s')" "k \<noteq> Secret_kind"
  shows "(\<exists>!c. (Complete c, None) \<in> set (snd s') \<and> ctl_For c = k) \<and>
    (\<forall>c y. (Complete c, y) \<in> set (snd s') \<longrightarrow> y = None \<and>
       reconciler_fields (ctl_Reconciler c) = \<lparr>rec_Client = Some Manager_GetClient, rec_Scheme = Some Manager_GetScheme\<rparr> \<and>
       (\<forall>d req s. reconciler_Reconcile (ctl_Reconciler c) d req s = Reconcile d (ctl_For c) req s)) \<and>
    (\<exists>!mo. (New_manager mo, None) \<in> set (snd s')) \<and>
    (\<exists>b. (\<forall>mo y. (New_manager mo, y) \<in> set (snd s') \<longrightarrow> mg_Scheme mo = Some New_Scheme) \<and>
       (Add_clientgo_to_scheme New_Scheme, None) \<in> set (snd s') \<and> (Add_to_scheme b New_Scheme, None) \<in> set (snd s') \<and>
       sb_GroupVersion b = the_GroupVersion \<and> {Registered_object k, Registered_list k} \<subseteq> set (concat (sb_calls b)))"
proof -
  obtain f z where calls: "snd s' = succeeded (init_sequence @ before_start f) @ [(Start_manager, x)]"
    using assms(1,2) by (rule started_calls)
  have C: "(Complete c, y) \<in> set (snd s') \<longleftrightarrow> y = None \<and> ctl_For c \<noteq> Secret_kind \<and> c = controller_of (ctl_For c)" for c y
    using controllers_started [of c f] unfolding calls by (auto simp: succeeded_in)
  have M: "(New_manager mo, y) \<in> set (snd s') \<longleftrightarrow> y = None \<and> mo = managerOptions f" for mo y
    using manager_made [of mo f] unfolding calls by (auto simp: succeeded_in)
  have "ctl_For (controller_of k) = k" using assms(3) by (cases k) simp_all
  then have one: "\<exists>!c. (Complete c, None) \<in> set (snd s') \<and> ctl_For c = k"
    unfolding C using assms(3) by (intro ex1I [of _ "controller_of k"]) auto
  have added: "(Add_clientgo_to_scheme New_Scheme, None) \<in> set (snd s')"
      "(Add_to_scheme api_SchemeBuilder New_Scheme, None) \<in> set (snd s')"
    unfolding calls by (simp_all add: succeeded_in init_sequence_def scheme_def)
  have version: "sb_GroupVersion api_SchemeBuilder = the_GroupVersion"
    by (simp add: api_SchemeBuilder_def init_PostgreSQL_def init_Database_def
      init_User_def init_Grant_def Register_def the_SchemeBuilder_def)
  have made: "\<exists>!mo. (New_manager mo, None) \<in> set (snd s')" "\<forall>mo y. (New_manager mo, y) \<in> set (snd s') \<longrightarrow> mg_Scheme mo = Some New_Scheme"
    unfolding M by (simp_all add: managerOptions_def scheme_def)
  have ctl: "y = None" "reconciler_fields (ctl_Reconciler c) = \<lparr>rec_Client = Some Manager_GetClient, rec_Scheme = Some Manager_GetScheme\<rparr>"
      "reconciler_Reconcile (ctl_Reconciler c) d req s = Reconcile d (ctl_For c) req s"
    if "(Complete c, y) \<in> set (snd s')" for c y and d :: "'w deps" and req s
  proof -
    from that have c: "y = None" "ctl_For c \<noteq> Secret_kind" "controller_of (ctl_For c) = c" unfolding C by simp_all
    then show "y = None" by simp
    show "reconciler_fields (ctl_Reconciler c) = \<lparr>rec_Client = Some Manager_GetClient, rec_Scheme = Some Manager_GetScheme\<rparr>"
      using controller_of_fields [of "ctl_For c"] unfolding c(3) main_reconciler_def .
    show "reconciler_Reconcile (ctl_Reconciler c) d req s = Reconcile d (ctl_For c) req s"
      using controller_of_Reconcile [OF c(2), of d req s] unfolding c(3) .
  qed
  show ?thesis
    by (intro conjI one made allI impI exI [of _ api_SchemeBuilder] added version api_types [OF assms(3)])
      (use ctl made in blast)+
qed

theorem registered_controllers_witness:
  "\<exists>s' c. process all_well no_libs () [''--metrics-secure=false'', ''-health-probe-bind-address'', '':9''] () = (Returned, s') \<and>
     (Complete c, None) \<in> set (snd s') \<and> ctl_For c = Grant_kind"
proof -
  obtain s' where s': "process all_well no_libs () [''--metrics-secure=false'', ''-health-probe-bind-address'', '':9''] () = (Returned, s')"
    "(Start_manager, None) \<in> set (snd s')" using sample_process by blast
  have "Grant_kind \<noteq> Secret_kind" by simp
  from ex1_implies_ex [OF conjunct1 [OF registered_controllers [OF s' this]]]
  obtain c where "(Complete c, None) \<in> set (snd s')" "ctl_For c = Grant_kind" by blast
  with s'(1) show ?thesis by blast
qed

section \<open>What the flags mean\<close>

lemma manager_options_given:
  assumes "process env libs opts args e = (r, s')" "(New_manager mo, x) \<in> set (snd s')"
  obtains f z where "parse_flags (command_line libs) args (flag_defaults, opts) = Inr (f, z)" "mo = managerOptions f"
proof -
  have only: "mo = managerOptions f" if "New_manager mo \<in> set (init_sequence @ start_sequence f)" for f
    using that by (simp add: init_sequence_def start_sequence_def SetupWithManager_PostgreSQL_def
      SetupWithManager_Database_def SetupWithManager_User_def SetupWithManager_Grant_def)
  from assms(1) show ?thesis
  proof (cases rule: process_cases)
    case (init n err)
    then have "n = 0 \<or> n = 1" by auto
    with init assms(2) show ?thesis by (auto simp: init_sequence_def)
  next
    case (flags fe)
    with assms(2) show ?thesis by (auto simp: init_sequence_def)
  next
    case (stopped f z n err)
    then have "New_manager mo \<in> set (init_sequence @ start_sequence f)"
      using assms(2) nth_mem [of n "start_sequence f"] by (auto simp: succeeded_in dest: in_set_takeD)
    with only have "mo = managerOptions f" by blast
    with stopped(1) show ?thesis by (rule that)
  next
    case (returned f z)
    then have "New_manager mo \<in> set (init_sequence @ start_sequence f)" using assms(2) by (auto simp: succeeded_in)
    with only have "mo = managerOptions f" by blast
    with returned(1) show ?thesis by (rule that)
  qed
qed

text \<open>Which flags leave a variable alone; a variable no named flag sets keeps its default.\<close>

fun leaves :: "(main_flags \<Rightarrow> 'a) \<Rightarrow> main_flags flag_value \<Rightarrow> bool" where
  "leaves proj (Flag_value b st) \<longleftrightarrow> (\<forall>v g g'. st v g = Some g' \<longrightarrow> proj g' = proj g)"

lemma leaves_simps:
  "leaves proj (StringVar p) \<longleftrightarrow> (\<forall>v g. proj (p v g) = proj g)"
  "(\<forall>v g. proj (q v g) = proj g) \<Longrightarrow> leaves proj (BoolVar q)"
  by (auto simp: StringVar_def BoolVar_def simp del: strconv_ParseBool.simps)

lemma unnamed_default:
  assumes "parse_flags (command_line libs) args (flag_defaults, opts) = Inr (f, z)" "\<not> names args n"
    and "list_all (\<lambda>(m, fv). m = n \<or> leaves proj fv) main_flag_table"
  shows "proj f = proj flag_defaults"
proof -
  have "(\<lambda>(f, z). proj f = proj flag_defaults) (f, z)"
  proof (rule parse_flags_keeps [OF assms(1)])
    fix m b st v g g'
    assume m: "names args m" "command_line libs m = Some (Flag_value b st)" "st v g = Some g'"
      "case g of (f, z) \<Rightarrow> proj f = proj flag_defaults"
    show "case g' of (f, z) \<Rightarrow> proj f = proj flag_defaults"
    proof (cases "main_flag m")
      case None
      with m(2-4) show ?thesis
        by (auto simp: command_line_def split: option.splits flag_value.splits)
    next
      case (Some fv)
      obtain b' st' where fv: "fv = Flag_value b' st'" by (cases fv)
      with Some m(2,3) obtain g1 where g1: "st' v (fst g) = Some g1" "g' = (g1, snd g)"
        by (cases g) (auto simp: command_line_def)
      have "(m, fv) \<in> set main_flag_table" using Some unfolding main_flag_def by (rule map_of_SomeD)
      moreover have "m \<noteq> n" using m(1) assms(2) by blast
      ultimately have "leaves proj fv" using assms(3) by (auto simp: list_all_iff)
      with fv g1 m(4) show ?thesis by (cases g) simp
    qed
  qed simp
  then show ?thesis by simp
qed

text \<open>C38: Unless a flag of the command line is named \<open>enable-http2\<close>, both the webhook server and the
metrics server of the manager negotiate HTTP/1.1 only, whatever their TLS configuration was before.\<close>

theorem http2_disabled_by_default:
  assumes "process env libs opts args e = (r, s')" "(New_manager mo, x) \<in> set (snd s')"
    and "\<not> names args ''enable-http2''"
  shows "NextProtos (apply_tls (wh_TLSOpts (mg_WebhookServer mo)) c) = [''http/1.1''] \<and>
    NextProtos (apply_tls (mx_TLSOpts (mg_Metrics mo)) c) = [''http/1.1'']"
proof -
  obtain f z where f: "parse_flags (command_line libs) args (flag_defaults, opts) = Inr (f, z)" "mo = managerOptions f"
    using assms(1,2) by (rule manager_options_given)
  have "enableHTTP2 f = enableHTTP2 flag_defaults"
    by (rule unnamed_default [OF f(1) assms(3)]) (simp add: main_flag_table_def leaves_simps)
  then have "tlsOpts f = [disableHTTP2]" by (simp add: tlsOpts_def flag_defaults_def)
  then show ?thesis
    by (simp add: f(2) managerOptions_def webhookServerOptions_def metricsServerOptions_def Let_def apply_tls_def
      disableHTTP2_def)
qed

lemma sample_manager:
  "\<exists>s' mo. process all_well no_libs () [''--metrics-secure=false'', ''-health-probe-bind-address'', '':9''] () = (Returned, s') \<and>
     (New_manager mo, None) \<in> set (snd s')"
proof -
  obtain s' where s': "process all_well no_libs () [''--metrics-secure=false'', ''-health-probe-bind-address'', '':9''] () = (Returned, s')"
    using sample_process by blast
  then obtain f where "snd s' = succeeded (init_sequence @ start_sequence f)"
    by (cases rule: process_cases) simp_all
  then have "(New_manager (managerOptions f), None) \<in> set (snd s')" by (simp add: start_sequence_def)
  with s' show ?thesis by blast
qed

lemma sample_flag_names:
  "names [''--metrics-secure=false'', ''-health-probe-bind-address'', '':9''] n \<longleftrightarrow>
   n = ''metrics-secure'' \<or> n = ''health-probe-bind-address''"
  by (auto simp: names_def read_arg_def read_name_def)

theorem http2_disabled_by_default_witness:
  "\<exists>s' mo. process all_well no_libs () [''--metrics-secure=false'', ''-health-probe-bind-address'', '':9''] () = (Returned, s') \<and>
     (New_manager mo, None) \<in> set (snd s') \<and>
     NextProtos (apply_tls (mx_TLSOpts (mg_Metrics mo)) \<lparr>NextProtos = [''h2'', ''http/1.1'']\<rparr>) = [''http/1.1'']"
proof -
  obtain s' mo where s': "process all_well no_libs () [''--metrics-secure=false'', ''-health-probe-bind-address'', '':9''] () = (Returned, s')"
    "(New_manager mo, None) \<in> set (snd s')" using sample_manager by blast
  from http2_disabled_by_default [OF s'] s' sample_flag_names show ?thesis by fastforce
qed

text \<open>The metrics endpoint is served over TLS exactly when its requests are authenticated and
authorised. It is unless a flag is named \<open>metrics-secure\<close>; and it is not served at all (the address
is \<open>0\<close>) unless a flag is named \<open>metrics-bind-address\<close>.\<close>

theorem metrics_protected:
  assumes "process env libs opts args e = (r, s')" "(New_manager mo, x) \<in> set (snd s')"
  shows "(mx_SecureServing (mg_Metrics mo) \<longleftrightarrow> mx_FilterProvider (mg_Metrics mo) = Some WithAuthenticationAndAuthorization) \<and>
    (\<not> names args ''metrics-secure'' \<longrightarrow> mx_SecureServing (mg_Metrics mo)) \<and>
    (\<not> names args ''metrics-bind-address'' \<longrightarrow> mx_BindAddress (mg_Metrics mo) = ''0'')"
proof -
  obtain f z where f: "parse_flags (command_line libs) args (flag_defaults, opts) = Inr (f, z)" "mo = managerOptions f"
    using assms(1,2) by (rule manager_options_given)
  have "secureMetrics f = secureMetrics flag_defaults" if "\<not> names args ''metrics-secure''"
    by (rule unnamed_default [OF f(1) that]) (simp add: main_flag_table_def leaves_simps)
  moreover have "metricsAddr f = metricsAddr flag_defaults" if "\<not> names args ''metrics-bind-address''"
    by (rule unnamed_default [OF f(1) that]) (simp add: main_flag_table_def leaves_simps)
  ultimately show ?thesis
    by (simp add: f(2) managerOptions_def metricsServerOptions_def Let_def flag_defaults_def)
qed

theorem metrics_protected_witness:
  "\<exists>s' mo. process all_well no_libs () [''--metrics-secure=false'', ''-health-probe-bind-address'', '':9''] () = (Returned, s') \<and>
     (New_manager mo, None) \<in> set (snd s') \<and> mx_BindAddress (mg_Metrics mo) = ''0''"
proof -
  obtain s' mo where s': "process all_well no_libs () [''--metrics-secure=false'', ''-health-probe-bind-address'', '':9''] () = (Returned, s')"
    "(New_manager mo, None) \<in> set (snd s')" using sample_manager by blast
  from metrics_protected [OF s'] s' sample_flag_names show ?thesis by fastforce
qed

text \<open>A command line that gives every flag its value.\<close>

definition bool_text :: "bool \<Rightarrow> string" where
  "bool_text b = (if b then ''true'' else ''false'')"

definition flag_text :: "string \<Rightarrow> string \<Rightarrow> string" where
  "flag_text n v = ''--'' @ n @ ''='' @ v"

definition render_flags :: "main_flags \<Rightarrow> string list" where
  "render_flags f =
    [flag_text ''metrics-bind-address'' (metricsAddr f), flag_text ''health-probe-bind-address'' (probeAddr f),
     flag_text ''leader-elect'' (bool_text (enableLeaderElection f)),
     flag_text ''metrics-secure'' (bool_text (secureMetrics f)),
     flag_text ''webhook-cert-path'' (webhookCertPath f), flag_text ''webhook-cert-name'' (webhookCertName f),
     flag_text ''webhook-cert-key'' (webhookCertKey f), flag_text ''metrics-cert-path'' (metricsCertPath f),
     flag_text ''metrics-cert-name'' (metricsCertName f), flag_text ''metrics-cert-key'' (metricsCertKey f),
     flag_text ''enable-http2'' (bool_text (enableHTTP2 f))]"

lemma ParseBool_text [simp]: "strconv_ParseBool (bool_text b) = Some b"
  by (simp add: bool_text_def)

definition flag_name :: "string \<Rightarrow> bool" where
  "flag_name n \<longleftrightarrow> n \<noteq> [] \<and> hd n \<noteq> CHR ''-'' \<and> CHR ''='' \<notin> set n"

lemma value_split:
  "CHR ''='' \<notin> set n \<Longrightarrow> takeWhile (\<lambda>c. c \<noteq> CHR ''='') (n @ CHR ''='' # v) = n"
  "CHR ''='' \<notin> set n \<Longrightarrow> dropWhile (\<lambda>c. c \<noteq> CHR ''='') (n @ CHR ''='' # v) = CHR ''='' # v"
  by (induction n) auto

lemma read_flag_text: "flag_name n \<Longrightarrow> read_arg (flag_text n v) = Flag n (Some v)"
  by (cases n) (auto simp: flag_name_def flag_text_def read_arg_def read_name_def value_split)

lemma parse_flag_text:
  assumes "flag_name n" "main_flag n = Some (Flag_value b st)" "st v g = Some g'"
  shows "parse_flags (command_line libs) (flag_text n v # args) (g, z) = parse_flags (command_line libs) args (g', z)"
  using assms by (simp add: read_flag_text command_line_def)

lemma StringVar_set: "main_flag n = Some (StringVar p) \<Longrightarrow> flag_name n \<Longrightarrow>
   parse_flags (command_line libs) (flag_text n v # args) (g, z) = parse_flags (command_line libs) args (p v g, z)"
  using parse_flag_text [of n False "\<lambda>s f. Some (p s f)" v g "p v g"] by (simp add: StringVar_def)

lemma BoolVar_set: "main_flag n = Some (BoolVar p) \<Longrightarrow> flag_name n \<Longrightarrow>
   parse_flags (command_line libs) (flag_text n (bool_text b) # args) (g, z) = parse_flags (command_line libs) args (p b g, z)"
  using parse_flag_text [of n True "\<lambda>s f. map_option (\<lambda>b. p b f) (strconv_ParseBool s)" "bool_text b" g "p b g"]
  by (simp add: BoolVar_def del: strconv_ParseBool.simps)

lemma main_flags_found:
  "main_flag ''metrics-bind-address'' = Some (StringVar (\<lambda>v. metricsAddr_update (\<lambda>_. v)))"
  "main_flag ''health-probe-bind-address'' = Some (StringVar (\<lambda>v. probeAddr_update (\<lambda>_. v)))"
  "main_flag ''leader-elect'' = Some (BoolVar (\<lambda>v. enableLeaderElection_update (\<lambda>_. v)))"
  "main_flag ''metrics-secure'' = Some (BoolVar (\<lambda>v. secureMetrics_update (\<lambda>_. v)))"
  "main_flag ''webhook-cert-path'' = Some (StringVar (\<lambda>v. webhookCertPath_update (\<lambda>_. v)))"
  "main_flag ''webhook-cert-name'' = Some (StringVar (\<lambda>v. webhookCertName_update (\<lambda>_. v)))"
  "main_flag ''webhook-cert-key'' = Some (StringVar (\<lambda>v. webhookCertKey_update (\<lambda>_. v)))"
  "main_flag ''metrics-cert-path'' = Some (StringVar (\<lambda>v. metricsCertPath_update (\<lambda>_. v)))"
  "main_flag ''metrics-cert-name'' = Some (StringVar (\<lambda>v. metricsCertName_update (\<lambda>_. v)))"
  "main_flag ''metrics-cert-key'' = Some (StringVar (\<lambda>v. metricsCertKey_update (\<lambda>_. v)))"
  "main_flag ''enable-http2'' = Some (BoolVar (\<lambda>v. enableHTTP2_update (\<lambda>_. v)))"
  by (simp_all add: main_flag_def main_flag_table_def)

lemma main_flag_names: "list_all (\<lambda>(n, fv). flag_name n) main_flag_table"
  by (simp add: main_flag_table_def flag_name_def)

lemma found_name: "main_flag n = Some fv \<Longrightarrow> flag_name n"
  using main_flag_names by (auto simp: main_flag_def list_all_iff dest!: map_of_SomeD)

lemmas set_flags = StringVar_set [OF _ found_name] BoolVar_set [OF _ found_name]

text \<open>Every setting of the eleven variables can be reached from the command line: the one that names
each flag with its value is parsed to exactly these values, whatever the variables held before.\<close>

theorem flags_roundtrip:
  "parse_flags (command_line libs) (render_flags f) (g, z) = Inr (f, z)"
proof -
  have "parse_flags (command_line libs) (render_flags f) (g, z) = Inr
    (g\<lparr>metricsAddr := metricsAddr f, probeAddr := probeAddr f, enableLeaderElection := enableLeaderElection f,
       secureMetrics := secureMetrics f, webhookCertPath := webhookCertPath f, webhookCertName := webhookCertName f,
       webhookCertKey := webhookCertKey f, metricsCertPath := metricsCertPath f, metricsCertName := metricsCertName f,
       metricsCertKey := metricsCertKey f, enableHTTP2 := enableHTTP2 f\<rparr>, z)"
    unfolding render_flags_def
    by (simp only: set_flags(1) [OF main_flags_found(1) main_flags_found(1)] set_flags(1) [OF main_flags_found(2) main_flags_found(2)]
      set_flags(2) [OF main_flags_found(3) main_flags_found(3)] set_flags(2) [OF main_flags_found(4) main_flags_found(4)]
      set_flags(1) [OF main_flags_found(5) main_flags_found(5)] set_flags(1) [OF main_flags_found(6) main_flags_found(6)]
      set_flags(1) [OF main_flags_found(7) main_flags_found(7)] set_flags(1) [OF main_flags_found(8) main_flags_found(8)]
      set_flags(1) [OF main_flags_found(9) main_flags_found(9)] set_flags(1) [OF main_flags_found(10) main_flags_found(10)]
      set_flags(2) [OF main_flags_found(11) main_flags_found(11)] parse_flags.simps(1))
  then show ?thesis by (cases f; cases g) simp
qed

end
