(* ===== verification/TestUtils.thy ===== *)
theory TestUtils
  imports World "HOL-Library.Sublist"
begin

text \<open>
  \<open>test/utils/utils.go\<close>: the tools of the end-to-end tests, which run commands, look at their output
  and edit files. The operating system and the writer of the test framework are parameters.
\<close>

section \<open>Strings\<close>

definition newline :: char where
  "newline = CHR 0x0A"

definition carriage_return :: char where
  "carriage_return = CHR 0x0D"

text \<open>\<open>strings.Index\<close>, with \<open>None\<close> for a negative result, and \<open>strings.Contains\<close>.\<close>

fun strings_Index :: "string \<Rightarrow> string \<Rightarrow> nat option" where
  "strings_Index [] t = (if t = [] then Some 0 else None)"
| "strings_Index (c # s) t = (if prefix t (c # s) then Some 0 else map_option Suc (strings_Index s t))"

definition strings_Contains :: "string \<Rightarrow> string \<Rightarrow> bool" where
  "strings_Contains s t \<longleftrightarrow> strings_Index s t \<noteq> None"

text \<open>\<open>strings.SplitSeq\<close> at line feeds: one element more than there are line feeds.\<close>

fun split_lines :: "string \<Rightarrow> string list" where
  "split_lines [] = [[]]"
| "split_lines (c # s) =
     (if c = newline then [] # split_lines s
      else (case split_lines s of [] \<Rightarrow> [[c]] | l # ls \<Rightarrow> (c # l) # ls))"

text \<open>\<open>strings.ReplaceAll\<close>, for a text to replace that is not empty.\<close>

function strings_ReplaceAll :: "string \<Rightarrow> string \<Rightarrow> string \<Rightarrow> string" where
  "strings_ReplaceAll [] old new = []"
| "strings_ReplaceAll (c # s) old new =
     (if prefix old (c # s) then new @ strings_ReplaceAll (drop (length old - 1) s) old new
      else c # strings_ReplaceAll s old new)"
  by pat_completeness auto
termination by (relation "measure (\<lambda>(s, _, _). length s)") auto

definition strings_TrimPrefix :: "string \<Rightarrow> string \<Rightarrow> string" where
  "strings_TrimPrefix s p = (if prefix p s then drop (length p) s else s)"

section \<open>The system\<close>

record exec_Cmd =
  cmd_Args :: "string list"
  cmd_Dir :: string
  cmd_Env :: "string list"

record 'u os =
  os_Getwd :: "'u \<Rightarrow> (string \<times> gerror option) \<times> 'u"
  os_Chdir :: "string \<Rightarrow> 'u \<Rightarrow> gerror option \<times> 'u"
  os_Environ :: "'u \<Rightarrow> string list"
  os_LookupEnv :: "string \<Rightarrow> 'u \<Rightarrow> string option"
  os_ReadFile :: "string \<Rightarrow> 'u \<Rightarrow> (gerror + string) \<times> 'u"
  os_WriteFile :: "string \<Rightarrow> string \<Rightarrow> nat \<Rightarrow> 'u \<Rightarrow> gerror option \<times> 'u"
  cmd_CombinedOutput :: "exec_Cmd \<Rightarrow> 'u \<Rightarrow> (string \<times> gerror option) \<times> 'u"
  GinkgoWriter_Write :: "string \<Rightarrow> 'u \<Rightarrow> 'u"
  os_IsPrint :: "nat \<Rightarrow> bool"

definition os_q :: "'u os \<Rightarrow> string \<Rightarrow> string" where
  "os_q os s = strconv_Quote (os_IsPrint os) s"

definition exec_Command :: "string list \<Rightarrow> exec_Cmd" where
  "exec_Command args = \<lparr>cmd_Args = args, cmd_Dir = [], cmd_Env = []\<rparr>"

section \<open>Commands\<close>

definition certmanagerVersion :: string where
  "certmanagerVersion = ''v1.19.4''"

definition certmanagerURL :: "string \<Rightarrow> string" where
  "certmanagerURL version =
     ''https://github.com/cert-manager/cert-manager/releases/download/'' @ version @ ''/cert-manager.yaml''"

definition defaultKindBinary :: string where
  "defaultKindBinary = ''kind''"

definition defaultKindCluster :: string where
  "defaultKindCluster = ''kind''"

definition warnError :: "'u os \<Rightarrow> gerror \<Rightarrow> 'u \<Rightarrow> 'u" where
  "warnError os err u = GinkgoWriter_Write os (''warning: '' @ Error err @ [newline]) u"

definition GetProjectDir :: "'u os \<Rightarrow> 'u \<Rightarrow> (string \<times> gerror option) \<times> 'u" where
  "GetProjectDir os u =
     (case os_Getwd os u of
        ((wd, Some err), u) \<Rightarrow> ((wd, Some (Wrapped ''failed to get current working directory: '' err)), u)
      | ((wd, None), u) \<Rightarrow> ((strings_ReplaceAll wd ''/test/e2e'' [], None), u))"

definition Run :: "'u os \<Rightarrow> exec_Cmd \<Rightarrow> 'u \<Rightarrow> (string \<times> gerror option) \<times> 'u" where
  "Run os cmd u =
     (case GetProjectDir os u of
        ((dir, _), u) \<Rightarrow>
          (let cmd = cmd\<lparr>cmd_Dir := dir\<rparr> in
           case (case os_Chdir os (cmd_Dir cmd) u of
                   (Some err, u) \<Rightarrow> GinkgoWriter_Write os (''chdir dir: '' @ os_q os (Error err) @ [newline]) u
                 | (None, u) \<Rightarrow> u) of
             u \<Rightarrow>
               (let cmd = cmd\<lparr>cmd_Env := os_Environ os u @ [''GO111MODULE=on'']\<rparr>;
                    command = strings_Join (cmd_Args cmd) '' '';
                    u = GinkgoWriter_Write os (''running: '' @ os_q os command @ [newline]) u in
                case cmd_CombinedOutput os cmd u of
                  ((output, Some err), u) \<Rightarrow>
                    ((output, Some (Wrapped (os_q os command @ '' failed with error '' @ os_q os output @ '': '') err)), u)
                | ((output, None), u) \<Rightarrow> ((output, None), u))))"

text \<open>A command whose failure is only a warning, and the loop over the leases.\<close>

definition run_or_warn :: "'u os \<Rightarrow> exec_Cmd \<Rightarrow> 'u \<Rightarrow> 'u" where
  "run_or_warn os cmd u =
     (case Run os cmd u of ((_, Some err), u) \<Rightarrow> warnError os err u | ((_, None), u) \<Rightarrow> u)"

definition kubeSystemLeases :: "string list" where
  "kubeSystemLeases = [''cert-manager-cainjector-leader-election'', ''cert-manager-controller'']"

definition UninstallCertManager :: "'u os \<Rightarrow> 'u \<Rightarrow> 'u" where
  "UninstallCertManager os u =
     (let url = certmanagerURL certmanagerVersion;
          u = run_or_warn os (exec_Command [''kubectl'', ''delete'', ''-f'', url]) u in
      fold (\<lambda>lease u. run_or_warn os (exec_Command [''kubectl'', ''delete'', ''lease'', lease,
        ''-n'', ''kube-system'', ''--ignore-not-found'', ''--force'', ''--grace-period=0'']) u) kubeSystemLeases u)"

definition InstallCertManager :: "'u os \<Rightarrow> 'u \<Rightarrow> gerror option \<times> 'u" where
  "InstallCertManager os u =
     (let url = certmanagerURL certmanagerVersion in
      case Run os (exec_Command [''kubectl'', ''apply'', ''-f'', url]) u of
        ((_, Some err), u) \<Rightarrow> (Some err, u)
      | ((_, None), u) \<Rightarrow>
          (case Run os (exec_Command [''kubectl'', ''wait'', ''deployment.apps/cert-manager-webhook'',
               ''--for'', ''condition=Available'', ''--namespace'', ''cert-manager'', ''--timeout'', ''5m'']) u of
             ((_, err), u) \<Rightarrow> (err, u)))"

definition GetNonEmptyLines :: "string \<Rightarrow> string list" where
  "GetNonEmptyLines output =
     (let elements = split_lines output in
      fold (\<lambda>element res. if element \<noteq> [] then res @ [element] else res) elements [])"

definition certManagerCRDs :: "string list" where
  "certManagerCRDs = [''certificates.cert-manager.io'', ''issuers.cert-manager.io'', ''clusterissuers.cert-manager.io'',
     ''certificaterequests.cert-manager.io'', ''orders.acme.cert-manager.io'', ''challenges.acme.cert-manager.io'']"

definition IsCertManagerCRDsInstalled :: "'u os \<Rightarrow> 'u \<Rightarrow> bool \<times> 'u" where
  "IsCertManagerCRDsInstalled os u =
     (case Run os (exec_Command [''kubectl'', ''get'', ''crds'']) u of
        ((_, Some err), u) \<Rightarrow> (False, u)
      | ((output, None), u) \<Rightarrow>
          (let crdList = GetNonEmptyLines output in
           (list_ex (\<lambda>crd. list_ex (\<lambda>line. strings_Contains line crd) crdList) certManagerCRDs, u)))"

definition LoadImageToKindClusterWithName :: "'u os \<Rightarrow> string \<Rightarrow> 'u \<Rightarrow> gerror option \<times> 'u" where
  "LoadImageToKindClusterWithName os name u =
     (let cluster = (case os_LookupEnv os ''KIND_CLUSTER'' u of Some v \<Rightarrow> v | None \<Rightarrow> defaultKindCluster);
          kindOptions = [''load'', ''docker-image'', name, ''--name'', cluster];
          kindBinary = (case os_LookupEnv os ''KIND'' u of Some v \<Rightarrow> v | None \<Rightarrow> defaultKindBinary) in
      case Run os (exec_Command (kindBinary # kindOptions)) u of ((_, err), u) \<Rightarrow> (err, u))"

section \<open>Editing a file\<close>

text \<open>
  \<open>bufio.Scanner\<close> with its default split function: the next line without its line feed and a carriage
  return before it, and what follows. There is none at the end of the input, and none when the line
  does not fit into the largest buffer of the scanner, 64 KiB.
\<close>

definition MaxScanTokenSize :: nat where
  "MaxScanTokenSize = 65536"

definition drop_CR :: "string \<Rightarrow> string" where
  "drop_CR l = (if l \<noteq> [] \<and> last l = carriage_return then butlast l else l)"

definition Scan :: "string \<Rightarrow> (string \<times> string) option" where
  "Scan s =
     (if s = [] then None
      else
        (let l = takeWhile (\<lambda>c. c \<noteq> newline) s in
         if length l \<ge> MaxScanTokenSize then None
         else Some (drop_CR l, drop 1 (dropWhile (\<lambda>c. c \<noteq> newline) s))))"

lemma Scan_shorter: "Scan s = Some (l, r) \<Longrightarrow> length r < length s"
  using length_dropWhile_le [of "\<lambda>c. c \<noteq> newline" s]
  by (cases s) (auto simp: Scan_def Let_def simp del: length_dropWhile_le split: if_splits)

text \<open>\<open>Write\<close> and \<open>WriteString\<close> of a \<open>bytes.Buffer\<close>; their error is always nil.\<close>

definition Buffer_Write :: "string \<Rightarrow> string \<Rightarrow> gerror option \<times> string" where
  "Buffer_Write out p = (None, out @ p)"

function uncomment_lines :: "string \<Rightarrow> string \<Rightarrow> string \<Rightarrow> string \<Rightarrow> gerror option \<times> string" where
  "uncomment_lines p line rest out =
     (case Buffer_Write out (strings_TrimPrefix line p) of
        (Some err, out) \<Rightarrow> (Some (Wrapped ''failed to write to output: '' err), out)
      | (None, out) \<Rightarrow>
          (case Scan rest of
             None \<Rightarrow> (None, out)
           | Some (line', rest') \<Rightarrow>
               (case Buffer_Write out [newline] of
                  (Some err, out) \<Rightarrow> (Some (Wrapped ''failed to write to output: '' err), out)
                | (None, out) \<Rightarrow> uncomment_lines p line' rest' out)))"
  by pat_completeness auto
termination by (relation "measure (\<lambda>(_, _, rest, _). length rest)") (auto dest: Scan_shorter)

declare uncomment_lines.simps [simp del]

definition UncommentCode :: "'u os \<Rightarrow> string \<Rightarrow> string \<Rightarrow> string \<Rightarrow> 'u \<Rightarrow> gerror option \<times> 'u" where
  "UncommentCode os filename target p u =
     (case os_ReadFile os filename u of
        (Inl err, u) \<Rightarrow> (Some (Wrapped (''failed to read file '' @ os_q os filename @ '': '') err), u)
      | (Inr content, u) \<Rightarrow>
     (case strings_Index content target of
        None \<Rightarrow> (Some (Plain (''unable to find the code '' @ os_q os target @ '' to be uncommented'')), u)
      | Some idx \<Rightarrow>
     (case Buffer_Write [] (take idx content) of
        (Some err, out) \<Rightarrow> (Some (Wrapped ''failed to write to output: '' err), u)
      | (None, out) \<Rightarrow>
     (case Scan target of
        None \<Rightarrow> (None, u)
      | Some (line, rest) \<Rightarrow>
     (case uncomment_lines p line rest out of
        (Some err, out) \<Rightarrow> (Some err, u)
      | (None, out) \<Rightarrow>
     (case Buffer_Write out (drop (idx + length target) content) of
        (Some err, out) \<Rightarrow> (Some (Wrapped ''failed to write to output: '' err), u)
      | (None, out) \<Rightarrow>
     (case os_WriteFile os filename out 420 u of
        (Some err, u) \<Rightarrow> (Some (Wrapped (''failed to write file '' @ os_q os filename @ '': '') err), u)
      | (None, u) \<Rightarrow> (None, u))))))))"

end
