(* ===== verification/UtilsProperties.thy ===== *)
theory UtilsProperties
  imports TestUtils
begin

text \<open>
  The properties of the test tools: which output counts as an installation of the certificate
  manager, and that uncommenting undoes commenting.
\<close>

section \<open>Lines\<close>

lemma strings_Contains_sublist: "strings_Contains s t \<longleftrightarrow> sublist t s"
  unfolding strings_Contains_def
  by (induction s) (auto simp: sublist_Cons_right)

lemma GetNonEmptyLines_filter: "GetNonEmptyLines output = filter (\<lambda>l. l \<noteq> []) (split_lines output)"
proof -
  have "fold (\<lambda>element res. if element \<noteq> [] then res @ [element] else res) ls res = res @ filter (\<lambda>l. l \<noteq> []) ls"
    for ls res :: "string list"
    by (induction ls arbitrary: res) auto
  then show ?thesis by (simp add: GetNonEmptyLines_def)
qed

lemma split_lines_first: "\<exists>ls. split_lines s = takeWhile (\<lambda>c. c \<noteq> newline) s # ls"
  by (induction s) (auto split: list.splits)

lemma prefix_takeWhile:
  "list_all P t \<Longrightarrow> prefix t (takeWhile P s) \<longleftrightarrow> prefix t s"
  by (induction s arbitrary: t) (auto simp: prefix_Cons)

lemma sublist_lines:
  assumes "newline \<notin> set t" "t \<noteq> []"
  shows "sublist t s \<longleftrightarrow> (\<exists>l \<in> set (split_lines s). sublist t l)"
proof (induction s)
  case Nil
  then show ?case by simp
next
  case (Cons c s)
  obtain ls where ls: "split_lines s = takeWhile (\<lambda>c. c \<noteq> newline) s # ls" using split_lines_first by blast
  have t: "list_all (\<lambda>c. c \<noteq> newline) t" using assms(1) by (auto simp: list_all_iff)
  show ?case
  proof (cases "c = newline")
    case True
    with assms Cons show ?thesis by (auto simp: sublist_Cons_right prefix_Cons)
  next
    case False
    with prefix_takeWhile [OF t, of "c # s"] Cons ls show ?thesis by (auto simp: sublist_Cons_right)
  qed
qed

lemma lines_containing:
  assumes "newline \<notin> set t" "t \<noteq> []"
  shows "(\<exists>l \<in> set (GetNonEmptyLines s). strings_Contains l t) \<longleftrightarrow> sublist t s"
  using sublist_lines [OF assms, of s] assms(2) by (auto simp: GetNonEmptyLines_filter strings_Contains_sublist)

text \<open>C39: The certificate manager counts as installed exactly when \<open>kubectl get crds\<close> succeeds and its
output mentions one of the six definitions anywhere.\<close>

theorem crds_installed_iff:
  assumes "Run os (exec_Command [''kubectl'', ''get'', ''crds'']) u = ((output, err), u')"
  shows "IsCertManagerCRDsInstalled os u = (err = None \<and> (\<exists>crd \<in> set certManagerCRDs. sublist crd output), u')"
proof -
  have "newline \<notin> set crd \<and> crd \<noteq> []" if "crd \<in> set certManagerCRDs" for crd
    using that by (auto simp: certManagerCRDs_def newline_def)
  then show ?thesis using assms
    by (auto simp: IsCertManagerCRDsInstalled_def list_ex_iff lines_containing split: option.splits)
qed

definition quiet_os :: "(string \<Rightarrow> gerror + string) \<Rightarrow> string \<Rightarrow> string os" where
  "quiet_os file output = \<lparr>os_Getwd = \<lambda>u. ((''/repo/test/e2e'', None), u), os_Chdir = \<lambda>dir u. (None, u),
     os_Environ = \<lambda>u. [], os_LookupEnv = \<lambda>n u. None, os_ReadFile = \<lambda>f u. (file f, u),
     os_WriteFile = \<lambda>f text perm u. (None, text), cmd_CombinedOutput = \<lambda>cmd u. ((output, None), u),
     GinkgoWriter_Write = \<lambda>text u. u, os_IsPrint = \<lambda>r. True\<rparr>"

definition crd_output :: string where
  "crd_output = ''NAME'' @ [newline] @ ''orders.acme.cert-manager.io 2026'' @ [newline]"

theorem crds_installed_iff_witness:
  "fst (IsCertManagerCRDsInstalled (quiet_os (\<lambda>f. Inr f) crd_output) [])"
proof -
  have "Run (quiet_os (\<lambda>f. Inr f) crd_output) (exec_Command [''kubectl'', ''get'', ''crds'']) [] = ((crd_output, None), [])"
    by (simp add: Run_def GetProjectDir_def quiet_os_def Let_def)
  moreover have "sublist ''orders.acme.cert-manager.io'' crd_output"
    unfolding sublist_def crd_output_def
    by (intro exI [of _ "''NAME'' @ [newline]"] exI [of _ "'' 2026'' @ [newline]"]) simp
  then have "\<exists>crd \<in> set certManagerCRDs. sublist crd crd_output" by (auto simp: certManagerCRDs_def)
  ultimately show ?thesis by (simp add: crds_installed_iff)
qed

section \<open>Uncommenting\<close>

text \<open>Lines the scanner reads as they are.\<close>

definition line_ok :: "string \<Rightarrow> bool" where
  "line_ok l \<longleftrightarrow> newline \<notin> set l \<and> (l = [] \<or> last l \<noteq> carriage_return) \<and> length l < MaxScanTokenSize"

lemma Scan_line: "line_ok l \<Longrightarrow> Scan (l @ newline # r) = Some (l, r)"
  by (auto simp: Scan_def line_ok_def drop_CR_def Let_def takeWhile_append dropWhile_append takeWhile_eq_all_conv)

lemma Scan_last: "line_ok l \<Longrightarrow> l \<noteq> [] \<Longrightarrow> Scan l = Some (l, [])"
proof -
  assume l: "line_ok l" "l \<noteq> []"
  then have tw: "takeWhile (\<lambda>c. c \<noteq> newline) l = l" and dw: "dropWhile (\<lambda>c. c \<noteq> newline) l = []"
    by (auto simp: line_ok_def takeWhile_eq_all_conv dropWhile_eq_Nil_conv)
  from l show ?thesis unfolding Scan_def Let_def tw dw by (auto simp: line_ok_def drop_CR_def)
qed

lemma Scan_Join:
  assumes "line_ok (p @ l)" "p @ last (l # ls) \<noteq> []"
  shows "Scan (strings_Join (map ((@) p) (l # ls)) [newline]) = Some (p @ l, strings_Join (map ((@) p) ls) [newline])"
  using assms Scan_line [of "p @ l"] Scan_last [of "p @ l"] by (cases ls) auto

lemma uncomment_lines_Join:
  "list_all (\<lambda>l. line_ok (p @ l)) ls \<Longrightarrow> ls \<noteq> [] \<longrightarrow> p @ last ls \<noteq> [] \<Longrightarrow>
   uncomment_lines p (p @ l) (strings_Join (map ((@) p) ls) [newline]) out
     = (None, out @ strings_Join (l # ls) [newline])"
proof (induction ls arbitrary: l out)
  case Nil
  then show ?case by (simp add: uncomment_lines.simps Buffer_Write_def strings_TrimPrefix_def Scan_def)
next
  case (Cons x xs)
  have "Scan (strings_Join (map ((@) p) (x # xs)) [newline]) = Some (p @ x, strings_Join (map ((@) p) xs) [newline])"
    using Cons.prems by (intro Scan_Join) auto
  moreover have "xs \<noteq> [] \<longrightarrow> p @ last xs \<noteq> []" using Cons.prems(2) by auto
  ultimately show ?case
    using Cons by (subst uncomment_lines.simps) (simp add: Buffer_Write_def strings_TrimPrefix_def)
qed

text \<open>C40: Uncommenting undoes commenting, for lines the scanner can take. When the target is some lines with
the prefix put before each of them, none of which with its prefix ends in a carriage return, contains a
line feed or is 64 KiB long, when the target does not end with a line feed, and when its first occurrence in the file
stands between \<open>before\<close> and \<open>after\<close>, then the file is written with the plain lines between them; the error
is that of the write. (Longer lines and a line feed at the end are lost.)\<close>

theorem uncomment_restores:
  assumes "os_ReadFile os filename u = (Inr (before @ target @ after), u1)"
    and "target = strings_Join (map ((@) p) ls) [newline]" "ls \<noteq> []" "p @ last ls \<noteq> []"
    and "list_all (\<lambda>l. line_ok (p @ l)) ls"
    and "strings_Index (before @ target @ after) target = Some (length before)"
    and "os_WriteFile os filename (before @ strings_Join ls [newline] @ after) 420 u1 = (err, u2)"
  shows "UncommentCode os filename target p u =
    (map_option (Wrapped (''failed to write file '' @ os_q os filename @ '': '')) err, u2)"
proof -
  obtain l ls' where ls: "ls = l # ls'" using assms(3) by (cases ls) auto
  have scan: "Scan target = Some (p @ l, strings_Join (map ((@) p) ls') [newline])"
    unfolding assms(2) ls by (rule Scan_Join) (use assms(4,5) ls in simp_all)
  have "ls' \<noteq> [] \<longrightarrow> p @ last ls' \<noteq> []" using assms(4) ls by auto
  then have "uncomment_lines p (p @ l) (strings_Join (map ((@) p) ls') [newline]) before
      = (None, before @ strings_Join ls [newline])"
    using uncomment_lines_Join [of p ls' l before] assms(5) ls by simp
  with assms(1,6,7) scan show ?thesis
    by (simp add: UncommentCode_def Buffer_Write_def split: option.splits)
qed

definition commented :: string where
  "commented = ''#- a'' @ [newline] @ ''#- b''"

theorem uncomment_restores_witness:
  "UncommentCode (quiet_os (\<lambda>f. Inr (''x'' @ [newline] @ commented @ [newline] @ ''y'')) []) ''f'' commented ''#'' []
     = (None, ''x'' @ [newline] @ ''- a'' @ [newline] @ ''- b'' @ [newline] @ ''y'')"
proof -
  let ?os = "quiet_os (\<lambda>f. Inr (''x'' @ [newline] @ commented @ [newline] @ ''y'')) []"
  have "UncommentCode ?os ''f'' commented ''#'' [] =
    (map_option (Wrapped (''failed to write file '' @ os_q ?os ''f'' @ '': '')) None,
     (''x'' @ [newline]) @ strings_Join [''- a'', ''- b''] [newline] @ [newline] @ ''y'')"
    by (rule uncomment_restores [where before = "''x'' @ [newline]" and after = "[newline] @ ''y''" and ls = "[''- a'', ''- b'']"])
      (simp_all add: quiet_os_def commented_def line_ok_def newline_def carriage_return_def MaxScanTokenSize_def)
  then show ?thesis by simp
qed

end
