(* ===== verification/Spec2Isabelle.thy ===== *)
theory Spec2Isabelle
  imports SqlProperties HelperProperties ReadyProperties DeletionProperties OrphanProperties WorkerProperties SchemaProperties
    ClusterProperties ConvergenceProperties CopyProperties ManagerProperties UtilsProperties
begin

text \<open>
  A verification development for the PostgreSQL access operator, a Kubernetes operator that keeps
  databases, roles and grants of existing PostgreSQL instances in line with custom resources.

  \<^bold>\<open>The program.\<close> Four controllers (\<open>internal/controller\<close>) reconcile four kinds of resources
  (\<open>api/v1alpha1\<close>). \<open>PostgreSQL\<close> names an instance and the Secret with its superuser's password; its
  controller connects and pings. \<open>PostgreSQLDatabase\<close>, \<open>PostgreSQLUser\<close> and \<open>PostgreSQLGrant\<close> refer to an
  instance; their controllers resolve the reference (\<open>helpers.go\<close>), run SQL over a direct connection
  (\<open>internal/sql\<close>), guard the object with a finalizer once that succeeded, report the condition
  \<open>Ready\<close>, and clean up on deletion when the policy says so.

  \<^bold>\<open>How it is modelled.\<close> Every function under \<open>src/\<close> that is modelled is a definition of the same
  name (a suffix tells the four controllers apart) which threads an explicit state of type
  \<open>'w world\<close>: the outside world \<open>'w\<close>, arbitrary, and a ghost trace of the calls made with their
  results: a read carries the object it returned, an update and a status patch the object sent. Code
  that is not under \<open>src/\<close> (pgx, the Kubernetes client and its helpers, the clock, the random source) is the record \<open>'w deps\<close> of arbitrary functions over \<open>'w\<close>: it may answer anything and
  change the world in any way. What a theorem relies on of it is a named hypothesis
  (\<open>sanitize_ok\<close>, \<open>dsn_reader\<close>, \<open>sets_status\<close>, \<open>sets_condition\<close>, \<open>adds_finalizer\<close>, \<open>removes_finalizer\<close>, \<open>pg_server\<close>,
  \<open>pg_isolated\<close>, \<open>live_services\<close>, \<open>connects_to_existing\<close>, \<open>driver_errors\<close>), each shown to be satisfiable on the concrete world of \<open>RefWorld\<close>, where
  the witnesses run, or on a variant of it. A Go function \<open>(T, error)\<close> returns
  \<open>gerror + T\<close>, one that only returns an error returns \<open>gerror option\<close>; \<open>int32\<close>, \<open>int64\<close> and
  \<open>time.Duration\<close> are words; strings are lists of bytes; \<open>defer\<close> is the combinator \<open>defer_Close\<close>.
  Logging is left out.

  \<^bold>\<open>Which theory models what.\<close>
  \<^item> \<open>Prelude\<close>: durations and the random jitter on 64-bit words, bytes and the special characters,
    \<open>strings.Join\<close>, the verbs \<open>%d\<close> and \<open>%q\<close>, collections of simplification and introduction rules.
  \<^item> \<open>ApiTypes\<close>: the types of \<open>api/v1alpha1\<close>, their constants, \<open>DatabaseName\<close>, \<open>RoleName\<close>.
  \<^item> \<open>World\<close>: errors, services, the trace; \<open>emits s s' evs\<close> says which calls lie between two states.
  \<^item> \<open>SqlText\<close>: \<open>quoteLiteral\<close> and \<open>escapeString\<close> of \<open>user.go\<close>, and PostgreSQL's lexical rules with
    either setting of \<open>standard_conforming_strings\<close>, against which the texts are read back. PostgreSQL
    reads no text with the character with code zero; names and passwords without it are \<open>nul_free\<close>.
  \<^item> \<open>SqlClient\<close>, \<open>SqlDatabase\<close>, \<open>SqlUser\<close>, \<open>SqlGrant\<close>: \<open>internal/sql\<close>, each operation with its calls.
  \<^item> \<open>Helpers\<close>: \<open>internal/controller/helpers.go\<close>; the relation \<open>resolution\<close> says which calls a reference is
    resolved by, and with what arguments and results.
  \<^item> \<open>SqlResource\<close>, \<open>ResourceLaws\<close>: the locale \<open>sql_resource\<close>, the contract the three controllers of SQL
    resources share, with its consequences; \<open>CtrlDatabase\<close>, \<open>CtrlUser\<close>, \<open>CtrlGrant\<close> are the controllers
    and interpret it on their own definitions; \<open>CtrlPostgreSQL\<close> is the fourth controller.
  \<^item> \<open>SqlStatements\<close>: what the statements are read as. \<open>PgServer\<close>: the effect of these statements on a
    cluster (databases, roles, tables, privileges; keywords of privileges in any case), and the contract
    \<open>pg_server\<close> of a connection to one.
    \<open>SqlRefinement\<close>: the abstract operations, and that those of \<open>internal/sql\<close> implement them.
  \<^item> \<open>LiveServer\<close>: the contract \<open>live_server\<close> of a server that is up, which refuses only what cannot be
    done and statements that drop what may be in use (\<open>idle_server\<close> runs these too), and when the
    operations of \<open>internal/sql\<close> succeed on it. It is held to nothing for names and passwords outside
    printable ASCII or names of roles PostgreSQL reserves (\<open>plain_text\<close>, \<open>free_role\<close>, \<open>accepted\<close>).
    \<open>Convergence\<close>: the contract \<open>live_services\<close>, which adds an API server that is up and takes an update of
    an object in its current version (\<open>stored\<close>), with what a reconciliation and a run of them then achieve.
  \<^item> \<open>RefWorld\<close>: an executable instance of all services. \<open>DsnReader\<close>: a reader of connection strings.
  \<^item> \<open>Operator\<close>: all controllers together; \<open>reachable\<close> are the states of any interleaving of
    requests with any changes of the world. \<open>Workers\<close>: the controllers at the same time, call by call,
    with requests cut short. \<open>SentTexts\<close>: which statements a controller can send at all, with the
    locale \<open>sql_texts\<close> over \<open>sql_resource\<close>. \<open>Cluster\<close>: the clusters under the calls of all workers and of
    the outside, \<open>cluster_run\<close>, and what the statements of one controller cannot undo of another's.
    \<open>EndToEnd\<close>: from reports to the cluster. \<open>Schema\<close>: the validation markers of
    \<open>api/v1alpha1\<close> and the schema of the conditions in \<open>config/crd/bases\<close>, and what of it the writes keep.
  \<^item> \<open>GoHeap\<close>: the structs of \<open>api/v1alpha1\<close> in memory, with pointers and slices; the locale \<open>deep_copy\<close>,
    the contract of a copy, and the ways copies are composed. \<open>DeepCopy\<close>: \<open>zz_generated.deepcopy.go\<close>, each
    function of which is shown to meet the contract, and the snapshot of \<open>patchCondition\<close>.
  \<^item> \<open>Flags\<close>: the command line of package \<open>flag\<close>. \<open>Manager\<close>: \<open>groupversion_info.go\<close>, the \<open>init\<close> functions,
    \<open>SetupWithManager\<close> of the controllers, and \<open>cmd/main.go\<close> up to the running manager. The manager calls
    the reconcilers, which \<open>Operator\<close> composes.
  \<^item> \<open>TestUtils\<close>: the tools of the end-to-end tests, \<open>test/utils/utils.go\<close>.
  \<^item> \<open>SqlProperties\<close>, \<open>HelperProperties\<close>, \<open>CtrlProperties\<close>, \<open>ReadyProperties\<close>, \<open>DeletionProperties\<close>,
    \<open>OrphanProperties\<close>, \<open>WorkerProperties\<close>, \<open>ClusterProperties\<close>, \<open>SchemaProperties\<close>,
    \<open>ConvergenceProperties\<close>, \<open>CopyProperties\<close>, \<open>ManagerProperties\<close>, \<open>UtilsProperties\<close>: the properties, with their witnesses.

  \<^bold>\<open>What the theorems show.\<close> Literals and statements are read by the server as meant, whatever the
  names and passwords, if they have no character with code zero (and where not: privileges, connection
  strings); each operation of
  \<open>internal/sql\<close> that reports success implements an abstract operation on the cluster; finalizers are
  only added after the SQL succeeded and only removed after the cleanup or where the code means to
  skip it; \<open>Ready\<close> is only reported after that. While the services are up and nobody else writes the
  objects during a request, every reconciliation of a database or user with names and a password no server
  refuses reports it \<open>Ready\<close>, and one of a grant of all privileges does once its database and its user are
  there, whatever the order of the requests. An object
  reported \<open>Ready\<close> is in the cluster, and one whose deletion finished with the policy \<open>Delete\<close> is not
  (of a grant, \<open>USAGE\<close> on the schema stays). For databases and roles both hold at the moment of the call
  however the controllers interleave and wherever their requests are cut short. Two orders of events
  leave something behind: a grant outlives the deletion of its database for ever, and a database whose
  finalizer could not be written stays when its object goes. The order of the calls around finalizers and reports is
  kept however the controllers interleave; they write nothing but the finalizer and the condition
  \<open>Ready\<close> of the objects they have just been handed, within the schema of the resources but for the length
  of the message of \<open>Ready\<close>, which they do not bound. The calls that resolve a
  reference are known with their arguments. Every connection is closed; requeue intervals stay in
  their bounds; errors reach the work queue only where the code returns them. Copies share no memory with their
  originals. The process fills the scheme its manager is made with, registers one controller for each kind
  and stops at the first call that fails.

  \<^bold>\<open>Bounds.\<close> No fuel is used: the loops of the program are structural recursions, and the recursive
  readers (\<open>sql_tokens\<close>, \<open>ref_dsn\<close>, \<open>parse_flags\<close>, \<open>uncomment_lines\<close>) terminate by the length of their
  input. Memory is not bounded: \<open>new\<close> and \<open>make\<close> always find an unused address.

  \<^bold>\<open>Not modelled.\<close> The tests themselves. Of the code above: logging, the cancellation of contexts,
  panics inside the libraries, and the metadata the operator does not read. The flags the libraries
  register (those of the logger, \<open>--kubeconfig\<close>) and what they set are parameters of \<open>main\<close>. A scheme is known
  by who allocated it, not by its contents. The value of an object does not tell a nil slice from an empty
  one; that copies keep the difference is \<open>nil_kept\<close>. The controllers work on values, not on the heap of
  \<open>GoHeap\<close>; \<open>snapshot_isolated\<close> is why that is enough for \<open>patchCondition\<close>, the one place where two
  pointers to an object's memory could meet. Under interleaved calls
  the statements about the cluster are the two of \<open>ClusterProperties\<close>, on databases and roles; those on
  privileges, on what else changed, and on convergence are about requests that run one after the other,
  with changes of the world between them. In \<open>Cluster\<close> a connection leads to one instance for its
  lifetime and a handle is not used again for another. That a grant converges
  is stated for grants of all privileges, since no other list is accepted (\<open>grant_needs_all\<close>).
\<close>

end
